(* ===== verification/Py_Prelude.thy ===== *)
theory Py_Prelude
  imports Main "HOL-Library.Sublist"
begin

text \<open>
  The Python string and list primitives that the agent loop (\<open>src/agent.py\<close>) and the
  task service (\<open>src/main.py\<close>) are built from, as executable HOL functions:
  \<open>str.strip\<close>, \<open>str.split\<close> with a one-character separator, \<open>str.join\<close>,
  \<open>str.startswith\<close>, the operator \<open>in\<close> on strings, \<open>str.replace\<close>, \<open>str.lower\<close>,
  \<open>str.index\<close> and Python slicing.  A Python string is a \<open>string\<close> (a list of
  \<open>char\<close>); each \<open>char\<close> stands for one code point of the range 0..255, so
  lengths and slices count code points as Python does.  The collection \<open>py_simps\<close>
  gathers the rewrite rules the component theories use.
\<close>

named_theorems py_simps "rewrite rules for the Python string primitives"

type_synonym pystr = string

text \<open>The quote characters, which a HOL string literal cannot hold.\<close>

abbreviation DQ :: pystr where "DQ \<equiv> [CHR 0x22]"

abbreviation SQ :: pystr where "SQ \<equiv> [CHR 0x27]"

subsection \<open>Characters\<close>

text \<open>\<open>str.isspace\<close> on the code points 0..255: the ASCII whitespace, the
  separators 0x1C..0x1F, NEL (0x85) and NO-BREAK SPACE (0xA0).\<close>

definition py_isspace :: "char \<Rightarrow> bool" where
  "py_isspace c \<longleftrightarrow> of_char c \<in> ({9, 10, 11, 12, 13, 28, 29, 30, 31, 32, 133, 160} :: nat set)"

text \<open>\<open>str.lower\<close> on one code point of 0..255: A..Z and the Latin-1 capitals
  (0xC0..0xDE without the multiplication sign 0xD7) move up by 32.\<close>

definition py_lower_char :: "char \<Rightarrow> char" where
  "py_lower_char c =
     (let n = (of_char c :: nat)
      in if (65 \<le> n \<and> n \<le> 90) \<or> (192 \<le> n \<and> n \<le> 222 \<and> n \<noteq> 215)
         then char_of (n + 32) else c)"

definition py_lower :: "pystr \<Rightarrow> pystr" where
  "py_lower s = map py_lower_char s"

subsection \<open>strip\<close>

definition py_lstrip :: "pystr \<Rightarrow> pystr" where
  "py_lstrip s = dropWhile py_isspace s"

definition py_rstrip :: "pystr \<Rightarrow> pystr" where
  "py_rstrip s = rev (dropWhile py_isspace (rev s))"

definition py_strip :: "pystr \<Rightarrow> pystr" where
  "py_strip s = py_rstrip (py_lstrip s)"

text \<open>A string that \<open>strip\<close> leaves alone: no whitespace at either end.\<close>

definition stripped :: "pystr \<Rightarrow> bool" where
  "stripped s \<longleftrightarrow> (s = [] \<or> (\<not> py_isspace (hd s) \<and> \<not> py_isspace (last s)))"

subsection \<open>startswith, in, index\<close>

definition py_startswith :: "pystr \<Rightarrow> pystr \<Rightarrow> bool" where
  "py_startswith s p \<longleftrightarrow> take (length p) s = p"

text \<open>\<open>needle in hay\<close>: the needle starts at some position of the haystack.\<close>

fun py_in :: "pystr \<Rightarrow> pystr \<Rightarrow> bool" where
  "py_in n [] \<longleftrightarrow> n = []"
| "py_in n (c # cs) \<longleftrightarrow> py_startswith (c # cs) n \<or> py_in n cs"

text \<open>\<open>s.index(c)\<close> splits \<open>s\<close> at the first \<open>c\<close>; the caller checks \<open>c in s\<close>
  first, so the \<open>ValueError\<close> of a missing separator never arises.\<close>

definition before_first :: "char \<Rightarrow> pystr \<Rightarrow> pystr" where
  "before_first c s = takeWhile (\<lambda>x. x \<noteq> c) s"

definition after_first :: "char \<Rightarrow> pystr \<Rightarrow> pystr" where
  "after_first c s = drop 1 (dropWhile (\<lambda>x. x \<noteq> c) s)"

subsection \<open>split and join\<close>

text \<open>\<open>s.split(c)\<close> for a one-character separator: the pieces between the
  separators, always at least one (\<open>''.split('|') == ['']\<close>).\<close>

fun split_acc :: "char \<Rightarrow> pystr \<Rightarrow> pystr \<Rightarrow> pystr list" where
  "split_acc c cur [] = [rev cur]"
| "split_acc c cur (x # xs) =
     (if x = c then rev cur # split_acc c [] xs else split_acc c (x # cur) xs)"

definition py_split :: "char \<Rightarrow> pystr \<Rightarrow> pystr list" where
  "py_split c s = split_acc c [] s"

text \<open>\<open>sep.join(xs)\<close>.\<close>

fun py_join :: "pystr \<Rightarrow> pystr list \<Rightarrow> pystr" where
  "py_join sep [] = []"
| "py_join sep [x] = x"
| "py_join sep (x # y # ys) = x @ sep @ py_join sep (y # ys)"

subsection \<open>replace\<close>

text \<open>\<open>s.replace(old, new)\<close> for a non-empty \<open>old\<close>: occurrences are replaced
  from left to right and do not overlap.  For an empty \<open>old\<close> Python inserts
  \<open>new\<close> before every character and at the end.\<close>

fun replace_ne :: "pystr \<Rightarrow> pystr \<Rightarrow> pystr \<Rightarrow> pystr" where
  "replace_ne old new [] = []"
| "replace_ne old new (c # cs) =
     (if old \<noteq> [] \<and> py_startswith (c # cs) old
      then new @ replace_ne old new (drop (length old - 1) cs)
      else c # replace_ne old new cs)"

definition py_replace :: "pystr \<Rightarrow> pystr \<Rightarrow> pystr \<Rightarrow> pystr" where
  "py_replace old new s =
     (if old = [] then new @ concat (map (\<lambda>c. c # new) s) else replace_ne old new s)"

subsection \<open>Slicing\<close>

text \<open>\<open>xs[:k]\<close> for an \<open>int\<close> bound: a negative bound counts from the end.\<close>

definition py_take :: "int \<Rightarrow> 'a list \<Rightarrow> 'a list" where
  "py_take k xs = (if 0 \<le> k then take (nat k) xs else take (nat (int (length xs) + k)) xs)"

text \<open>\<open>xs[-k:]\<close> for \<open>k > 0\<close>: the last \<open>k\<close> elements, all of them when fewer.\<close>

definition py_last_n :: "nat \<Rightarrow> 'a list \<Rightarrow> 'a list" where
  "py_last_n k xs = drop (length xs - k) xs"

text \<open>\<open>s[:n]\<close> for a non-negative \<open>n\<close> is \<open>take n s\<close>.\<close>

subsection \<open>Lemmas\<close>

lemma py_startswith_prefix [py_simps]: "py_startswith s p \<longleftrightarrow> prefix p s"
  by (auto simp: py_startswith_def prefix_def) (metis append_take_drop_id)

lemma py_startswith_append [py_simps]: "py_startswith (p @ s) p"
  by (simp add: py_startswith_def)

text \<open>The scan \<open>py_in\<close> computes the library's \<open>sublist\<close>.\<close>

lemma py_in_sublist [py_simps]: "py_in n s \<longleftrightarrow> sublist n s"
  by (induction s) (auto simp: py_startswith_prefix sublist_Cons_right)

lemma py_in_append_sep:
  assumes "sep \<noteq> []" "set sep \<inter> set m = {}" "m \<noteq> []"
  shows "py_in m (a @ sep @ b) \<longleftrightarrow> py_in m a \<or> py_in m b"
proof -
  have hd_sep: "hd sep \<notin> set m" using assms(1,2) by (cases sep) auto
  have left: "sublist m (a @ sep @ b) \<longleftrightarrow> sublist m a \<or> sublist m (sep @ b)"
  proof
    assume "sublist m (a @ sep @ b)"
    then consider "sublist m a" | "sublist m (sep @ b)"
      | m1 m2 where "m = m1 @ m2" "suffix m1 a" "prefix m2 (sep @ b)"
      by (auto simp: sublist_append)
    then show "sublist m a \<or> sublist m (sep @ b)"
    proof cases
      case (3 m1 m2)
      show ?thesis
      proof (cases "m2 = []")
        case True
        with 3 show ?thesis by (auto intro: sublist_order.order.trans suffix_imp_sublist)
      next
        case False
        with 3 assms(1) have "hd m2 = hd sep"
          by (cases m2; cases sep) (auto simp: prefix_Cons)
        moreover have "hd m2 \<in> set m" using 3(1) False by simp
        ultimately show ?thesis using hd_sep by simp
      qed
    qed auto
  qed (auto intro: sublist_order.order.trans)
  have right: "sublist m (sep @ b) \<longleftrightarrow> sublist m b"
  proof
    assume "sublist m (sep @ b)"
    then consider "sublist m sep" | "sublist m b"
      | m1 m2 where "m = m1 @ m2" "suffix m1 sep" "prefix m2 b"
      by (auto simp: sublist_append)
    then show "sublist m b"
    proof cases
      case 1
      with assms(2,3) show ?thesis
        by (metis disjoint_iff last_in_set set_mono_sublist subsetD)
    next
      case (3 m1 m2)
      show ?thesis
      proof (cases "m1 = []")
        case True
        with 3 show ?thesis by (simp add: prefix_imp_sublist)
      next
        case False
        then have "last m1 \<in> set sep"
          using 3(2) by (metis last_in_set set_mono_suffix subsetD)
        moreover have "last m1 \<in> set m" using False 3(1) by simp
        ultimately show ?thesis using assms(2) by blast
      qed
    qed
  qed (metis sublist_append_leftI sublist_order.order.trans sublist_appendI append.assoc)
  show ?thesis by (simp add: py_in_sublist left right)
qed

lemma py_in_append_left [py_simps]: "py_in m a \<Longrightarrow> py_in m (a @ b)"
  by (auto simp: py_in_sublist intro: sublist_order.order.trans)

lemma py_in_self [py_simps]: "py_in m (a @ m @ b)"
  by (simp add: py_in_sublist)

text \<open>\<open>split\<close> and \<open>join\<close> are inverse; no piece holds the separator.\<close>

lemma split_acc_join: "py_join [c] (split_acc c cur s) = rev cur @ s"
proof (induction c cur s rule: split_acc.induct)
  case (2 c cur x xs)
  then show ?case by (cases "split_acc c [] xs") auto
qed simp

lemma py_split_join [py_simps]: "py_join [c] (py_split c s) = s"
  by (simp add: py_split_def split_acc_join)

lemma split_acc_nonempty: "split_acc c cur s \<noteq> []"
  by (induction c cur s rule: split_acc.induct) auto

lemma split_acc_pieces: "c \<notin> set cur \<Longrightarrow> p \<in> set (split_acc c cur s) \<Longrightarrow> c \<notin> set p"
  by (induction c cur s rule: split_acc.induct) (auto split: if_splits)

lemma py_split_pieces [py_simps]: "p \<in> set (py_split c s) \<Longrightarrow> c \<notin> set p"
  using split_acc_pieces [of c "[]"] by (simp add: py_split_def)

lemma split_acc_no_sep: "c \<notin> set s \<Longrightarrow> split_acc c cur s = [rev cur @ s]"
  by (induction s arbitrary: cur) auto

lemma py_split_no_sep [py_simps]: "c \<notin> set s \<Longrightarrow> py_split c s = [s]"
  by (simp add: py_split_def split_acc_no_sep)

lemma split_acc_sep: "c \<notin> set a \<Longrightarrow> split_acc c cur (a @ c # b) = (rev cur @ a) # split_acc c [] b"
  by (induction a arbitrary: cur) auto

lemma py_split_sep [py_simps]: "c \<notin> set a \<Longrightarrow> py_split c (a @ c # b) = a # py_split c b"
  by (simp add: py_split_def split_acc_sep)

text \<open>\<open>strip\<close>.\<close>

lemma py_strip_stripped [py_simps]: "stripped s \<Longrightarrow> py_strip s = s"
proof -
  assume s: "stripped s"
  show ?thesis
  proof (cases s rule: rev_cases)
    case Nil
    then show ?thesis by (simp add: py_strip_def py_lstrip_def py_rstrip_def)
  next
    case (snoc ys y)
    with s have "\<not> py_isspace (hd s)" "\<not> py_isspace y" by (auto simp: stripped_def)
    with snoc show ?thesis
      by (cases ys) (auto simp: py_strip_def py_lstrip_def py_rstrip_def)
  qed
qed

lemma last_dropWhile: "dropWhile P xs \<noteq> [] \<Longrightarrow> last (dropWhile P xs) = last xs"
  by (induction xs) auto

lemma stripped_py_strip [py_simps]: "stripped (py_strip s)"
proof -
  let ?t = "dropWhile py_isspace s"
  let ?u = "dropWhile py_isspace (rev ?t)"
  have r: "py_strip s = rev ?u"
    by (simp add: py_strip_def py_lstrip_def py_rstrip_def)
  show ?thesis
  proof (cases "?u = []")
    case True
    with r show ?thesis by (simp add: stripped_def)
  next
    case False
    then have t: "?t \<noteq> []" by (metis dropWhile.simps(1) rev.simps(1))
    have "last (rev ?u) = hd ?u" using False by (simp add: last_rev)
    moreover have "\<not> py_isspace (hd ?u)" using False by (simp add: hd_dropWhile)
    moreover have "hd (rev ?u) = last ?u" using False by (simp add: hd_rev)
    moreover have "last ?u = hd ?t"
      using False t by (simp add: last_dropWhile last_rev)
    moreover have "\<not> py_isspace (hd ?t)" using t by (simp add: hd_dropWhile)
    ultimately show ?thesis using r by (simp add: stripped_def)
  qed
qed

text \<open>\<open>strip\<close> ignores whitespace added at either end.\<close>

lemma py_strip_ws_left [py_simps]:
  "\<forall>c\<in>set w. py_isspace c \<Longrightarrow> py_strip (w @ s) = py_strip s"
  by (simp add: py_strip_def py_lstrip_def dropWhile_append2)

lemma py_strip_ws_right [py_simps]:
  assumes "\<forall>c\<in>set w. py_isspace c"
  shows "py_strip (s @ w) = py_strip s"
proof (cases "\<forall>c\<in>set s. py_isspace c")
  case True
  with assms have e1: "dropWhile py_isspace (s @ w) = []" and e2: "dropWhile py_isspace s = []"
    by (simp_all add: dropWhile_eq_Nil_conv)
  show ?thesis unfolding py_strip_def py_lstrip_def e1 e2 by simp
next
  case False
  then have "dropWhile py_isspace (s @ w) = dropWhile py_isspace s @ w"
    by (auto simp: dropWhile_append1)
  moreover have "dropWhile py_isspace (rev w @ r) = dropWhile py_isspace r" for r
    using assms by (subst dropWhile_append2) auto
  ultimately show ?thesis
    by (simp add: py_strip_def py_lstrip_def py_rstrip_def)
qed

lemma stripped_append [py_simps]:
  "a \<noteq> [] \<Longrightarrow> b \<noteq> [] \<Longrightarrow> \<not> py_isspace (hd a) \<Longrightarrow> \<not> py_isspace (last b) \<Longrightarrow> stripped (a @ b)"
  by (simp add: stripped_def)

text \<open>\<open>join\<close>: its ends, its characters, and \<open>in\<close> over it.\<close>

lemma py_join_starts: "qs \<noteq> [] \<Longrightarrow> \<exists>p. py_join sep qs = hd qs @ p"
  by (induction sep qs rule: py_join.induct) auto

lemma py_join_ends: "qs \<noteq> [] \<Longrightarrow> \<exists>p. py_join sep qs = p @ last qs"
  by (induction sep qs rule: py_join.induct) auto

lemma py_join_hd: "qs \<noteq> [] \<Longrightarrow> hd qs \<noteq> [] \<Longrightarrow> hd (py_join sep qs) = hd (hd qs)"
  using py_join_starts [of qs sep] by auto

lemma py_join_last: "qs \<noteq> [] \<Longrightarrow> last qs \<noteq> [] \<Longrightarrow> last (py_join sep qs) = last (last qs)"
  using py_join_ends [of qs sep] by auto

lemma py_join_nonempty: "qs \<noteq> [] \<Longrightarrow> hd qs \<noteq> [] \<Longrightarrow> py_join sep qs \<noteq> []"
  by (induction sep qs rule: py_join.induct) auto

lemma stripped_py_join [py_simps]:
  assumes "qs \<noteq> []" "\<forall>q\<in>set qs. q \<noteq> [] \<and> stripped q"
  shows "stripped (py_join sep qs)"
proof -
  have "hd qs \<noteq> []" "stripped (hd qs)" "last qs \<noteq> []" "stripped (last qs)"
    using assms by auto
  with assms(1) show ?thesis
    by (auto simp: stripped_def py_join_hd py_join_last py_join_nonempty)
qed

lemma set_py_join: "set (py_join sep xs) \<subseteq> set sep \<union> \<Union> (set ` set xs)"
  by (induction sep xs rule: py_join.induct) auto

lemma py_in_join [py_simps]:
  assumes "sep \<noteq> []" "set sep \<inter> set m = {}" "m \<noteq> []"
  shows "py_in m (py_join sep xs) \<longleftrightarrow> (\<exists>x\<in>set xs. py_in m x)"
proof (induction xs rule: induct_list012)
  case (3 x y ys)
  then show ?case using py_in_append_sep [OF assms, of x "py_join sep (y # ys)"] by auto
qed (use assms(3) in simp_all)

lemma py_split_py_join [py_simps]:
  "xs \<noteq> [] \<Longrightarrow> \<forall>x\<in>set xs. c \<notin> set x \<Longrightarrow> py_split c (py_join [c] xs) = xs"
  by (induction "[c]" xs rule: py_join.induct) (auto simp: py_split_no_sep py_split_sep)

text \<open>Every occurrence of a needle without the separator lies inside one piece.\<close>

lemma split_acc_in:
  "c \<notin> set m \<Longrightarrow> m \<noteq> [] \<Longrightarrow> py_in m (rev cur @ s) \<Longrightarrow> \<exists>p\<in>set (split_acc c cur s). py_in m p"
proof (induction c cur s rule: split_acc.induct)
  case (2 c cur x xs)
  show ?case
  proof (cases "x = c")
    case True
    with "2.prems" have "py_in m (rev cur) \<or> py_in m xs"
      using py_in_append_sep [of "[c]" m "rev cur" xs] by simp
    with True "2.IH"(1) "2.prems"(1,2) show ?thesis by auto
  next
    case False
    with "2.IH"(2) "2.prems" show ?thesis by simp
  qed
qed simp

lemma py_split_in [py_simps]:
  "c \<notin> set m \<Longrightarrow> m \<noteq> [] \<Longrightarrow> py_in m s \<Longrightarrow> \<exists>p\<in>set (py_split c s). py_in m p"
  using split_acc_in [of c m "[]" s] by (simp add: py_split_def)

text \<open>Splitting a joined list, each piece read back through \<open>strip\<close>.\<close>

lemma py_split_strip_join:
  assumes "qs \<noteq> []" "\<forall>q\<in>set qs. c \<notin> set q" "\<forall>x\<in>set w. py_isspace x \<and> x \<noteq> c"
    and "\<forall>x\<in>set sp. py_isspace x \<and> x \<noteq> c"
  shows "map py_strip (py_split c (w @ py_join (sp @ c # sp) qs)) = map py_strip qs"
  using assms
proof (induction "sp @ c # sp" qs arbitrary: w rule: py_join.induct)
  case (2 q)
  then have "c \<notin> set (w @ q)" by auto
  with "2.prems"(3) show ?case by (simp add: py_split_no_sep py_strip_ws_left)
next
  case (3 q y ys)
  have "w @ py_join (sp @ c # sp) (q # y # ys) = (w @ q @ sp) @ c # (sp @ py_join (sp @ c # sp) (y # ys))"
    by simp
  moreover have "c \<notin> set (w @ q @ sp)" using "3.prems" by auto
  moreover have "py_strip (w @ q @ sp) = py_strip q"
    using "3.prems"(3,4) py_strip_ws_left [of w "q @ sp"] py_strip_ws_right [of sp q] by simp
  moreover have "map py_strip (py_split c (sp @ py_join (sp @ c # sp) (y # ys))) = map py_strip (y # ys)"
    using "3.hyps" "3.prems" by simp
  ultimately show ?case
    using py_split_sep [of c "w @ q @ sp" "sp @ py_join (sp @ c # sp) (y # ys)"] by simp
qed simp

text \<open>\<open>replace\<close> with no occurrence, and after a leading occurrence.\<close>

lemma replace_ne_no_occ [py_simps]: "\<not> py_in old s \<Longrightarrow> replace_ne old new s = s"
  by (induction old new s rule: replace_ne.induct) auto

lemma replace_ne_prefix [py_simps]:
  "old \<noteq> [] \<Longrightarrow> replace_ne old new (old @ s) = new @ replace_ne old new s"
  by (cases old) (auto simp: py_startswith_def)

lemma py_replace_prefix [py_simps]:
  "old \<noteq> [] \<Longrightarrow> \<not> py_in old s \<Longrightarrow> py_replace old new (old @ s) = new @ s"
  by (simp add: py_replace_def replace_ne_prefix replace_ne_no_occ)

text \<open>\<open>index\<close> at a separator.\<close>

lemma before_first_sep [py_simps]: "c \<notin> set a \<Longrightarrow> before_first c (a @ c # b) = a"
  by (induction a) (auto simp: before_first_def)

lemma after_first_sep [py_simps]: "c \<notin> set a \<Longrightarrow> after_first c (a @ c # b) = b"
  by (induction a) (auto simp: after_first_def)

text \<open>\<open>strip\<close> returns a piece of its argument.\<close>

lemma sublist_py_strip: "sublist (py_strip s) s"
proof -
  let ?t = "dropWhile py_isspace s"
  have "suffix ?t s"
    by (metis suffix_def takeWhile_dropWhile_id)
  moreover have "prefix (rev (dropWhile py_isspace (rev ?t))) ?t"
  proof -
    have "rev ?t = takeWhile py_isspace (rev ?t) @ dropWhile py_isspace (rev ?t)" by simp
    then have "?t = rev (dropWhile py_isspace (rev ?t)) @ rev (takeWhile py_isspace (rev ?t))"
      by (metis rev_append rev_rev_ident)
    then show ?thesis by (metis prefix_def)
  qed
  ultimately show ?thesis
    unfolding py_strip_def py_lstrip_def py_rstrip_def
    by (meson prefix_imp_sublist suffix_imp_sublist sublist_order.order.trans)
qed

lemma py_in_py_strip [py_simps]: "py_in m (py_strip s) \<Longrightarrow> py_in m s"
  using sublist_py_strip by (auto simp: py_in_sublist intro: sublist_order.order.trans)

lemma py_startswith_in [py_simps]: "py_startswith s m \<Longrightarrow> py_in m s"
  by (auto simp: py_startswith_prefix py_in_sublist prefix_imp_sublist)

text \<open>\<open>next(x for x in xs if p(x))\<close> over a concatenation.\<close>

lemma find_append [py_simps]:
  "find P (xs @ ys) = (case find P xs of None \<Rightarrow> find P ys | Some x \<Rightarrow> Some x)"
  by (induction xs) auto

text \<open>A prefix holding no first character of the needle neither starts an
  occurrence nor is touched by \<open>replace\<close>.\<close>

lemma py_in_no_start [py_simps]:
  "m \<noteq> [] \<Longrightarrow> hd m \<notin> set pre \<Longrightarrow> py_in m (pre @ s) \<longleftrightarrow> py_in m s"
  by (induction pre) (auto simp: py_startswith_def neq_Nil_conv)

lemma replace_ne_no_start [py_simps]:
  "old \<noteq> [] \<Longrightarrow> hd old \<notin> set pre \<Longrightarrow> replace_ne old new (pre @ s) = pre @ replace_ne old new s"
  by (induction pre) (auto simp: py_startswith_def neq_Nil_conv)

text \<open>\<open>join\<close> with a separator that starts with the split character.\<close>

lemma py_join_prepend: "py_join sep ((a @ y) # zs) = a @ py_join sep (y # zs)"
  by (cases zs) simp_all

lemma py_join_cons_sep: "py_join (c # r) (x # ys) = py_join [c] (x # map (\<lambda>y. r @ y) ys)"
  by (induction ys arbitrary: x) (simp_all add: py_join_prepend)

lemma split_join_comma:
  assumes "xs \<noteq> []" "\<forall>p\<in>set xs. p \<noteq> [] \<and> stripped p \<and> CHR '','' \<notin> set p"
  shows "map py_strip (py_split CHR '','' (py_join '', '' xs)) = xs"
proof -
  obtain x ys where xs: "xs = x # ys" using assms(1) by (cases xs) auto
  have j: "py_join '', '' xs = py_join [CHR '',''] (x # map (\<lambda>y. '' '' @ y) ys)"
    unfolding xs by (rule py_join_cons_sep)
  have nc: "\<forall>z\<in>set (x # map (\<lambda>y. '' '' @ y) ys). CHR '','' \<notin> set z"
    using assms(2) unfolding xs by auto
  have sp: "py_split CHR '','' (py_join '', '' xs) = x # map (\<lambda>y. '' '' @ y) ys"
    unfolding j by (rule py_split_py_join [OF _ nc]) simp
  have ws: "\<forall>c\<in>set '' ''. py_isspace c" by (simp add: py_isspace_def)
  have "py_strip ('' '' @ y) = y" if "y \<in> set ys" for y
  proof -
    have "stripped y" using assms(2) that unfolding xs by auto
    with py_strip_ws_left [OF ws, of y] show ?thesis by (simp only: py_strip_stripped)
  qed
  moreover have "py_strip x = x" using assms(2) unfolding xs by (auto intro: py_strip_stripped)
  ultimately show ?thesis unfolding sp by (simp add: xs comp_def map_idI)
qed

lemma py_join_comma_none:
  assumes "py_join '', '' xs = ''none''" "\<forall>p\<in>set xs. CHR '','' \<notin> set p"
  shows "xs = [''none'']"
proof (cases xs rule: remdups_adj.cases)
  case (3 x y ys)
  then have "CHR '','' \<in> set (py_join '', '' xs)" by simp
  with assms(1) show ?thesis by simp
qed (use assms in auto)

text \<open>\<open>strip\<close> of a text that starts with a visible character and whose tail holds one
  keeps the head whole.\<close>

lemma py_lstrip_visible_hd:
  "s \<noteq> [] \<Longrightarrow> \<not> py_isspace (hd s) \<Longrightarrow> py_lstrip (s @ t) = s @ t"
  by (cases s) (simp_all add: py_lstrip_def)

lemma py_rstrip_visible_tail:
  assumes "\<exists>c\<in>set t. \<not> py_isspace c"
  shows "py_rstrip (s @ t) = s @ py_rstrip t"
proof -
  from assms obtain c where "c \<in> set (rev t)" "\<not> py_isspace c" by auto
  then show ?thesis by (simp add: py_rstrip_def dropWhile_append1)
qed

text \<open>Splitting lines joined by the separator and followed by more text.\<close>

lemma py_split_join_more:
  "xs \<noteq> [] \<Longrightarrow> \<forall>x\<in>set xs. c \<notin> set x \<Longrightarrow> py_split c (py_join [c] xs @ c # r) = xs @ py_split c r"
  by (induction "[c]" xs rule: py_join.induct) (auto simp: py_split_sep)

lemma find_Some_mem: "find P xs = Some x \<Longrightarrow> x \<in> set xs"
  by (induction xs) (auto split: if_splits)

lemma lists_differ_at:
  "length xs = length ys \<Longrightarrow> xs \<noteq> ys \<Longrightarrow> \<exists>i<length xs. xs ! i \<noteq> ys ! i"
  using nth_equalityI by blast

lemma sublist_py_join_mem: "m \<in> set xs \<Longrightarrow> sublist m (py_join sep xs)"
proof (induction sep xs rule: py_join.induct)
  case (3 sep x y ys)
  show ?case
  proof (cases "m = x")
    case True
    then show ?thesis by simp
  next
    case False
    with "3.prems" have "sublist m (py_join sep (y # ys))" by (intro "3.IH") simp
    moreover have "sublist (py_join sep (y # ys)) (py_join sep (x # y # ys))"
      by (metis py_join.simps(3) append.assoc sublist_append_leftI)
    ultimately show ?thesis by (rule sublist_order.order_trans)
  qed
qed simp_all

end
