(* ===== verification/Response_Parser.thy ===== *)
theory Response_Parser
  imports Py_Prelude
begin

text \<open>
  The decision parser of \<open>run_agent\<close> (\<open>src/agent.py\<close>, lines 127--161 and
  214--234): how one model reply, already stripped, becomes a tool call with positional
  arguments, a final answer, or an invalid-format outcome.  The source checks the
  tool-call marker first and the final-answer marker second; the model keeps that
  order.  The theorems show which line is taken, how the arguments are split (the
  script-evaluation tool keeps its argument whole), that a rendered tool call parses
  back to itself, and that the source's ``marker found but no answer line'' branch can
  never run.
\<close>

definition TOOL_CALL_MARK :: pystr where
  "TOOL_CALL_MARK = ''TOOL_CALL:''"

definition FINAL_ANSWER_MARK :: pystr where
  "FINAL_ANSWER_MARK = ''FINAL_ANSWER:''"

definition EVALUATE_TOOL :: pystr where
  "EVALUATE_TOOL = ''playwright_evaluate''"

abbreviation NL :: char where
  "NL \<equiv> CHR ''\<newline>''"

abbreviation PIPE :: char where
  "PIPE \<equiv> CHR ''|''"

text \<open>The outcomes of the parser, one per path of the source:
  \<^item> \<open>ToolCall name params\<close>: a line starting with the marker was found (line 157 on);
  \<^item> \<open>NoValidToolCall\<close>: the marker occurs but no line starts with it (line 135);
  \<^item> \<open>FinalAnswer ans\<close>: the answer of the first line holding the final marker (221);
  \<^item> \<open>FinalNoLine\<close>: the final marker occurs but no line holds it (the missing
    \<open>else\<close> of line 221: nothing is recorded);
  \<^item> \<open>InvalidFormat\<close>: neither marker (line 232).\<close>

datatype decision =
    ToolCall pystr "pystr list"
  | NoValidToolCall
  | FinalAnswer pystr
  | FinalNoLine
  | InvalidFormat

text \<open>Lines 128--133: the first line whose stripped form starts with the marker,
  stripped.\<close>

definition find_tool_call_line :: "pystr \<Rightarrow> pystr option" where
  "find_tool_call_line text =
     map_option py_strip
       (find (\<lambda>l. py_startswith (py_strip l) TOOL_CALL_MARK) (py_split NL text))"

text \<open>Lines 142--153: the tool name and the positional values from the marker-free
  remainder \<open>parts_raw\<close> of a tool-call line.\<close>

definition tool_call_parts :: "pystr \<Rightarrow> pystr \<times> pystr list" where
  "tool_call_parts parts_raw =
     (if PIPE \<in> set parts_raw then
        (let tool_name = py_strip (before_first PIPE parts_raw);
             remaining = py_strip (after_first PIPE parts_raw)
         in if tool_name = EVALUATE_TOOL then (tool_name, [remaining])
            else (tool_name, map py_strip (py_split PIPE remaining)))
      else (parts_raw, []))"

text \<open>Line 140: every marker removed from the line, then stripped.\<close>

definition split_tool_call :: "pystr \<Rightarrow> pystr \<times> pystr list" where
  "split_tool_call line = tool_call_parts (py_strip (py_replace TOOL_CALL_MARK [] line))"

text \<open>Lines 215--222: the first line holding the final marker, every marker removed,
  stripped.\<close>

definition find_answer_line :: "pystr \<Rightarrow> pystr option" where
  "find_answer_line text = find (py_in FINAL_ANSWER_MARK) (py_split NL text)"

definition parse_response :: "pystr \<Rightarrow> decision" where
  "parse_response text =
     (if py_in TOOL_CALL_MARK text then
        (case find_tool_call_line text of
           None \<Rightarrow> NoValidToolCall
         | Some line \<Rightarrow> (case split_tool_call line of (name, params) \<Rightarrow> ToolCall name params))
      else if py_in FINAL_ANSWER_MARK text then
        (case find_answer_line text of
           None \<Rightarrow> FinalNoLine
         | Some line \<Rightarrow> FinalAnswer (py_strip (py_replace FINAL_ANSWER_MARK [] line)))
      else InvalidFormat)"

text \<open>The protocol line a well-behaved model emits for a tool call, and the fields
  it may carry: non-empty, stripped, free of pipes, newlines and the marker.\<close>

definition render_tool_call :: "pystr \<Rightarrow> pystr list \<Rightarrow> pystr" where
  "render_tool_call name params = TOOL_CALL_MARK @ '' '' @ py_join '' | '' (name # params)"

definition wf_field :: "pystr \<Rightarrow> bool" where
  "wf_field p \<longleftrightarrow> p \<noteq> [] \<and> stripped p \<and> PIPE \<notin> set p \<and> NL \<notin> set p \<and> \<not> py_in TOOL_CALL_MARK p"

subsection \<open>Facts about the markers\<close>

lemma marks_nonempty [simp]: "TOOL_CALL_MARK \<noteq> []" "FINAL_ANSWER_MARK \<noteq> []"
  by (simp_all add: TOOL_CALL_MARK_def FINAL_ANSWER_MARK_def)

lemma NL_notin_marks [simp]: "NL \<notin> set TOOL_CALL_MARK" "NL \<notin> set FINAL_ANSWER_MARK"
  by (simp_all add: TOOL_CALL_MARK_def FINAL_ANSWER_MARK_def)

lemma sep_disjoint_marks [simp]:
  "set [NL] \<inter> set TOOL_CALL_MARK = {}" "set [NL] \<inter> set FINAL_ANSWER_MARK = {}"
  "set '' | '' \<inter> set TOOL_CALL_MARK = {}"
  by (simp_all add: TOOL_CALL_MARK_def FINAL_ANSWER_MARK_def)

lemma TOOL_CALL_MARK_stripped [simp]:
  "TOOL_CALL_MARK \<noteq> [] \<and> \<not> py_isspace (hd TOOL_CALL_MARK)"
  by (simp add: TOOL_CALL_MARK_def py_isspace_def)

lemma space_isspace [simp]: "py_isspace CHR '' ''"
  by (simp add: py_isspace_def)

lemmas parser_defs = parse_response_def find_tool_call_line_def split_tool_call_def
  tool_call_parts_def find_answer_line_def

lemmas parser_eval = parser_defs TOOL_CALL_MARK_def FINAL_ANSWER_MARK_def EVALUATE_TOOL_def
  wf_field_def stripped_def py_isspace_def py_startswith_def py_strip_def py_lstrip_def
  py_rstrip_def py_replace_def before_first_def after_first_def py_split_def

subsection \<open>Which line is taken\<close>

lemma parse_tool_branch:
  "py_in TOOL_CALL_MARK text \<Longrightarrow> find_tool_call_line text = Some line \<Longrightarrow>
   parse_response text = (case split_tool_call line of (name, params) \<Rightarrow> ToolCall name params)"
  by (simp add: parse_response_def)

lemma find_tool_call_line_join:
  assumes "\<forall>x\<in>set pre. \<not> py_startswith (py_strip x) TOOL_CALL_MARK"
    and "py_startswith (py_strip l) TOOL_CALL_MARK"
    and "\<forall>x\<in>set (pre @ l # post). NL \<notin> set x"
  shows "find_tool_call_line (py_join [NL] (pre @ l # post)) = Some (py_strip l)"
proof -
  have "py_split NL (py_join [NL] (pre @ l # post)) = pre @ l # post"
    using assms(3) by (simp add: py_split_py_join)
  moreover have "find (\<lambda>x. py_startswith (py_strip x) TOOL_CALL_MARK) pre = None"
    using assms(1) by (simp add: find_None_iff)
  ultimately show ?thesis
    using assms(2) by (simp add: find_tool_call_line_def find_append)
qed

lemma py_in_join_lines:
  "m \<noteq> [] \<Longrightarrow> NL \<notin> set m \<Longrightarrow> py_in m (py_join [NL] xs) \<longleftrightarrow> (\<exists>x\<in>set xs. py_in m x)"
  by (rule py_in_join) auto

subsection \<open>Facts about the rendered tool-call line\<close>

lemma wf_fields_join:
  assumes "\<forall>q\<in>set qs. wf_field q" "qs \<noteq> []"
  shows "stripped (py_join '' | '' qs)" "py_join '' | '' qs \<noteq> []"
    "NL \<notin> set (py_join '' | '' qs)" "\<not> py_in TOOL_CALL_MARK (py_join '' | '' qs)"
proof -
  show "stripped (py_join '' | '' qs)"
    using assms by (intro stripped_py_join) (auto simp: wf_field_def)
  show "py_join '' | '' qs \<noteq> []"
    using assms by (intro py_join_nonempty) (auto simp: wf_field_def neq_Nil_conv)
  show "NL \<notin> set (py_join '' | '' qs)"
    using assms set_py_join [of "'' | ''" qs] by (auto simp: wf_field_def)
  have "py_in TOOL_CALL_MARK (py_join '' | '' qs) \<longleftrightarrow> (\<exists>x\<in>set qs. py_in TOOL_CALL_MARK x)"
    by (rule py_in_join) (simp_all add: TOOL_CALL_MARK_def)
  with assms show "\<not> py_in TOOL_CALL_MARK (py_join '' | '' qs)"
    by (auto simp: wf_field_def)
qed

lemma py_in_space_prefix: "m \<noteq> [] \<Longrightarrow> CHR '' '' \<notin> set m \<Longrightarrow> py_in m ('' '' @ s) \<longleftrightarrow> py_in m s"
  using py_in_append_sep [of "'' ''" m "[]" s] by auto

lemma space_notin_TOOL_CALL_MARK [simp]: "CHR '' '' \<notin> set TOOL_CALL_MARK"
  by (simp add: TOOL_CALL_MARK_def)

lemma tool_line_facts:
  assumes "stripped body" "body \<noteq> []" "NL \<notin> set body" "\<not> py_in TOOL_CALL_MARK body"
  defines "L \<equiv> TOOL_CALL_MARK @ '' '' @ body"
  shows "parse_response L = (case tool_call_parts body of (n, ps) \<Rightarrow> ToolCall n ps)"
proof -
  have "NL \<notin> set L" using assms(3) by (simp add: L_def TOOL_CALL_MARK_def)
  moreover have "stripped L"
    using assms(1,2) by (auto simp: L_def stripped_def TOOL_CALL_MARK_def py_isspace_def)
  ultimately have "find_tool_call_line L = Some L"
    by (simp add: find_tool_call_line_def py_split_no_sep py_strip_stripped py_startswith_def L_def)
  moreover have "py_in TOOL_CALL_MARK L" using py_in_self [of TOOL_CALL_MARK "[]"] by (simp add: L_def)
  moreover have "\<not> py_in TOOL_CALL_MARK ('' '' @ body)"
    using assms(4) by (subst py_in_space_prefix) simp_all
  then have "py_replace TOOL_CALL_MARK [] L = '' '' @ body"
    by (simp add: py_replace_prefix L_def)
  then have "split_tool_call L = tool_call_parts body"
    using assms(1) py_strip_ws_left [of "'' ''" body] by (simp add: split_tool_call_def py_strip_stripped)
  ultimately show ?thesis using parse_tool_branch by metis
qed

lemma tool_call_parts_no_pipe [simp]: "PIPE \<notin> set s \<Longrightarrow> tool_call_parts s = (s, [])"
  by (simp add: tool_call_parts_def)

lemma tool_call_parts_pipe:
  assumes "PIPE \<notin> set name" "stripped name" "stripped rest"
  shows "tool_call_parts (name @ '' | '' @ rest) =
    (if name = EVALUATE_TOOL then (name, [rest]) else (name, map py_strip (py_split PIPE rest)))"
proof -
  have eq: "name @ '' | '' @ rest = (name @ '' '') @ PIPE # ('' '' @ rest)" by simp
  have "py_strip (name @ '' '') = name"
    using assms(2) py_strip_ws_right [of "'' ''" name] by (simp add: py_strip_stripped)
  moreover have "py_strip ('' '' @ rest) = rest"
    using assms(3) py_strip_ws_left [of "'' ''" rest] by (simp add: py_strip_stripped)
  moreover have "PIPE \<notin> set (name @ '' '')" using assms(1) by simp
  ultimately show ?thesis
    unfolding eq tool_call_parts_def
    using before_first_sep [of PIPE "name @ '' ''" "'' '' @ rest"]
      after_first_sep [of PIPE "name @ '' ''" "'' '' @ rest"]
    by (simp add: Let_def)
qed

lemma parse_final_line:
  assumes lines: "\<forall>x\<in>set (pre_lines @ l # post). \<not> py_in TOOL_CALL_MARK x \<and> NL \<notin> set x"
    and first: "\<forall>x\<in>set pre_lines. \<not> py_in FINAL_ANSWER_MARK x"
    and l: "l = pre @ FINAL_ANSWER_MARK @ ans" "hd FINAL_ANSWER_MARK \<notin> set pre"
    and ans: "\<not> py_in FINAL_ANSWER_MARK ans"
  shows "parse_response (py_join [NL] (pre_lines @ l # post)) = FinalAnswer (py_strip (pre @ ans))"
proof -
  let ?t = "py_join [NL] (pre_lines @ l # post)"
  have "\<not> py_in TOOL_CALL_MARK ?t" using lines by (simp add: py_in_join_lines)
  moreover have "py_in FINAL_ANSWER_MARK ?t"
    using l(1) py_in_self [of FINAL_ANSWER_MARK pre ans] by (auto simp: py_in_join_lines)
  moreover have "find_answer_line ?t = Some l"
  proof -
    have "py_split NL ?t = pre_lines @ l # post" using lines by (simp add: py_split_py_join)
    moreover have "find (py_in FINAL_ANSWER_MARK) pre_lines = None"
      using first by (simp add: find_None_iff)
    ultimately show ?thesis
      using l(1) py_in_self [of FINAL_ANSWER_MARK pre ans] by (simp add: find_answer_line_def find_append)
  qed
  moreover have "py_replace FINAL_ANSWER_MARK [] l = pre @ ans"
    using l ans by (simp add: py_replace_def replace_ne_no_start replace_ne_prefix replace_ne_no_occ)
  ultimately show ?thesis by (simp add: parse_response_def)
qed

lemma hd_FINAL_ANSWER_MARK: "hd FINAL_ANSWER_MARK = CHR ''F''"
  by (simp add: FINAL_ANSWER_MARK_def)

lemma TOOL_CALL_MARK_not_in_final_mark:
  "py_in TOOL_CALL_MARK (FINAL_ANSWER_MARK @ s) \<longleftrightarrow> py_in TOOL_CALL_MARK s"
  by (rule py_in_no_start) (simp_all add: TOOL_CALL_MARK_def FINAL_ANSWER_MARK_def)

subsection \<open>Properties of the parser\<close>

text \<open>C4. A tool call rendered in the protocol's own format, with well-formed fields,
  parses back to the same tool name and the same positional values (the
  script-evaluation tool taking at most one value).\<close>

theorem parse_tool_call_roundtrip:
  assumes "wf_field name" "\<forall>p\<in>set params. wf_field p"
    and "name = EVALUATE_TOOL \<Longrightarrow> length params \<le> 1"
  shows "parse_response (render_tool_call name params) = ToolCall name params"
proof -
  have fs: "\<forall>q\<in>set (name # params). wf_field q" using assms(1,2) by simp
  note body = wf_fields_join [OF fs]
  have "parse_response (render_tool_call name params)
      = (case tool_call_parts (py_join '' | '' (name # params)) of (n, ps) \<Rightarrow> ToolCall n ps)"
    unfolding render_tool_call_def using body by (intro tool_line_facts) simp_all
  also have "tool_call_parts (py_join '' | '' (name # params)) = (name, params)"
  proof (cases params)
    case Nil
    with assms(1) show ?thesis by (simp add: wf_field_def)
  next
    case (Cons p ps)
    note J = wf_fields_join [of params]
    have strip_params: "map py_strip params = params"
      using assms(2) by (simp add: map_idI wf_field_def py_strip_stripped)
    have "tool_call_parts (name @ '' | '' @ py_join '' | '' params) =
        (if name = EVALUATE_TOOL then (name, [py_join '' | '' params])
         else (name, map py_strip (py_split PIPE (py_join '' | '' params))))"
      using assms(1,2) Cons J by (intro tool_call_parts_pipe) (auto simp: wf_field_def)
    moreover have "map py_strip (py_split PIPE ([] @ py_join ('' '' @ PIPE # '' '') params)) = params"
      using assms(2) Cons strip_params py_split_strip_join [of params PIPE "[]" "'' ''"]
      by (auto simp: wf_field_def)
    moreover have "name = EVALUATE_TOOL \<Longrightarrow> params = [p]" using assms(3) Cons by simp
    ultimately show ?thesis using Cons by auto
  qed
  finally show ?thesis by simp
qed

text \<open>C30. For the script-evaluation tool everything after the first pipe is one
  positional value, pipes inside it included (\<open>a || b\<close> in a script survives).\<close>

theorem parse_evaluate_keeps_pipes:
  assumes "s \<noteq> []" "stripped s" "NL \<notin> set s" "\<not> py_in TOOL_CALL_MARK s"
  shows "parse_response (TOOL_CALL_MARK @ '' '' @ EVALUATE_TOOL @ '' | '' @ s) = ToolCall EVALUATE_TOOL [s]"
proof -
  let ?body = "EVALUATE_TOOL @ '' | '' @ s"
  have "py_in TOOL_CALL_MARK ((EVALUATE_TOOL @ '' | '') @ s) \<longleftrightarrow> py_in TOOL_CALL_MARK s"
    by (rule py_in_no_start) (simp_all add: TOOL_CALL_MARK_def EVALUATE_TOOL_def)
  then have "\<not> py_in TOOL_CALL_MARK ?body"
    using assms(4) by (simp only: append.assoc simp_thms)
  moreover have "stripped ?body"
    using assms(1,2) by (auto simp: stripped_def EVALUATE_TOOL_def py_isspace_def)
  moreover have "NL \<notin> set ?body" using assms(3) by (simp add: EVALUATE_TOOL_def)
  ultimately have "parse_response (TOOL_CALL_MARK @ '' '' @ ?body) =
      (case tool_call_parts ?body of (n, ps) \<Rightarrow> ToolCall n ps)"
    by (intro tool_line_facts) (simp_all add: EVALUATE_TOOL_def)
  moreover have "tool_call_parts ?body = (EVALUATE_TOOL, [s])"
    using assms(2) by (subst tool_call_parts_pipe)
      (simp_all add: EVALUATE_TOOL_def stripped_def py_isspace_def)
  ultimately show ?thesis by simp
qed

text \<open>A reply whose first line carrying the final-answer marker starts with it
  yields exactly the stripped text after the marker, whatever lines come before or
  after it, as long as no line holds the tool-call marker.\<close>

theorem parse_final_answer_line:
  assumes "\<forall>x\<in>set (pre_lines @ post). \<not> py_in TOOL_CALL_MARK x \<and> NL \<notin> set x"
    and "\<forall>x\<in>set pre_lines. \<not> py_in FINAL_ANSWER_MARK x"
    and "\<not> py_in TOOL_CALL_MARK ans" "NL \<notin> set ans" "\<not> py_in FINAL_ANSWER_MARK ans"
  shows "parse_response (py_join [NL] (pre_lines @ (FINAL_ANSWER_MARK @ ans) # post))
    = FinalAnswer (py_strip ans)"
proof -
  have "\<not> py_in TOOL_CALL_MARK (FINAL_ANSWER_MARK @ ans)"
    using assms(3) by (simp add: TOOL_CALL_MARK_not_in_final_mark)
  with assms show ?thesis
    using parse_final_line [where pre = "[]"] by simp
qed

text \<open>C23. The answer line keeps what stands before the marker: the source removes the
  marker from the line (\<open>replace\<close>) instead of taking the text after it, so
  \<open>Price: FINAL_ANSWER: 42\<close> answers \<open>Price:  42\<close>.\<close>

theorem parse_final_keeps_prefix:
  assumes "\<forall>x\<in>set (pre_lines @ post). \<not> py_in TOOL_CALL_MARK x \<and> NL \<notin> set x"
    and "\<forall>x\<in>set pre_lines. \<not> py_in FINAL_ANSWER_MARK x"
    and "\<not> py_in TOOL_CALL_MARK (pre @ FINAL_ANSWER_MARK @ ans)" "NL \<notin> set (pre @ ans)"
    and "CHR ''F'' \<notin> set pre" "\<not> py_in FINAL_ANSWER_MARK ans"
  shows "parse_response (py_join [NL] (pre_lines @ (pre @ FINAL_ANSWER_MARK @ ans) # post))
    = FinalAnswer (py_strip (pre @ ans))"
  using assms parse_final_line [of pre_lines "pre @ FINAL_ANSWER_MARK @ ans" post pre ans]
  by (simp add: hd_FINAL_ANSWER_MARK FINAL_ANSWER_MARK_def)

text \<open>C22. The tool-call marker is checked first: a reply that contains it anywhere is
  a tool call or an invalid tool call, never a final answer, even when a final-answer
  line comes first.\<close>

theorem parse_tool_marker_first:
  assumes "py_in TOOL_CALL_MARK text"
  shows "(\<exists>name params. parse_response text = ToolCall name params) \<or> parse_response text = NoValidToolCall"
  using assms by (auto simp: parse_response_def split: option.split prod.split)

text \<open>Only the first line that starts with the tool-call marker counts: the lines
  after it are ignored, and the lines before it are skipped.\<close>

theorem parse_first_tool_line:
  assumes "\<forall>x\<in>set pre. \<not> py_startswith (py_strip x) TOOL_CALL_MARK"
    and "py_startswith (py_strip l) TOOL_CALL_MARK"
    and "\<forall>x\<in>set (pre @ l # post). NL \<notin> set x"
  shows "parse_response (py_join [NL] (pre @ l # post))
    = (case split_tool_call (py_strip l) of (name, params) \<Rightarrow> ToolCall name params)"
proof -
  have "py_in TOOL_CALL_MARK l" using assms(2) by (auto dest: py_startswith_in py_in_py_strip)
  then have "py_in TOOL_CALL_MARK (py_join [NL] (pre @ l # post))"
    by (auto simp: py_in_join_lines)
  from this find_tool_call_line_join [OF assms] show ?thesis by (rule parse_tool_branch)
qed

text \<open>C34. The branch of line 221 where the final-answer marker occurs but no line
  holds it never runs: the marker has no newline, so some line of the split holds it.\<close>

theorem parse_never_final_without_line: "parse_response text \<noteq> FinalNoLine"
proof
  assume eq: "parse_response text = FinalNoLine"
  then have fin: "py_in FINAL_ANSWER_MARK text" and none: "find_answer_line text = None"
    by (auto simp: parse_response_def split: if_splits option.splits prod.splits)
  have "\<exists>p\<in>set (py_split NL text). py_in FINAL_ANSWER_MARK p"
    using fin by (intro py_split_in) simp_all
  with none show False by (auto simp: find_answer_line_def find_None_iff)
qed

subsection \<open>Witnesses\<close>

theorem parse_tool_call_roundtrip_witness:
  "render_tool_call ''playwright_fill'' [''#q'', ''hello''] = ''TOOL_CALL: playwright_fill | #q | hello''
   \<and> parse_response (render_tool_call ''playwright_fill'' [''#q'', ''hello''])
     = ToolCall ''playwright_fill'' [''#q'', ''hello'']"
proof -
  have h1: "wf_field ''playwright_fill''" by (simp add: parser_eval)
  have h2: "\<forall>p\<in>set [''#q'', ''hello'']. wf_field p" by (simp add: parser_eval)
  have h3: "''playwright_fill'' = EVALUATE_TOOL \<Longrightarrow> length [''#q'', ''hello''] \<le> 1"
    by (simp add: EVALUATE_TOOL_def)
  show ?thesis
    using parse_tool_call_roundtrip [OF h1 h2 h3] by (simp add: render_tool_call_def TOOL_CALL_MARK_def)
qed

text \<open>The script of the specification's example,
  \<open>document.querySelector('a')||document.querySelector('b')\<close>.\<close>

theorem parse_evaluate_keeps_pipes_witness:
  "parse_response (TOOL_CALL_MARK @ '' '' @ EVALUATE_TOOL @ '' | '' @
      ''document.querySelector('' @ [CHR 0x27, CHR ''a'', CHR 0x27] @ '')||document.querySelector(''
      @ [CHR 0x27, CHR ''b'', CHR 0x27] @ '')'')
   = ToolCall EVALUATE_TOOL [''document.querySelector('' @ [CHR 0x27, CHR ''a'', CHR 0x27] @
      '')||document.querySelector('' @ [CHR 0x27, CHR ''b'', CHR 0x27] @ '')'']"
proof -
  let ?s = "''document.querySelector('' @ [CHR 0x27, CHR ''a'', CHR 0x27] @ '')||document.querySelector(''
      @ [CHR 0x27, CHR ''b'', CHR 0x27] @ '')''"
  have "?s \<noteq> []" "stripped ?s" "NL \<notin> set ?s" "\<not> py_in TOOL_CALL_MARK ?s"
    by (simp_all add: parser_eval)
  then show ?thesis by (rule parse_evaluate_keeps_pipes)
qed

theorem parse_final_answer_line_witness:
  "parse_response (py_join [NL] ([''Looking at the page.''] @ (FINAL_ANSWER_MARK @ '' $42.99 '') # [''Done.'']))
   = FinalAnswer ''$42.99''"
proof -
  have "\<forall>x\<in>set ([''Looking at the page.''] @ [''Done.'']). \<not> py_in TOOL_CALL_MARK x \<and> NL \<notin> set x"
    "\<forall>x\<in>set [''Looking at the page.'']. \<not> py_in FINAL_ANSWER_MARK x"
    "\<not> py_in TOOL_CALL_MARK '' $42.99 ''" "NL \<notin> set '' $42.99 ''"
    "\<not> py_in FINAL_ANSWER_MARK '' $42.99 ''"
    by (simp_all add: parser_eval)
  from parse_final_answer_line [OF this] show ?thesis by (simp add: py_strip_def py_lstrip_def py_rstrip_def py_isspace_def)
qed

theorem parse_final_keeps_prefix_witness:
  "parse_response (''Price: '' @ FINAL_ANSWER_MARK @ '' 42'') = FinalAnswer ''Price:  42''"
proof -
  have "\<forall>x\<in>set ([] @ []). \<not> py_in TOOL_CALL_MARK x \<and> NL \<notin> set x"
    "\<forall>x\<in>set []. \<not> py_in FINAL_ANSWER_MARK x"
    "\<not> py_in TOOL_CALL_MARK (''Price: '' @ FINAL_ANSWER_MARK @ '' 42'')" "NL \<notin> set (''Price: '' @ '' 42'')"
    "CHR ''F'' \<notin> set ''Price: ''" "\<not> py_in FINAL_ANSWER_MARK '' 42''"
    by (simp_all add: parser_eval)
  from parse_final_keeps_prefix [OF this] show ?thesis
    by (simp add: py_strip_def py_lstrip_def py_rstrip_def py_isspace_def)
qed

theorem parse_tool_marker_first_witness:
  "parse_response (py_join [NL] [FINAL_ANSWER_MARK @ '' 42'', TOOL_CALL_MARK @ '' playwright_click | #buy''])
     \<noteq> FinalAnswer ''42''"
proof -
  have "py_in TOOL_CALL_MARK (py_join [NL] [FINAL_ANSWER_MARK @ '' 42'', TOOL_CALL_MARK @ '' playwright_click | #buy''])"
    by (simp add: parser_eval)
  from parse_tool_marker_first [OF this] show ?thesis by auto
qed

theorem parse_first_tool_line_witness:
  "parse_response (py_join [NL] ([''I will click.''] @ '' TOOL_CALL: playwright_click | #buy'' #
      [''TOOL_CALL: playwright_fill | #q | x'']))
   = ToolCall ''playwright_click'' [''#buy'']"
proof -
  have "\<forall>x\<in>set [''I will click.'']. \<not> py_startswith (py_strip x) TOOL_CALL_MARK"
    "py_startswith (py_strip '' TOOL_CALL: playwright_click | #buy'') TOOL_CALL_MARK"
    "\<forall>x\<in>set ([''I will click.''] @ '' TOOL_CALL: playwright_click | #buy'' #
      [''TOOL_CALL: playwright_fill | #q | x'']). NL \<notin> set x"
    by (simp_all add: parser_eval)
  from parse_first_tool_line [OF this] show ?thesis by (simp add: parser_eval)
qed

end
