(* ===== verification/Catalog.thy ===== *)
theory Catalog
  imports Py_Prelude
begin

text \<open>
  The tool catalog the capability provider advertises (\<open>session.list_tools()\<close> in
  \<open>run_agent\<close>, \<open>src/agent.py\<close> line 71), the digest of it that every prompt after
  the first shows (\<open>create_tool_descriptions\<close>, lines 17--30), and the lookup of a
  tool by name (line 157).  A tool's input schema keeps what the source reads of it: the
  \<open>required\<close> list and the \<open>properties\<close> mapping, in its order, with the declared
  \<open>type\<close> of each property (\<open>None\<close> when the schema gives none).  A missing
  \<open>required\<close> or \<open>properties\<close> key is the empty list, as \<open>schema.get(k, ...)\<close>
  makes it.
\<close>

record tool_schema =
  schema_required :: "pystr list"
  schema_properties :: "(pystr \<times> pystr option) list"

record mcp_tool =
  tool_name :: pystr
  input_schema :: tool_schema

text \<open>The bullet that starts each digest line, U+2022, as its UTF-8 bytes; the
  digest only travels inside prompts, so its encoding is not observed.\<close>

definition BULLET :: pystr where
  "BULLET = [CHR 0xE2, CHR 0x80, CHR 0xA2]"

text \<open>Line 25: the required parameters that are also declared properties, in the
  order of \<open>required\<close>.\<close>

definition required_params :: "mcp_tool \<Rightarrow> pystr list" where
  "required_params t =
     filter (\<lambda>p. p \<in> set (map fst (schema_properties (input_schema t))))
       (schema_required (input_schema t))"

text \<open>Lines 26--28: one digest line.\<close>

definition tool_description :: "mcp_tool \<Rightarrow> pystr" where
  "tool_description t =
     (let req = required_params t;
          params_str = (if req \<noteq> [] then py_join '', '' req else ''none'')
      in BULLET @ '' '' @ tool_name t @ ''('' @ params_str @ '')'')"

text \<open>Lines 17--30.\<close>

definition create_tool_descriptions :: "mcp_tool list \<Rightarrow> pystr" where
  "create_tool_descriptions tools = py_join ''\<newline>'' (map tool_description tools)"

text \<open>Line 157: \<open>next((t for t in tools if t.name == tool_name), None)\<close>.\<close>

definition find_tool :: "mcp_tool list \<Rightarrow> pystr \<Rightarrow> mcp_tool option" where
  "find_tool tools name = find (\<lambda>t. tool_name t = name) tools"

text \<open>How a reader of the digest recovers a tool from its line: the name before the
  first \<open>(\<close>, the parameters between it and the closing \<open>)\<close>, split at commas,
  \<open>none\<close> for no parameters.  This is the reading the prompt relies on, not code of
  the program.\<close>

definition parse_digest_line :: "pystr \<Rightarrow> (pystr \<times> pystr list) option" where
  "parse_digest_line line =
     (if take 4 line = BULLET @ '' '' \<and> line \<noteq> [] \<and> last line = CHR '')'' then
        (let body = butlast (drop 4 line);
             params = after_first CHR ''('' body
         in Some (before_first CHR ''('' body,
                  if params = ''none'' then [] else map py_strip (py_split CHR '','' params)))
      else None)"

text \<open>Tools whose digest line can be read back: no \<open>(\<close> or newline in the name,
  required parameters non-empty, stripped, without commas or newlines, and not the
  single parameter \<open>none\<close> (whose line is the one of a tool without parameters).\<close>

definition digest_wf :: "mcp_tool \<Rightarrow> bool" where
  "digest_wf t \<longleftrightarrow> CHR ''('' \<notin> set (tool_name t) \<and> CHR ''\<newline>'' \<notin> set (tool_name t)
     \<and> required_params t \<noteq> [''none'']
     \<and> (\<forall>p\<in>set (required_params t). p \<noteq> [] \<and> stripped p \<and> CHR '','' \<notin> set p \<and> CHR ''\<newline>'' \<notin> set p)"

subsection \<open>Lemmas\<close>

lemma find_tool_Some: "find_tool tools name = Some t \<Longrightarrow> t \<in> set tools \<and> tool_name t = name"
  by (auto simp: find_tool_def find_Some_iff)

lemma find_tool_None: "find_tool tools name = None \<longleftrightarrow> name \<notin> set (map tool_name tools)"
  by (auto simp: find_tool_def find_None_iff)

lemma set_required_params:
  "set (required_params t) = set (schema_required (input_schema t)) \<inter> fst ` set (schema_properties (input_schema t))"
  by (auto simp: required_params_def)

lemma parse_tool_description:
  assumes "digest_wf t"
  shows "parse_digest_line (tool_description t) = Some (tool_name t, required_params t)"
proof -
  let ?req = "required_params t"
  let ?ps = "if ?req \<noteq> [] then py_join '', '' ?req else ''none''"
  have line: "tool_description t = (BULLET @ '' '') @ (tool_name t @ CHR ''('' # ?ps) @ '')''"
    by (simp add: tool_description_def Let_def)
  have nm: "CHR ''('' \<notin> set (tool_name t)" using assms by (simp add: digest_wf_def)
  have body: "butlast (drop 4 (tool_description t)) = tool_name t @ CHR ''('' # ?ps"
    unfolding line by (simp add: BULLET_def butlast_append)
  have params: "(if ?ps = ''none'' then [] else map py_strip (py_split CHR '','' ?ps)) = ?req"
  proof (cases "?req = []")
    case False
    have w: "\<forall>p\<in>set ?req. p \<noteq> [] \<and> stripped p \<and> CHR '','' \<notin> set p" using assms by (simp add: digest_wf_def)
    then have "py_join '', '' ?req \<noteq> ''none''"
      using assms py_join_comma_none [of ?req] by (auto simp: digest_wf_def)
    with False split_join_comma [OF False w] show ?thesis by simp
  qed simp
  show ?thesis
    using params nm unfolding parse_digest_line_def body
    by (simp add: line BULLET_def before_first_sep after_first_sep)
qed

lemma newline_notin_description:
  assumes "digest_wf t"
  shows "CHR ''\<newline>'' \<notin> set (tool_description t)"
proof -
  have "\<forall>p\<in>set (required_params t). CHR ''\<newline>'' \<notin> set p" "CHR ''\<newline>'' \<notin> set (tool_name t)"
    using assms by (auto simp: digest_wf_def)
  then show ?thesis using set_py_join [of "'', ''" "required_params t"] by (auto simp: tool_description_def Let_def BULLET_def)
qed

subsection \<open>Properties of the digest\<close>

text \<open>C15. The digest is faithful: split into lines, each line reads back as the name
  and the required parameters (in the order of \<open>required\<close>) of its tool, in the
  order of the catalog.\<close>

theorem digest_roundtrip:
  assumes "tools \<noteq> []" "\<forall>t\<in>set tools. digest_wf t"
  shows "map parse_digest_line (py_split CHR ''\<newline>'' (create_tool_descriptions tools))
    = map (\<lambda>t. Some (tool_name t, required_params t)) tools"
proof -
  have "py_split CHR ''\<newline>'' (create_tool_descriptions tools) = map tool_description tools"
    unfolding create_tool_descriptions_def
    using assms newline_notin_description by (intro py_split_py_join) auto
  with assms(2) show ?thesis by (simp add: parse_tool_description)
qed

theorem digest_roundtrip_witness:
  "map parse_digest_line (py_split CHR ''\<newline>'' (create_tool_descriptions
      [\<lparr>tool_name = ''playwright_fill'', input_schema = \<lparr>schema_required = [''selector'', ''value''],
          schema_properties = [(''selector'', Some ''string''), (''value'', Some ''string'')]\<rparr>\<rparr>,
       \<lparr>tool_name = ''playwright_go_back'', input_schema = \<lparr>schema_required = [], schema_properties = []\<rparr>\<rparr>]))
   = [Some (''playwright_fill'', [''selector'', ''value'']), Some (''playwright_go_back'', [])]"
proof -
  have "\<forall>t\<in>set [\<lparr>tool_name = ''playwright_fill'', input_schema = \<lparr>schema_required = [''selector'', ''value''],
          schema_properties = [(''selector'', Some ''string''), (''value'', Some ''string'')]\<rparr>\<rparr>,
       \<lparr>tool_name = ''playwright_go_back'', input_schema = \<lparr>schema_required = [], schema_properties = []\<rparr>\<rparr>]. digest_wf t"
    by code_simp
  from digest_roundtrip [OF _ this] show ?thesis by (simp add: required_params_def)
qed

end
