(* ===== verification/Coercion.thy ===== *)
theory Coercion
  imports Catalog
begin

text \<open>
  Argument coercion in \<open>run_agent\<close> (\<open>src/agent.py\<close>, lines 163--179): the
  positional values of a tool call are bound, in order, to the properties of the tool's
  input schema and converted by the declared type with Python's \<open>int\<close>,
  \<open>float\<close>, a boolean token test, or \<open>str\<close>.  A conversion error is an exception;
  its message, \<open>str(e)\<close>, is what the loop records, so an error is the message
  string (\<open>Inl\<close>).  \<open>int\<close> and \<open>float\<close> follow Python's grammar for strings:
  surrounding whitespace, an optional sign, digits with single underscores between them,
  and for \<open>float\<close> a fraction, an exponent, \<open>inf\<close>, \<open>infinity\<close> and \<open>nan\<close> in
  any case.  A float is kept as the exact decimal \<open>m * 10 ^ e\<close> it denotes; its
  rounding to binary64 is not observed by the loop.
\<close>

datatype pyfloat = PFinite int int | PInf bool | PNaN

datatype pyval = PyInt int | PyFloat pyfloat | PyBool bool | PyStr pystr

subsection \<open>Python's \<open>int\<close> and \<open>float\<close> on strings\<close>

definition is_digit :: "char \<Rightarrow> bool" where
  "is_digit c \<longleftrightarrow> 48 \<le> (of_char c :: nat) \<and> (of_char c :: nat) \<le> 57"

definition digit_value :: "char \<Rightarrow> nat" where
  "digit_value c = of_char c - 48"

text \<open>Python's \<open>digitpart\<close>: digits, single underscores only between digits.\<close>

definition digitpart :: "pystr \<Rightarrow> bool" where
  "digitpart s \<longleftrightarrow> s \<noteq> [] \<and> is_digit (hd s) \<and> is_digit (last s)
     \<and> (\<forall>c\<in>set s. is_digit c \<or> c = CHR ''_'') \<and> \<not> py_in ''__'' s"

definition digits_value :: "pystr \<Rightarrow> nat" where
  "digits_value s = foldl (\<lambda>acc c. 10 * acc + digit_value c) 0 (filter is_digit s)"

definition split_sign :: "pystr \<Rightarrow> bool \<times> pystr" where
  "split_sign s =
     (case s of
        [] \<Rightarrow> (False, [])
      | c # r \<Rightarrow> if c = CHR ''-'' then (True, r) else if c = CHR ''+'' then (False, r) else (False, s))"

definition signed :: "bool \<Rightarrow> nat \<Rightarrow> int" where
  "signed neg n = (if neg then - int n else int n)"

text \<open>\<open>int(s)\<close> in base 10.\<close>

definition py_int_parse :: "pystr \<Rightarrow> int option" where
  "py_int_parse s =
     (case split_sign (py_strip s) of
        (neg, body) \<Rightarrow> if digitpart body then Some (signed neg (digits_value body)) else None)"

text \<open>An unsigned decimal literal: \<open>digits[.digits]\<close>, \<open>digits.\<close> or \<open>.digits\<close>,
  then an optional exponent; its value as digits and a power of ten.\<close>

definition parse_decimal :: "pystr \<Rightarrow> (nat \<times> int) option" where
  "parse_decimal body =
     (let not_e = (\<lambda>c. c \<noteq> CHR ''e'' \<and> c \<noteq> CHR ''E'');
          mant = takeWhile not_e body;
          rest = dropWhile not_e body;
          ip = takeWhile (\<lambda>c. c \<noteq> CHR ''.'') mant;
          dot = dropWhile (\<lambda>c. c \<noteq> CHR ''.'') mant;
          fp = drop 1 dot;
          mant_ok = (if dot = [] then digitpart ip
                     else (digitpart ip \<and> (fp = [] \<or> digitpart fp)) \<or> (ip = [] \<and> digitpart fp));
          ex = (if rest = [] then Some 0
                else (case split_sign (drop 1 rest) of
                        (neg, ds) \<Rightarrow> if digitpart ds then Some (signed neg (digits_value ds)) else None))
      in if mant_ok
         then map_option (\<lambda>e. (digits_value (ip @ fp), e - int (length (filter is_digit fp)))) ex
         else None)"

definition float_special :: "pystr \<Rightarrow> pyfloat option" where
  "float_special body =
     (let l = py_lower body
      in if l = ''inf'' \<or> l = ''infinity'' then Some (PInf False)
         else if l = ''nan'' then Some PNaN else None)"

text \<open>\<open>float(s)\<close>.\<close>

definition py_float_parse :: "pystr \<Rightarrow> pyfloat option" where
  "py_float_parse s =
     (case split_sign (py_strip s) of
        (neg, body) \<Rightarrow>
          (case float_special body of
             Some (PInf _) \<Rightarrow> Some (PInf neg)
           | Some x \<Rightarrow> Some x
           | None \<Rightarrow> map_option (\<lambda>(m, e). PFinite (signed neg m) e) (parse_decimal body)))"

subsection \<open>\<open>repr\<close> of a string, for the messages of \<open>ValueError\<close>\<close>

definition hex_digit :: "nat \<Rightarrow> char" where
  "hex_digit n = (if n < 10 then char_of (48 + n) else char_of (87 + n))"

text \<open>One character inside quotes \<open>q\<close>: the quote and the backslash escaped,
  \<open>\n \t \r\<close> by name, the other non-printable code points of 0..255 (controls,
  0x7F..0xA0, the soft hyphen 0xAD) as \<open>\xNN\<close>.\<close>

definition repr_char :: "char \<Rightarrow> char \<Rightarrow> pystr" where
  "repr_char q c =
     (let n = (of_char c :: nat)
      in if c = q \<or> n = 92 then [CHR 0x5C, c]
         else if n = 10 then [CHR 0x5C, CHR ''n'']
         else if n = 9 then [CHR 0x5C, CHR ''t'']
         else if n = 13 then [CHR 0x5C, CHR ''r'']
         else if n < 32 \<or> (127 \<le> n \<and> n \<le> 160) \<or> n = 173
           then [CHR 0x5C, CHR ''x'', hex_digit (n div 16), hex_digit (n mod 16)]
         else [c])"

definition py_repr :: "pystr \<Rightarrow> pystr" where
  "py_repr s =
     (let q = (if CHR 0x27 \<in> set s \<and> CHR 0x22 \<notin> set s then CHR 0x22 else CHR 0x27)
      in q # concat (map (repr_char q) s) @ [q])"

subsection \<open>Coercing one value and a whole call\<close>

definition BOOL_TRUE_TOKENS :: "pystr list" where
  "BOOL_TRUE_TOKENS = [''true'', ''1'', ''yes'']"

text \<open>Lines 169--179, one property: the declared type, \<open>string\<close> when absent.\<close>

definition coerce_value :: "pystr option \<Rightarrow> pystr \<Rightarrow> pystr + pyval" where
  "coerce_value ty v =
     (let ptype = (case ty of None \<Rightarrow> ''string'' | Some t \<Rightarrow> t)
      in if ptype = ''integer'' then
           (case py_int_parse v of
              Some n \<Rightarrow> Inr (PyInt n)
            | None \<Rightarrow> Inl (''invalid literal for int() with base 10: '' @ py_repr v))
         else if ptype = ''number'' then
           (case py_float_parse v of
              Some x \<Rightarrow> Inr (PyFloat x)
            | None \<Rightarrow> Inl (''could not convert string to float: '' @ py_repr v))
         else if ptype = ''boolean'' then Inr (PyBool (py_lower v \<in> set BOOL_TRUE_TOKENS))
         else Inr (PyStr v))"

text \<open>Lines 164--179: the \<open>idx\<close>-th property takes the \<open>idx\<close>-th positional value
  while there is one; the first failing conversion raises.\<close>

fun coerce_args :: "(pystr \<times> pystr option) list \<Rightarrow> pystr list \<Rightarrow> pystr + (pystr \<times> pyval) list" where
  "coerce_args [] vs = Inr []"
| "coerce_args ps [] = Inr []"
| "coerce_args ((n, ty) # ps) (v # vs) =
     (case coerce_value ty v of
        Inl e \<Rightarrow> Inl e
      | Inr x \<Rightarrow> (case coerce_args ps vs of Inl e \<Rightarrow> Inl e | Inr args \<Rightarrow> Inr ((n, x) # args)))"

text \<open>The specification's reading of a failing call: the error of the first bound
  value that does not convert.\<close>

fun first_coercion_error :: "((pystr \<times> pystr option) \<times> pystr) list \<Rightarrow> pystr option" where
  "first_coercion_error [] = None"
| "first_coercion_error (((n, ty), v) # zs) =
     (case coerce_value ty v of Inl e \<Rightarrow> Some e | Inr _ \<Rightarrow> first_coercion_error zs)"

subsection \<open>Python's \<open>str\<close> of an integer\<close>

fun nat_digits :: "nat \<Rightarrow> pystr" where
  "nat_digits n = (if n < 10 then [char_of (48 + n)] else nat_digits (n div 10) @ [char_of (48 + n mod 10)])"

definition py_str_int :: "int \<Rightarrow> pystr" where
  "py_str_int i = (if i < 0 then CHR ''-'' # nat_digits (nat (- i)) else nat_digits (nat i))"

subsection \<open>Python types of coerced values\<close>

text \<open>\<open>type(x).__name__\<close> of a coerced value, and the Python type a declared JSON
  schema type calls for (\<open>string\<close> when absent, as line 170 reads it).\<close>

fun pyval_type :: "pyval \<Rightarrow> pystr" where
  "pyval_type (PyInt _) = ''int''"
| "pyval_type (PyFloat _) = ''float''"
| "pyval_type (PyBool _) = ''bool''"
| "pyval_type (PyStr _) = ''str''"

definition schema_pytype :: "pystr option \<Rightarrow> pystr" where
  "schema_pytype ty =
     (let ptype = (case ty of None \<Rightarrow> ''string'' | Some t \<Rightarrow> t)
      in if ptype = ''integer'' then ''int'' else if ptype = ''number'' then ''float''
         else if ptype = ''boolean'' then ''bool'' else ''str'')"

declare nat_digits.simps [simp del]

subsection \<open>Lemmas on digits\<close>

lemma digit_char [simp]: "(d::nat) < 10 \<Longrightarrow> is_digit (char_of (48 + d))"
  by (simp add: is_digit_def)

lemma digit_value_char [simp]: "(d::nat) < 10 \<Longrightarrow> digit_value (char_of (48 + d)) = d"
  by (simp add: digit_value_def)

lemma digit_not_space: "is_digit c \<Longrightarrow> \<not> py_isspace c"
  by (auto simp: is_digit_def py_isspace_def)

lemma digits_value_snoc:
  "is_digit c \<Longrightarrow> digits_value (s @ [c]) = 10 * digits_value s + digit_value c"
  by (simp add: digits_value_def)

lemma nat_digits_props:
  "nat_digits n \<noteq> [] \<and> (\<forall>c\<in>set (nat_digits n). is_digit c) \<and> digits_value (nat_digits n) = n"
proof (induction n rule: nat_digits.induct)
  case (1 n)
  show ?case
  proof (cases "n < 10")
    case True
    then show ?thesis by (simp add: nat_digits.simps digits_value_def)
  next
    case False
    with "1.IH" show ?thesis
      by (simp add: nat_digits.simps [of n] digits_value_snoc)
  qed
qed

lemma all_digits_digitpart:
  assumes "s \<noteq> []" "\<forall>c\<in>set s. is_digit c"
  shows "digitpart s"
proof -
  have "CHR ''_'' \<notin> set s" using assms(2) by (auto simp: is_digit_def)
  then have "\<not> py_in ''__'' s"
    by (auto simp: py_in_sublist dest!: set_mono_sublist)
  with assms show ?thesis by (simp add: digitpart_def)
qed

lemma all_digits_stripped: "\<forall>c\<in>set s. is_digit c \<Longrightarrow> stripped s"
  by (cases "s = []") (simp_all add: stripped_def digit_not_space)

lemma split_sign_digit: "s \<noteq> [] \<Longrightarrow> is_digit (hd s) \<Longrightarrow> split_sign s = (False, s)"
  by (cases s) (auto simp: split_sign_def is_digit_def)

lemma digitpart_has_digit: "digitpart s \<Longrightarrow> \<exists>c\<in>set s. is_digit c"
  unfolding digitpart_def using hd_in_set by blast

lemma split_sign_set: "split_sign s = (neg, body) \<Longrightarrow> set body \<subseteq> set s"
  by (auto simp: split_sign_def split: list.splits if_splits)

lemma set_py_strip: "set (py_strip s) \<subseteq> set s"
  by (rule set_mono_sublist [OF sublist_py_strip])

subsection \<open>Lemmas on whole calls\<close>

lemma coerce_args_Inr_length:
  "coerce_args ps vs = Inr args \<Longrightarrow> length args = min (length ps) (length vs)"
  by (induction ps vs arbitrary: args rule: coerce_args.induct)
    (auto split: sum.splits)

lemma coerce_args_Cons:
  "coerce_args ((n, ty) # ps) (v # vs) = Inr args \<longleftrightarrow>
     (\<exists>x rest. coerce_value ty v = Inr x \<and> coerce_args ps vs = Inr rest \<and> args = (n, x) # rest)"
  by (auto split: sum.splits)

lemma py_int_parse_str: "py_int_parse (py_str_int n) = Some n"
proof (cases "n < 0")
  case True
  let ?ds = "nat_digits (nat (- n))"
  have ds: "?ds \<noteq> []" "\<forall>c\<in>set ?ds. is_digit c" "digits_value ?ds = nat (- n)"
    using nat_digits_props by blast+
  then have "\<not> py_isspace (last ?ds)" by (simp add: digit_not_space)
  then have "stripped (CHR ''-'' # ?ds)"
    using ds(1) by (simp add: stripped_def py_isspace_def)
  then show ?thesis
    using True ds all_digits_digitpart [OF ds(1,2)]
    by (simp add: py_str_int_def py_int_parse_def py_strip_stripped split_sign_def signed_def)
next
  case False
  let ?ds = "nat_digits (nat n)"
  have ds: "?ds \<noteq> []" "\<forall>c\<in>set ?ds. is_digit c" "digits_value ?ds = nat n"
    using nat_digits_props by blast+
  then have "split_sign ?ds = (False, ?ds)" by (intro split_sign_digit) simp_all
  with False ds show ?thesis
    using all_digits_digitpart [OF ds(1,2)] all_digits_stripped [OF ds(2)]
    by (simp add: py_str_int_def py_int_parse_def py_strip_stripped signed_def)
qed

subsection \<open>Properties of coercion\<close>

lemma coerce_value_type: "coerce_value ty v = Inr x \<Longrightarrow> pyval_type x = schema_pytype ty"
  by (auto simp: coerce_value_def schema_pytype_def Let_def split: option.splits if_splits)

text \<open>An integer-typed parameter given the decimal text of any integer (as
  Python's \<open>str\<close> prints it) receives exactly that integer.\<close>

theorem coerce_int_roundtrip: "coerce_value (Some ''integer'') (py_str_int n) = Inr (PyInt n)"
  by (simp add: coerce_value_def py_int_parse_str)

text \<open>An integer-typed parameter given text without a digit raises
  \<open>ValueError\<close> with Python's message, whose text the loop then records.\<close>

theorem coerce_int_rejects:
  assumes "\<forall>c\<in>set v. \<not> is_digit c"
  shows "coerce_value (Some ''integer'') v = Inl (''invalid literal for int() with base 10: '' @ py_repr v)"
proof -
  obtain neg body where sb: "split_sign (py_strip v) = (neg, body)" by fastforce
  have "set body \<subseteq> set v" using split_sign_set [OF sb] set_py_strip by blast
  with assms have "\<not> digitpart body" using digitpart_has_digit by blast
  then have "py_int_parse v = None" by (simp add: py_int_parse_def sb)
  then show ?thesis by (simp add: coerce_value_def)
qed

theorem coerce_int_rejects_witness:
  "coerce_value (Some ''integer'') ''abc'' = Inl (''invalid literal for int() with base 10: '' @ py_repr ''abc'')"
proof (rule coerce_int_rejects)
  show "\<forall>c\<in>set ''abc''. \<not> is_digit c" by code_simp
qed

text \<open>A value for a parameter of any type but integer, number or boolean is passed
  on as the string itself.\<close>

lemma coerce_value_text:
  "ty \<notin> {Some ''integer'', Some ''number'', Some ''boolean''} \<Longrightarrow> coerce_value ty v = Inr (PyStr v)"
  by (cases ty) (auto simp: coerce_value_def)

lemma coerce_args_text:
  "list_all (\<lambda>(n, ty). ty \<notin> {Some ''integer'', Some ''number'', Some ''boolean''}) ps \<Longrightarrow>
   coerce_args ps vs = Inr (zip (map fst ps) (map PyStr vs))"
  by (induction ps vs rule: coerce_args.induct) (auto simp: coerce_value_text)

text \<open>C24. Binding is positional over the schema's property order: a successful
  coercion pairs the first \<open>min\<close> properties with the first values (\<open>zip\<close>), each
  value converted by its property's declared type; values beyond the properties are
  ignored and properties beyond the values are left out.\<close>

theorem coerce_args_binding:
  "coerce_args ps vs = Inr args \<longleftrightarrow>
     list_all2 (\<lambda>((n, ty), v) (n', x). n' = n \<and> coerce_value ty v = Inr x) (zip ps vs) args"
proof (induction ps vs arbitrary: args rule: coerce_args.induct)
  case (3 n ty ps v vs)
  show ?case
  proof (cases "coerce_value ty v")
    case (Inl e)
    then show ?thesis by (auto simp: list_all2_Cons1)
  next
    case (Inr x)
    show ?thesis
    proof (cases "coerce_args ps vs")
      case (Inl e)
      then have "\<not> list_all2 (\<lambda>((a, b), c) (a', d). a' = a \<and> coerce_value b c = Inr d) (zip ps vs) zs"
        for zs using "3.IH" [OF \<open>coerce_value ty v = Inr x\<close>, of zs] by simp
      with Inr Inl show ?thesis by (auto simp: list_all2_Cons1)
    next
      case (Inr rest)
      then have "list_all2 (\<lambda>((a, b), c) (a', d). a' = a \<and> coerce_value b c = Inr d) (zip ps vs) zs
          \<longleftrightarrow> zs = rest" for zs
        using "3.IH" [OF \<open>coerce_value ty v = Inr x\<close>, of zs] by auto
      with Inr \<open>coerce_value ty v = Inr x\<close> show ?thesis by (auto simp: list_all2_Cons1)
    qed
  qed
qed auto

lemma first_coercion_error_Some:
  "first_coercion_error zs = Some e \<longleftrightarrow>
     (\<exists>pre n ty v post. zs = pre @ ((n, ty), v) # post \<and> coerce_value ty v = Inl e
        \<and> (\<forall>((n', ty'), v')\<in>set pre. \<exists>x. coerce_value ty' v' = Inr x))"
proof (induction zs rule: first_coercion_error.induct)
  case (2 n ty v zs)
  show ?case
  proof (cases "coerce_value ty v")
    case (Inl e')
    show ?thesis
    proof
      assume "first_coercion_error (((n, ty), v) # zs) = Some e"
      with Inl have "((n, ty), v) # zs = [] @ ((n, ty), v) # zs \<and> coerce_value ty v = Inl e" by simp
      then show "\<exists>pre n' ty' v' post. ((n, ty), v) # zs = pre @ ((n', ty'), v') # post
          \<and> coerce_value ty' v' = Inl e \<and> (\<forall>((n'', ty''), v'')\<in>set pre. \<exists>x. coerce_value ty'' v'' = Inr x)"
        by fastforce
    next
      assume "\<exists>pre n' ty' v' post. ((n, ty), v) # zs = pre @ ((n', ty'), v') # post
          \<and> coerce_value ty' v' = Inl e \<and> (\<forall>((n'', ty''), v'')\<in>set pre. \<exists>x. coerce_value ty'' v'' = Inr x)"
      then obtain pre n' ty' v' post where
        z: "((n, ty), v) # zs = pre @ ((n', ty'), v') # post" and f: "coerce_value ty' v' = Inl e"
        and ok: "\<forall>((n'', ty''), v'')\<in>set pre. \<exists>x. coerce_value ty'' v'' = Inr x" by blast
      have "pre = []"
      proof (rule ccontr)
        assume "pre \<noteq> []"
        with z have "((n, ty), v) \<in> set pre" by (cases pre) auto
        with ok Inl show False by fastforce
      qed
      with z f Inl show "first_coercion_error (((n, ty), v) # zs) = Some e" by simp
    qed
  next
    case (Inr x)
    show ?thesis
    proof
      assume "first_coercion_error (((n, ty), v) # zs) = Some e"
      with Inr "2.IH" obtain pre n' ty' v' post where
        z: "zs = pre @ ((n', ty'), v') # post" and f: "coerce_value ty' v' = Inl e"
        and ok: "\<forall>((n'', ty''), v'')\<in>set pre. \<exists>x. coerce_value ty'' v'' = Inr x" by auto
      from z have "((n, ty), v) # zs = (((n, ty), v) # pre) @ ((n', ty'), v') # post" by simp
      moreover have "\<forall>((n'', ty''), v'')\<in>set (((n, ty), v) # pre). \<exists>x. coerce_value ty'' v'' = Inr x"
        using ok Inr by simp
      ultimately show "\<exists>pre n' ty' v' post. ((n, ty), v) # zs = pre @ ((n', ty'), v') # post
          \<and> coerce_value ty' v' = Inl e \<and> (\<forall>((n'', ty''), v'')\<in>set pre. \<exists>x. coerce_value ty'' v'' = Inr x)"
        using f by blast
    next
      assume "\<exists>pre n' ty' v' post. ((n, ty), v) # zs = pre @ ((n', ty'), v') # post
          \<and> coerce_value ty' v' = Inl e \<and> (\<forall>((n'', ty''), v'')\<in>set pre. \<exists>x. coerce_value ty'' v'' = Inr x)"
      then obtain pre n' ty' v' post where
        z: "((n, ty), v) # zs = pre @ ((n', ty'), v') # post" and f: "coerce_value ty' v' = Inl e"
        and ok: "\<forall>((n'', ty''), v'')\<in>set pre. \<exists>x. coerce_value ty'' v'' = Inr x" by blast
      from z f Inr obtain qs where pre: "pre = ((n, ty), v) # qs" by (cases pre) auto
      with z have "zs = qs @ ((n', ty'), v') # post" by simp
      moreover have "\<forall>((n'', ty''), v'')\<in>set qs. \<exists>x. coerce_value ty'' v'' = Inr x"
        using ok pre by simp
      ultimately have "first_coercion_error zs = Some e" using f "2.IH" Inr by blast
      with Inr show "first_coercion_error (((n, ty), v) # zs) = Some e" by simp
    qed
  qed
qed simp

lemma coerce_args_first_coercion_error:
  "coerce_args ps vs = Inl e \<longleftrightarrow> first_coercion_error (zip ps vs) = Some e"
  by (induction ps vs rule: coerce_args.induct) (auto split: sum.splits)

text \<open>C25. A coercion fails exactly when some bound value fails to convert while all
  values before it convert, and the error is that value's error: the first failure
  raises and nothing after it is tried.\<close>

theorem coerce_args_first_error:
  "coerce_args ps vs = Inl e \<longleftrightarrow>
     (\<exists>pre n ty v post. zip ps vs = pre @ ((n, ty), v) # post \<and> coerce_value ty v = Inl e
        \<and> (\<forall>((n', ty'), v')\<in>set pre. \<exists>x. coerce_value ty' v' = Inr x))"
  by (simp add: coerce_args_first_coercion_error first_coercion_error_Some)

theorem coerce_args_first_error_witness:
  "coerce_args [(''count'', Some ''integer''), (''label'', Some ''integer'')] [''1'', ''x'']
     = Inl (''invalid literal for int() with base 10: '' @ py_repr ''x'')"
proof -
  have one: "coerce_value (Some ''integer'') ''1'' = Inr (PyInt 1)" by code_simp
  have x: "coerce_value (Some ''integer'') ''x'' = Inl (''invalid literal for int() with base 10: '' @ py_repr ''x'')"
    by code_simp
  show ?thesis
    unfolding coerce_args_first_error
  proof (intro exI conjI)
    show "zip [(''count'', Some ''integer''), (''label'', Some ''integer'')] [''1'', ''x'']
      = [((''count'', Some ''integer''), ''1'')] @ ((''label'', Some ''integer''), ''x'') # []" by simp
    show "\<forall>((n', ty'), v')\<in>set [((''count'', Some ''integer''), ''1'')]. \<exists>x. coerce_value ty' v' = Inr x"
      using one by auto
  qed (rule x)
qed

text \<open>The conversions of the specification's examples: \<open>7\<close> for an integer
  is 7, \<open>abc\<close> is rejected, \<open>TRUE\<close>, \<open>1\<close>, \<open>yes\<close> for a boolean are true and
  \<open>no\<close> is false, and \<open>2.5\<close> for a number is 25 tenths.\<close>

theorem coerce_spec_examples:
  "coerce_value (Some ''integer'') ''7'' = Inr (PyInt 7)
   \<and> isl (coerce_value (Some ''integer'') ''abc'')
   \<and> coerce_value (Some ''boolean'') ''TRUE'' = Inr (PyBool True)
   \<and> coerce_value (Some ''boolean'') ''1'' = Inr (PyBool True)
   \<and> coerce_value (Some ''boolean'') ''yes'' = Inr (PyBool True)
   \<and> coerce_value (Some ''boolean'') ''no'' = Inr (PyBool False)
   \<and> coerce_value (Some ''number'') ''2.5'' = Inr (PyFloat (PFinite 25 (-1)))"
  by code_simp

text \<open>C13. Every coerced argument has the Python type its property declares: \<open>int\<close>
  for \<open>integer\<close>, \<open>float\<close> for \<open>number\<close>, \<open>bool\<close> for \<open>boolean\<close> and \<open>str\<close>
  for any other or missing type, bound under the property's name in the property
  order.\<close>

theorem coerce_args_typed:
  assumes "coerce_args ps vs = Inr args"
  shows "list_all2 (\<lambda>(n, ty) (n', x). n' = n \<and> pyval_type x = schema_pytype ty) (take (length vs) ps) args"
  using assms
proof (induction ps vs arbitrary: args rule: coerce_args.induct)
  case (3 n ty ps v vs)
  then obtain x rest where "coerce_value ty v = Inr x" "coerce_args ps vs = Inr rest" "args = (n, x) # rest"
    by (auto split: sum.splits)
  with "3.IH" coerce_value_type show ?case by auto
qed auto

theorem coerce_args_typed_witness:
  "list_all2 (\<lambda>(n, ty) (n', x). n' = n \<and> pyval_type x = schema_pytype ty)
     (take 3 [(''count'', Some ''integer''), (''exact'', Some ''boolean''), (''label'', None)])
     [(''count'', PyInt 3), (''exact'', PyBool True), (''label'', PyStr ''x'')]"
proof -
  have "coerce_args [(''count'', Some ''integer''), (''exact'', Some ''boolean''), (''label'', None)] [''3'', ''YES'', ''x'']
      = Inr [(''count'', PyInt 3), (''exact'', PyBool True), (''label'', PyStr ''x'')]" by code_simp
  from coerce_args_typed [OF this] show ?thesis by simp
qed

end
