(* ===== verification/Agent_Loop.thy ===== *)
theory Agent_Loop
  imports Response_Parser Coercion
begin

text \<open>
  The orchestration loop \<open>run_agent\<close> of \<open>src/agent.py\<close> (lines 32--261) and its
  failure classification.  The two external collaborators and the provider connection
  are the fields of a \<open>world\<close> record over an abstract state \<open>'w\<close>: \<open>connect\<close>
  (lines 47--71: start the provider, open the session, initialise, list the tools),
  \<open>generate\<close> (lines 104--109: one model call) and \<open>call_tool\<close> (line 182).  Each
  returns what the source observes: a value, or the text \<open>str(e)\<close> of the exception
  raised.  The loop's mutable locals \<open>history\<close> and \<open>execution_log\<close>, the
  \<open>log\<close> calls (which reach the task service through \<open>log_callback\<close>) and the
  seconds slept on rate limits are the fields of \<open>agent_state\<close>.  One iteration of
  the \<open>for\<close> loop is \<open>agent_step\<close>, whose outcome says whether the loop goes on
  (\<open>continue\<close> or the end of the body), leaves it (\<open>break\<close>) or returns an answer;
  \<open>agent_loop\<close> is the \<open>for i in range(max_iter)\<close> loop and terminates on the
  measure \<open>max_iter - i\<close>.
\<close>

subsection \<open>External collaborators\<close>

text \<open>A model reply: \<open>response.text\<close> (\<open>None\<close> when the reply carries no text),
  or the message of the exception \<open>generate_content\<close> raised.\<close>

datatype llm_outcome = LlmText "pystr option" | LlmRaise pystr

text \<open>An item of a tool result: one with a \<open>text\<close> attribute, or \<open>str(x)\<close> of one
  without (line 186).\<close>

datatype content_item = TextItem pystr | PlainItem pystr

text \<open>A tool result: a list of items, a single content value (as \<open>str\<close>), or a
  result without \<open>content\<close> (as \<open>str\<close>), lines 184--190.\<close>

datatype call_result = ContentList "content_item list" | ContentValue pystr | NoContent pystr

datatype call_outcome = CallReturned call_result | CallRaised pystr

text \<open>The prompt of lines 84--101: the first one carries the goal only, the later
  ones the tool digest, the goal and the recent history joined by newlines.  The model
  sees it through \<open>generate\<close>; the string itself, with the manual of \<open>src/prompt.py\<close>
  around these parts, is \<open>render_prompt\<close> of \<open>Prompt_Manual\<close>.\<close>

datatype prompt = FirstPrompt pystr | NextPrompt pystr pystr pystr

record 'w world =
  connect :: "'w \<Rightarrow> (pystr + mcp_tool list) \<times> 'w"
  generate :: "'w \<Rightarrow> prompt \<Rightarrow> llm_outcome \<times> 'w"
  call_tool :: "'w \<Rightarrow> pystr \<Rightarrow> (pystr \<times> pyval) list \<Rightarrow> call_outcome \<times> 'w"

subsection \<open>Loop state\<close>

datatype log_level = Info | Warning | Error

text \<open>One constructor per \<open>log\<close> call of \<open>run_agent\<close>, with the data its message
  shows.\<close>

datatype log_event =
    LogStarting
  | LogToolsReady nat
  | LogGoal pystr
  | LogIteration nat int
  | LogResponse pystr
  | LogRateLimit
  | LogLlmError pystr
  | LogNoToolCall
  | LogToolCall pystr "pystr list"
  | LogUnknownTool
  | LogExecuting "(pystr \<times> pyval) list"
  | LogToolFailed pystr
  | LogToolResult pystr
  | LogToolError pystr
  | LogDone pystr
  | LogInvalidFormat
  | LogMaxIterations

fun event_level :: "log_event \<Rightarrow> log_level" where
  "event_level LogRateLimit = Warning"
| "event_level (LogLlmError _) = Error"
| "event_level LogNoToolCall = Warning"
| "event_level LogUnknownTool = Error"
| "event_level (LogToolFailed _) = Warning"
| "event_level (LogToolError _) = Error"
| "event_level LogInvalidFormat = Warning"
| "event_level LogMaxIterations = Warning"
| "event_level _ = Info"

datatype exec_status = StSuccess | StFailed | StError

text \<open>An entry of \<open>execution_log\<close>: the dictionary built at line 112, with the keys
  lines 197--212 add.\<close>

record exec_entry =
  entry_iteration :: nat
  entry_response :: pystr
  entry_status :: "exec_status option"
  entry_result :: "pystr option"
  entry_error :: "pystr option"

record agent_state =
  history :: "pystr list"
  exec_log :: "exec_entry list"
  logs :: "log_event list"
  slept :: nat

text \<open>The dictionary \<open>run_agent\<close> returns (lines 225--243).\<close>

record agent_result =
  success :: bool
  result :: pystr
  iterations :: int
  res_history :: "pystr list"
  res_exec_log :: "exec_entry list"

datatype step_outcome = Continue | Break | Finished pystr

datatype loop_end = LoopAnswer pystr nat | LoopStopped

subsection \<open>Operations\<close>

definition empty_state :: agent_state where
  "empty_state = \<lparr>history = [], exec_log = [], logs = [], slept = 0\<rparr>"

definition log_ev :: "log_event \<Rightarrow> agent_state \<Rightarrow> agent_state" where
  "log_ev e s = s\<lparr>logs := logs s @ [e]\<rparr>"

definition add_history :: "pystr \<Rightarrow> agent_state \<Rightarrow> agent_state" where
  "add_history h s = s\<lparr>history := history s @ [h]\<rparr>"

text \<open>\<open>execution_log[-1][k] = v\<close>; the log is never empty there, since the entry
  of the current iteration was appended first.\<close>

definition set_last_entry :: "(exec_entry \<Rightarrow> exec_entry) \<Rightarrow> agent_state \<Rightarrow> agent_state" where
  "set_last_entry f s =
     (case rev (exec_log s) of [] \<Rightarrow> s | e # rest \<Rightarrow> s\<lparr>exec_log := rev rest @ [f e]\<rparr>)"

definition new_entry :: "nat \<Rightarrow> pystr \<Rightarrow> exec_entry" where
  "new_entry k text = \<lparr>entry_iteration = k, entry_response = text, entry_status = None,
     entry_result = None, entry_error = None\<rparr>"

text \<open>Lines 84--101; \<open>history[-3:]\<close> is the recency window.\<close>

definition build_prompt :: "nat \<Rightarrow> pystr list \<Rightarrow> pystr \<Rightarrow> pystr \<Rightarrow> prompt" where
  "build_prompt i hist tools_desc query =
     (if i = 0 then FirstPrompt query
      else NextPrompt tools_desc query (py_join ''\<newline>'' (py_last_n 3 hist)))"

text \<open>Line 119: the rate-limit signal in the exception's text.\<close>

definition is_rate_limit :: "pystr \<Rightarrow> bool" where
  "is_rate_limit err \<longleftrightarrow> py_in ''429'' err \<or> py_in ''RESOURCE_EXHAUSTED'' err"

text \<open>\<open>str(e)\<close> of the \<open>AttributeError\<close> that \<open>None.strip()\<close> raises at line 109.\<close>

definition NONE_TEXT_ERROR :: pystr where
  "NONE_TEXT_ERROR = [CHR 0x27] @ ''NoneType'' @ [CHR 0x27] @ '' object has no attribute ''
     @ [CHR 0x27] @ ''strip'' @ [CHR 0x27]"

text \<open>Lines 117--125: a failed model call.\<close>

definition handle_llm_error :: "pystr \<Rightarrow> 'w \<Rightarrow> agent_state \<Rightarrow> step_outcome \<times> 'w \<times> agent_state" where
  "handle_llm_error err w s =
     (if is_rate_limit err then (Continue, w, (log_ev LogRateLimit s)\<lparr>slept := slept s + 10\<rparr>)
      else (Break, w, log_ev (LogLlmError (take 100 err)) s))"

text \<open>Lines 184--190.\<close>

fun item_text :: "content_item \<Rightarrow> pystr" where
  "item_text (TextItem t) = t"
| "item_text (PlainItem t) = t"

definition result_text :: "call_result \<Rightarrow> pystr" where
  "result_text r =
     (case r of
        ContentList xs \<Rightarrow> py_join ''\<newline>'' (map item_text xs)
      | ContentValue v \<Rightarrow> v
      | NoContent v \<Rightarrow> v)"

text \<open>Line 194: the failure classifier of a tool result.\<close>

definition tool_failed :: "pystr \<Rightarrow> bool" where
  "tool_failed rtext \<longleftrightarrow>
     (let l = py_lower rtext in py_in ''failed'' l \<or> py_in ''timeout'' l \<or> py_in ''error'' l)"

text \<open>Lines 201--204: the history entry of a successful call.\<close>

definition success_entry :: "pystr \<Rightarrow> pystr \<Rightarrow> pystr" where
  "success_entry name rtext =
     (if name = EVALUATE_TOOL \<and> rtext \<noteq> [] \<and> py_strip rtext \<notin> set [''null'', ''undefined'', '''']
      then name @ '' returned: '' @ [CHR 0x22] @ take 100 (py_strip rtext) @ [CHR 0x22]
      else name @ '' succeeded'')"

text \<open>Lines 208--212: the \<open>except\<close> of a dispatch.\<close>

definition record_tool_error :: "pystr \<Rightarrow> pystr \<Rightarrow> agent_state \<Rightarrow> agent_state" where
  "record_tool_error name msg s =
     set_last_entry (\<lambda>e. e\<lparr>entry_status := Some StError, entry_error := Some (take 100 msg)\<rparr>)
       (add_history (name @ '' error: '' @ take 50 msg) (log_ev (LogToolError msg) s))"

text \<open>Lines 163--212: coerce, call, classify, record.\<close>

definition dispatch_tool ::
  "'w world \<Rightarrow> mcp_tool \<Rightarrow> pystr \<Rightarrow> pystr list \<Rightarrow> 'w \<Rightarrow> agent_state \<Rightarrow> 'w \<times> agent_state" where
  "dispatch_tool W tool name params w s =
     (case coerce_args (schema_properties (input_schema tool)) params of
        Inl msg \<Rightarrow> (w, record_tool_error name msg s)
      | Inr args \<Rightarrow>
          (let s1 = log_ev (LogExecuting args) s
           in case call_tool W w name args of
                (CallRaised msg, w1) \<Rightarrow> (w1, record_tool_error name msg s1)
              | (CallReturned r, w1) \<Rightarrow>
                  (let rtext = result_text r;
                       display = take 200 rtext
                   in if tool_failed rtext then
                        (w1, set_last_entry
                               (\<lambda>e. e\<lparr>entry_status := Some StFailed, entry_result := Some (take 80 display)\<rparr>)
                               (add_history (''!! '' @ name @ '' FAILED: '' @ take 80 display)
                                 (log_ev (LogToolFailed display) s1)))
                      else
                        (w1, set_last_entry
                               (\<lambda>e. e\<lparr>entry_status := Some StSuccess, entry_result := Some (take 200 display)\<rparr>)
                               (add_history (success_entry name rtext) (log_ev (LogToolResult display) s1))))))"

text \<open>Lines 127--234: what the loop does with a parsed reply.\<close>

definition handle_decision ::
  "'w world \<Rightarrow> mcp_tool list \<Rightarrow> decision \<Rightarrow> 'w \<Rightarrow> agent_state \<Rightarrow> step_outcome \<times> 'w \<times> agent_state" where
  "handle_decision W tools d w s =
     (case d of
        ToolCall name params \<Rightarrow>
          (let s1 = log_ev (LogToolCall name params) s
           in case find_tool tools name of
                None \<Rightarrow> (Continue, w, add_history (''Tool '' @ [CHR 0x27] @ name @ [CHR 0x27] @ '' not found'')
                                       (log_ev LogUnknownTool s1))
              | Some t \<Rightarrow> (case dispatch_tool W t name params w s1 of (w', s') \<Rightarrow> (Continue, w', s')))
      | NoValidToolCall \<Rightarrow> (Continue, w, add_history ''Invalid response format'' (log_ev LogNoToolCall s))
      | FinalAnswer ans \<Rightarrow> (Finished ans, w, log_ev (LogDone ans) s)
      | FinalNoLine \<Rightarrow> (Continue, w, s)
      | InvalidFormat \<Rightarrow> (Continue, w, add_history ''Invalid response format'' (log_ev LogInvalidFormat s)))"

text \<open>Lines 82--234: one iteration.\<close>

definition agent_step ::
  "'w world \<Rightarrow> mcp_tool list \<Rightarrow> pystr \<Rightarrow> pystr \<Rightarrow> int \<Rightarrow> nat \<Rightarrow> 'w \<Rightarrow> agent_state
     \<Rightarrow> step_outcome \<times> 'w \<times> agent_state" where
  "agent_step W tools tools_desc query max_iter i w s0 =
     (let s = log_ev (LogIteration (Suc i) max_iter) s0
      in case generate W w (build_prompt i (history s) tools_desc query) of
           (LlmRaise err, w1) \<Rightarrow> handle_llm_error err w1 s
         | (LlmText None, w1) \<Rightarrow> handle_llm_error NONE_TEXT_ERROR w1 s
         | (LlmText (Some raw), w1) \<Rightarrow>
             (let text = py_strip raw;
                  s1 = log_ev (LogResponse text) s;
                  s2 = s1\<lparr>exec_log := exec_log s1 @ [new_entry (Suc i) text]\<rparr>
              in handle_decision W tools (parse_response text) w1 s2))"

text \<open>Line 81: \<open>for i in range(max_iter)\<close>.\<close>

function agent_loop ::
  "'w world \<Rightarrow> mcp_tool list \<Rightarrow> pystr \<Rightarrow> pystr \<Rightarrow> int \<Rightarrow> nat \<Rightarrow> 'w \<Rightarrow> agent_state
     \<Rightarrow> loop_end \<times> 'w \<times> agent_state" where
  "agent_loop W tools tools_desc query max_iter i w s =
     (if i < nat max_iter then
        (case agent_step W tools tools_desc query max_iter i w s of
           (Continue, w', s') \<Rightarrow> agent_loop W tools tools_desc query max_iter (Suc i) w' s'
         | (Break, w', s') \<Rightarrow> (LoopStopped, w', s')
         | (Finished ans, w', s') \<Rightarrow> (LoopAnswer ans (Suc i), w', s'))
      else (LoopStopped, w, s))"
  by pat_completeness auto
termination
  by (relation "measure (\<lambda>(W, tools, tools_desc, query, max_iter, i, w, s). nat max_iter - i)") auto

definition MAX_ITER_MESSAGE :: pystr where
  "MAX_ITER_MESSAGE = ''Max iterations reached without completing task''"

text \<open>\<open>str(e)\<close> of the \<open>TypeError\<close> that \<open>range(None)\<close> raises at line 81.\<close>

definition NONE_RANGE_ERROR :: pystr where
  "NONE_RANGE_ERROR = [CHR 0x27] @ ''NoneType'' @ [CHR 0x27] @ '' object cannot be interpreted as an integer''"

text \<open>Lines 45--78: the state when the loop starts, after the three log calls of the
  set-up, with empty \<open>history\<close> and \<open>execution_log\<close>.\<close>

definition start_state :: "nat \<Rightarrow> pystr \<Rightarrow> agent_state" where
  "start_state n query = log_ev (LogGoal query) (log_ev (LogToolsReady n) (log_ev LogStarting empty_state))"

text \<open>Lines 32--261.  An exception that leaves \<open>run_agent\<close> is \<open>Inl\<close> of its text;
  the state returned holds the log calls made before it.\<close>

definition run_agent ::
  "'w world \<Rightarrow> pystr \<Rightarrow> int option \<Rightarrow> 'w \<Rightarrow> (pystr + agent_result) \<times> 'w \<times> agent_state" where
  "run_agent W query max_iter w =
     (let s0 = log_ev LogStarting empty_state
      in case connect W w of
           (Inl err, w1) \<Rightarrow> (Inl err, w1, s0)
         | (Inr tools, w1) \<Rightarrow>
             (let s1 = start_state (length tools) query;
                  tools_desc = create_tool_descriptions tools
              in case max_iter of
                   None \<Rightarrow> (Inl NONE_RANGE_ERROR, w1, s1)
                 | Some m \<Rightarrow>
                     (case agent_loop W tools tools_desc query m 0 w1 s1 of
                        (LoopAnswer ans k, w2, s2) \<Rightarrow>
                          (Inr \<lparr>success = True, result = ans, iterations = int k,
                                res_history = history s2, res_exec_log = exec_log s2\<rparr>, w2, s2)
                      | (LoopStopped, w2, s2) \<Rightarrow>
                          (let s3 = log_ev LogMaxIterations s2
                           in (Inr \<lparr>success = False, result = MAX_ITER_MESSAGE, iterations = m,
                                    res_history = history s3, res_exec_log = exec_log s3\<rparr>, w2, s3)))))"

text \<open>The loop invariant after \<open>i\<close> iterations: every history entry comes from an
  iteration that recorded a reply; each iteration recorded at most one reply or slept
  once (so the sleeps and the recorded replies together fit the iterations run); the
  recorded replies are numbered in increasing order by iterations already run.\<close>

definition loop_inv :: "nat \<Rightarrow> agent_state \<Rightarrow> bool" where
  "loop_inv i s \<longleftrightarrow>
     length (history s) \<le> length (exec_log s)
     \<and> slept s + 10 * length (exec_log s) \<le> 10 * i
     \<and> sorted_wrt (<) (map entry_iteration (exec_log s))
     \<and> (\<forall>e\<in>set (exec_log s). 0 < entry_iteration e \<and> entry_iteration e \<le> i)"

text \<open>The updates of the last entry touch its status, result and error only.\<close>

definition keeps_entry :: "(exec_entry \<Rightarrow> exec_entry) \<Rightarrow> bool" where
  "keeps_entry f \<longleftrightarrow> (\<forall>e. entry_iteration (f e) = entry_iteration e \<and> entry_response (f e) = entry_response e)"

abbreviation entries_of :: "agent_state \<Rightarrow> nat list \<times> pystr list" where
  "entries_of s \<equiv> (map entry_iteration (exec_log s), map entry_response (exec_log s))"

text \<open>Reference for the loop: Python's \<open>for i in range(max_iter)\<close> with
  \<open>continue\<close>, \<open>break\<close> and \<open>return\<close>, as a left fold over the range whose
  accumulator, once an outcome is set, is carried through unchanged.\<close>

definition for_range_step ::
  "'w world \<Rightarrow> mcp_tool list \<Rightarrow> pystr \<Rightarrow> pystr \<Rightarrow> int
     \<Rightarrow> loop_end option \<times> 'w \<times> agent_state \<Rightarrow> nat \<Rightarrow> loop_end option \<times> 'w \<times> agent_state" where
  "for_range_step W tools d q m acc i =
     (case acc of
        (None, w, s) \<Rightarrow>
          (case agent_step W tools d q m i w s of
             (Continue, w', s') \<Rightarrow> (None, w', s')
           | (Break, w', s') \<Rightarrow> (Some LoopStopped, w', s')
           | (Finished ans, w', s') \<Rightarrow> (Some (LoopAnswer ans (Suc i)), w', s'))
      | done \<Rightarrow> done)"

definition agent_loop_for ::
  "'w world \<Rightarrow> mcp_tool list \<Rightarrow> pystr \<Rightarrow> pystr \<Rightarrow> int \<Rightarrow> 'w \<Rightarrow> agent_state \<Rightarrow> loop_end \<times> 'w \<times> agent_state" where
  "agent_loop_for W tools d q m w s =
     (case foldl (for_range_step W tools d q m) (None, w, s) [0..<nat m] of
        (None, w', s') \<Rightarrow> (LoopStopped, w', s')
      | (Some e, w', s') \<Rightarrow> (e, w', s'))"

text \<open>The truncations an execution-log entry's text is kept within (lines 198, 206
  and 212).\<close>

definition entry_bounded :: "exec_entry \<Rightarrow> bool" where
  "entry_bounded e \<longleftrightarrow>
     (case entry_result e of None \<Rightarrow> True
      | Some x \<Rightarrow> length x \<le> 200 \<and> (entry_status e = Some StFailed \<longrightarrow> length x \<le> 80))
     \<and> (case entry_error e of None \<Rightarrow> True | Some x \<Rightarrow> length x \<le> 100)"

subsection \<open>Example worlds\<close>

text \<open>Concrete collaborators for the examples below: a provider with no tools or
  with one \<open>playwright_click\<close> tool, and models that answer on the second prompt, never
  answer, are always rate-limited, or fail.\<close>

definition click_tool :: mcp_tool where
  "click_tool = \<lparr>tool_name = ''playwright_click'',
     input_schema = \<lparr>schema_required = [''selector''], schema_properties = [(''selector'', Some ''string'')]\<rparr>\<rparr>"

definition demo_world :: "(prompt \<Rightarrow> llm_outcome) \<Rightarrow> call_outcome \<Rightarrow> unit world" where
  "demo_world g c = \<lparr>connect = (\<lambda>u. (Inr [click_tool], u)), generate = (\<lambda>u p. (g p, u)),
     call_tool = (\<lambda>u n a. (c, u))\<rparr>"

definition answer_second :: "prompt \<Rightarrow> llm_outcome" where
  "answer_second p = (case p of FirstPrompt _ \<Rightarrow> LlmText (Some ''TOOL_CALL: playwright_click | #buy'')
                       | NextPrompt _ _ _ \<Rightarrow> LlmText (Some ''FINAL_ANSWER: 42''))"

declare agent_loop.simps [simp del]

subsection \<open>Frame lemmas\<close>

named_theorems agent_frame "what the bookkeeping operations leave alone"

lemma log_ev_fields [simp, agent_frame]:
  "history (log_ev e s) = history s" "exec_log (log_ev e s) = exec_log s" "slept (log_ev e s) = slept s"
  "logs (log_ev e s) = logs s @ [e]"
  by (simp_all add: log_ev_def)

lemma add_history_fields [simp, agent_frame]:
  "history (add_history h s) = history s @ [h]" "exec_log (add_history h s) = exec_log s"
  "slept (add_history h s) = slept s" "logs (add_history h s) = logs s"
  by (simp_all add: add_history_def)

lemma set_last_entry_fields [simp, agent_frame]:
  "history (set_last_entry f s) = history s" "slept (set_last_entry f s) = slept s"
  "logs (set_last_entry f s) = logs s"
  by (simp_all add: set_last_entry_def split: list.split)

lemma set_last_entry_snoc [simp, agent_frame]:
  "exec_log s = xs @ [x] \<Longrightarrow> exec_log (set_last_entry f s) = xs @ [f x]"
  by (simp add: set_last_entry_def)

lemma set_last_entry_Nil [simp, agent_frame]:
  "exec_log s = [] \<Longrightarrow> exec_log (set_last_entry f s) = []"
  by (simp add: set_last_entry_def)

lemma keeps_entry_updates [simp]:
  "keeps_entry (\<lambda>e. e\<lparr>entry_status := a, entry_error := b\<rparr>)"
  "keeps_entry (\<lambda>e. e\<lparr>entry_status := a, entry_result := c\<rparr>)"
  by (simp_all add: keeps_entry_def)

lemma set_last_entry_keeps:
  assumes "keeps_entry f"
  shows "map entry_iteration (exec_log (set_last_entry f s)) = map entry_iteration (exec_log s)"
    "map entry_response (exec_log (set_last_entry f s)) = map entry_response (exec_log s)"
  using assms by (cases "exec_log s" rule: rev_cases; simp add: keeps_entry_def)+

lemma record_tool_error_frame:
  "map entry_iteration (exec_log (record_tool_error n m s)) = map entry_iteration (exec_log s)
   \<and> map entry_response (exec_log (record_tool_error n m s)) = map entry_response (exec_log s)
   \<and> slept (record_tool_error n m s) = slept s
   \<and> history (record_tool_error n m s) = history s @ [n @ '' error: '' @ take 50 m]"
  by (simp add: record_tool_error_def set_last_entry_keeps)

lemma dispatch_tool_frame:
  assumes "dispatch_tool W t n ps w s = (w', s')"
  shows "entries_of s' = entries_of s \<and> slept s' = slept s \<and> length (history s') = Suc (length (history s))"
  using assms
  by (auto simp: dispatch_tool_def Let_def record_tool_error_frame set_last_entry_keeps
      split: sum.splits prod.splits call_outcome.splits if_splits)

lemma handle_decision_frame:
  assumes "handle_decision W tools d w s = (out, w', s')"
  shows "entries_of s' = entries_of s \<and> slept s' = slept s \<and> length (history s') \<le> Suc (length (history s))"
  using assms
  by (auto simp: handle_decision_def Let_def dest!: dispatch_tool_frame
      split: decision.splits option.splits prod.splits)

lemma handle_decision_outcome:
  "handle_decision W tools d w s = (out, w', s') \<Longrightarrow> (out = Continue \<or> (\<exists>ans. out = Finished ans \<and> d = FinalAnswer ans))"
  by (auto simp: handle_decision_def Let_def split: decision.splits option.splits prod.splits)

subsection \<open>The loop invariant\<close>

lemma loop_inv_mono: "loop_inv i s \<Longrightarrow> i \<le> j \<Longrightarrow> loop_inv j s"
  by (auto simp: loop_inv_def)

lemma loop_inv_start: "loop_inv 0 s \<longleftrightarrow> history s = [] \<and> exec_log s = [] \<and> slept s = 0"
  by (auto simp: loop_inv_def)

lemma loop_inv_log_ev [simp]: "loop_inv i (log_ev e s) = loop_inv i s"
  by (simp add: loop_inv_def)

lemma handle_llm_error_inv:
  assumes "loop_inv i s" "handle_llm_error err w s = (out, w', s')"
  shows "loop_inv (Suc i) s' \<and> exec_log s' = exec_log s \<and> history s' = history s"
  using assms by (fastforce simp: handle_llm_error_def loop_inv_def split: if_splits)

lemma entries_of_eq_length: "entries_of s' = entries_of s \<Longrightarrow> length (exec_log s') = length (exec_log s)"
  by (metis length_map prod.inject)

lemma handle_decision_inv:
  assumes inv: "loop_inv i s"
    and hd: "handle_decision W tools d w (s\<lparr>exec_log := exec_log s @ [new_entry (Suc i) text]\<rparr>) = (out, w', s')"
  shows "loop_inv (Suc i) s'"
proof -
  let ?s2 = "s\<lparr>exec_log := exec_log s @ [new_entry (Suc i) text]\<rparr>"
  have fr: "entries_of s' = entries_of ?s2" "slept s' = slept ?s2"
    "length (history s') \<le> Suc (length (history ?s2))"
    using handle_decision_frame [OF hd] by auto
  have its: "map entry_iteration (exec_log s') = map entry_iteration (exec_log s) @ [Suc i]"
    using fr(1) by (simp add: new_entry_def)
  have len: "length (exec_log s') = Suc (length (exec_log s))"
    using entries_of_eq_length [OF fr(1)] by simp
  have "\<forall>e\<in>set (exec_log s'). 0 < entry_iteration e \<and> entry_iteration e \<le> Suc i"
  proof
    fix e assume "e \<in> set (exec_log s')"
    then have "entry_iteration e \<in> set (map entry_iteration (exec_log s'))" by simp
    with inv its show "0 < entry_iteration e \<and> entry_iteration e \<le> Suc i"
      by (auto simp: loop_inv_def)
  qed
  moreover have "sorted_wrt (<) (map entry_iteration (exec_log s'))"
    using inv its by (auto simp: loop_inv_def sorted_wrt_append)
  ultimately show ?thesis
    using inv fr len by (auto simp: loop_inv_def)
qed

lemma agent_step_inv:
  assumes inv: "loop_inv i s" and st: "agent_step W tools d q m i w s = (out, w', s')"
  shows "loop_inv (Suc i) s'"
proof -
  let ?s = "log_ev (LogIteration (Suc i) m) s"
  obtain g w1 where gen: "generate W w (build_prompt i (history s) d q) = (g, w1)" by fastforce
  have inv': "loop_inv i ?s" using inv by simp
  show ?thesis
  proof (cases g)
    case (LlmRaise err)
    with st gen have "handle_llm_error err w1 ?s = (out, w', s')" by (simp add: agent_step_def)
    with inv' show ?thesis by (blast dest: handle_llm_error_inv)
  next
    case (LlmText t)
    show ?thesis
    proof (cases t)
      case None
      with LlmText st gen have "handle_llm_error NONE_TEXT_ERROR w1 ?s = (out, w', s')"
        by (simp add: agent_step_def)
      with inv' show ?thesis by (blast dest: handle_llm_error_inv)
    next
      case (Some raw)
      let ?s1 = "log_ev (LogResponse (py_strip raw)) ?s"
      from LlmText Some st gen have hd:
        "handle_decision W tools (parse_response (py_strip raw)) w1
           (?s1\<lparr>exec_log := exec_log ?s1 @ [new_entry (Suc i) (py_strip raw)]\<rparr>) = (out, w', s')"
        by (simp add: agent_step_def Let_def)
      have "loop_inv i ?s1" using inv by simp
      from handle_decision_inv [OF this hd] show ?thesis .
    qed
  qed
qed

lemma agent_loop_invariant:
  assumes step: "\<And>(W :: 'w world) tools d q m j w s out w' s'. P j s \<Longrightarrow> agent_step W tools d q m j w s = (out, w', s') \<Longrightarrow> P (Suc j) s'"
    and mono: "\<And>j k s. P j s \<Longrightarrow> j \<le> k \<Longrightarrow> P k s"
  shows "P i s \<Longrightarrow> agent_loop (W :: 'w world) tools d q m i w s = (e, w', s') \<Longrightarrow> P (max i (nat m)) s'"
proof (induction W tools d q m i w s arbitrary: e w' s' rule: agent_loop.induct)
  case (1 W tools d q m i w s)
  show ?case
  proof (cases "i < nat m")
    case False
    with "1.prems" show ?thesis by (simp add: agent_loop.simps [of W tools d q m i w s] max_def)
  next
    case True
    obtain out w1 s1 where st: "agent_step W tools d q m i w s = (out, w1, s1)"
      by (cases "agent_step W tools d q m i w s")
    have p1: "P (Suc i) s1" using step [OF "1.prems"(1) st] .
    show ?thesis
    proof (cases out)
      case Continue
      with True st "1.prems"(2) have "agent_loop W tools d q m (Suc i) w1 s1 = (e, w', s')"
        by (simp add: agent_loop.simps [of W tools d q m i w s])
      from "1.IH" [OF True st [symmetric] Continue refl p1 this] True show ?thesis by (simp add: max_def)
    qed (use True st "1.prems"(2) p1 in \<open>auto simp: agent_loop.simps [of W tools d q m i w s] intro: mono\<close>)
  qed
qed

lemma agent_loop_inv:
  "loop_inv i s \<Longrightarrow> agent_loop W tools d q m i w s = (e, w', s') \<Longrightarrow> loop_inv (max i (nat m)) s'"
  by (rule agent_loop_invariant [where P = loop_inv, OF agent_step_inv loop_inv_mono])

lemma start_state_fields [simp]:
  "history (start_state n q) = []" "exec_log (start_state n q) = []" "slept (start_state n q) = 0"
  by (simp_all add: start_state_def empty_state_def)

lemma loop_inv_start_state: "loop_inv 0 (start_state n q)"
  by (simp add: loop_inv_start)

lemma run_agent_Some:
  "run_agent W q (Some m) w =
     (case connect W w of
        (Inl err, w1) \<Rightarrow> (Inl err, w1, log_ev LogStarting empty_state)
      | (Inr tools, w1) \<Rightarrow>
          (case agent_loop W tools (create_tool_descriptions tools) q m 0 w1 (start_state (length tools) q) of
             (LoopAnswer ans k, w2, s2) \<Rightarrow>
               (Inr \<lparr>success = True, result = ans, iterations = int k,
                     res_history = history s2, res_exec_log = exec_log s2\<rparr>, w2, s2)
           | (LoopStopped, w2, s2) \<Rightarrow>
               (Inr \<lparr>success = False, result = MAX_ITER_MESSAGE, iterations = m,
                     res_history = history s2, res_exec_log = exec_log s2\<rparr>, w2, log_ev LogMaxIterations s2)))"
  by (simp add: run_agent_def split: prod.split sum.split loop_end.split)

lemma run_agent_InrE:
  assumes "run_agent W q (Some m) w = (Inr r, w', s)"
  obtains tools w1 e s2 where "connect W w = (Inr tools, w1)"
    and "agent_loop W tools (create_tool_descriptions tools) q m 0 w1 (start_state (length tools) q) = (e, w', s2)"
    and "res_history r = history s2" "res_exec_log r = exec_log s2" "slept s = slept s2"
    and "\<And>ans k. e = LoopAnswer ans k \<Longrightarrow> r = \<lparr>success = True, result = ans, iterations = int k,
                     res_history = history s2, res_exec_log = exec_log s2\<rparr>"
    and "e = LoopStopped \<Longrightarrow> r = \<lparr>success = False, result = MAX_ITER_MESSAGE, iterations = m,
                     res_history = history s2, res_exec_log = exec_log s2\<rparr>"
proof -
  obtain c w1 where con: "connect W w = (c, w1)" by fastforce
  with assms obtain tools where c: "c = Inr tools"
    by (cases c) (simp_all add: run_agent_Some)
  obtain e w2 s2 where lp: "agent_loop W tools (create_tool_descriptions tools) q m 0 w1 (start_state (length tools) q) = (e, w2, s2)"
    by (metis prod.exhaust)
  show ?thesis
  proof (cases e)
    case (LoopAnswer ans k)
    with assms con c lp show ?thesis by (intro that [of tools w1 e s2]) (auto simp: run_agent_Some)
  next
    case LoopStopped
    with assms con c lp show ?thesis by (intro that [of tools w1 e s2]) (auto simp: run_agent_Some)
  qed
qed

lemma handle_decision_finished:
  "handle_decision W tools d w s = (Finished ans, w', s') \<Longrightarrow> d = FinalAnswer ans \<and> exec_log s' = exec_log s"
  by (auto simp: handle_decision_def Let_def split: decision.splits option.splits prod.splits)

lemma agent_step_finished:
  assumes "agent_step W tools d q m i w s = (Finished ans, w', s')"
  shows "\<exists>text. exec_log s' = exec_log s @ [new_entry (Suc i) text] \<and> parse_response text = FinalAnswer ans"
proof -
  let ?s = "log_ev (LogIteration (Suc i) m) s"
  obtain g w1 where gen: "generate W w (build_prompt i (history s) d q) = (g, w1)" by fastforce
  show ?thesis
  proof (cases g)
    case (LlmRaise err)
    with assms gen show ?thesis by (simp add: agent_step_def handle_llm_error_def Let_def split: if_splits)
  next
    case (LlmText t)
    show ?thesis
    proof (cases t)
      case None
      with LlmText assms gen show ?thesis by (simp add: agent_step_def handle_llm_error_def Let_def split: if_splits)
    next
      case (Some raw)
      let ?s1 = "log_ev (LogResponse (py_strip raw)) ?s"
      from LlmText Some assms gen have
        "handle_decision W tools (parse_response (py_strip raw)) w1
           (?s1\<lparr>exec_log := exec_log ?s1 @ [new_entry (Suc i) (py_strip raw)]\<rparr>) = (Finished ans, w', s')"
        by (simp add: agent_step_def Let_def)
      from handle_decision_finished [OF this] show ?thesis by auto
    qed
  qed
qed

lemma agent_loop_answer:
  "agent_loop W tools d q m i w s = (LoopAnswer ans k, w', s') \<Longrightarrow>
     i < k \<and> k \<le> nat m \<and> (\<exists>pre text. exec_log s' = pre @ [new_entry k text] \<and> parse_response text = FinalAnswer ans)"
proof (induction W tools d q m i w s arbitrary: w' s' rule: agent_loop.induct)
  case (1 W tools d q m i w s)
  have lt: "i < nat m"
    using "1.prems" by (cases "i < nat m") (simp_all add: agent_loop.simps [of W tools d q m i w s])
  obtain out w1 s1 where st: "agent_step W tools d q m i w s = (out, w1, s1)" by (cases "agent_step W tools d q m i w s")
  show ?case
  proof (cases out)
    case Continue
    with lt st "1.prems" have "agent_loop W tools d q m (Suc i) w1 s1 = (LoopAnswer ans k, w', s')"
      by (simp add: agent_loop.simps [of W tools d q m i w s])
    from "1.IH" [OF lt st [symmetric] Continue refl this] show ?thesis by auto
  next
    case Break
    with lt st "1.prems" show ?thesis by (simp add: agent_loop.simps [of W tools d q m i w s])
  next
    case (Finished a)
    with lt st "1.prems" have "a = ans" "k = Suc i" "s1 = s'"
      by (simp_all add: agent_loop.simps [of W tools d q m i w s])
    with agent_step_finished [OF st [unfolded Finished]] lt show ?thesis by auto
  qed
qed

lemma agent_step_text:
  assumes "generate W w (build_prompt i (history s) d q) = (LlmText (Some raw), w1)"
  shows "agent_step W tools d q m i w s =
    handle_decision W tools (parse_response (py_strip raw)) w1
      ((log_ev (LogResponse (py_strip raw)) (log_ev (LogIteration (Suc i) m) s))
         \<lparr>exec_log := exec_log s @ [new_entry (Suc i) (py_strip raw)]\<rparr>)"
  using assms by (simp add: agent_step_def Let_def)

lemma agent_step_raise:
  assumes "generate W w (build_prompt i (history s) d q) = (LlmRaise err, w1)"
  shows "agent_step W tools d q m i w s = handle_llm_error err w1 (log_ev (LogIteration (Suc i) m) s)"
  using assms by (simp add: agent_step_def Let_def)

lemma agent_step_no_answer:
  assumes "generate W w (build_prompt i (history s) d q) = (LlmText (Some raw), w1)"
    and "\<forall>ans. parse_response (py_strip raw) \<noteq> FinalAnswer ans"
  shows "\<exists>w' s'. agent_step W tools d q m i w s = (Continue, w', s') \<and> length (exec_log s') = Suc (length (exec_log s))"
proof -
  let ?s2 = "(log_ev (LogResponse (py_strip raw)) (log_ev (LogIteration (Suc i) m) s))
         \<lparr>exec_log := exec_log s @ [new_entry (Suc i) (py_strip raw)]\<rparr>"
  obtain out w' s' where hd: "handle_decision W tools (parse_response (py_strip raw)) w1 ?s2 = (out, w', s')"
    by (metis prod.exhaust)
  have "out = Continue" using handle_decision_outcome [OF hd] assms(2) by auto
  moreover have "length (exec_log s') = Suc (length (exec_log s))"
    using entries_of_eq_length [of s' ?s2] handle_decision_frame [OF hd] by simp
  ultimately show ?thesis using agent_step_text [OF assms(1)] hd by simp
qed

lemma agent_loop_no_answer:
  assumes gen: "\<forall>v p. \<exists>raw v'. generate W v p = (LlmText (Some raw), v') \<and> (\<forall>ans. parse_response (py_strip raw) \<noteq> FinalAnswer ans)"
  shows "\<exists>w' s'. agent_loop W tools d q m i w s = (LoopStopped, w', s')
           \<and> length (exec_log s') = length (exec_log s) + (nat m - i)"
proof (induction "nat m - i" arbitrary: i w s)
  case 0
  then show ?case by (simp add: agent_loop.simps [of W tools d q m i w s])
next
  case (Suc n)
  then have lt: "i < nat m" by simp
  obtain raw w1 where g: "generate W w (build_prompt i (history s) d q) = (LlmText (Some raw), w1)"
    and nf: "\<forall>ans. parse_response (py_strip raw) \<noteq> FinalAnswer ans" using gen by blast
  obtain w' s' where st: "agent_step W tools d q m i w s = (Continue, w', s')"
    and len: "length (exec_log s') = Suc (length (exec_log s))"
    using agent_step_no_answer [OF g nf] by blast
  have "n = nat m - Suc i" using Suc.hyps(2) by simp
  from Suc.hyps(1) [OF this] obtain w'' s'' where
    "agent_loop W tools d q m (Suc i) w' s' = (LoopStopped, w'', s'')"
    "length (exec_log s'') = length (exec_log s') + (nat m - Suc i)" by blast
  with lt st len show ?case by (simp add: agent_loop.simps [of W tools d q m i w s])
qed

lemma agent_loop_rate_limited:
  assumes gen: "\<forall>v p. \<exists>err v'. generate W v p = (LlmRaise err, v') \<and> is_rate_limit err"
  shows "\<exists>w' s'. agent_loop W tools d q m i w s = (LoopStopped, w', s')
           \<and> exec_log s' = exec_log s \<and> history s' = history s \<and> slept s' = slept s + 10 * (nat m - i)"
proof (induction "nat m - i" arbitrary: i w s)
  case 0
  then show ?case by (simp add: agent_loop.simps [of W tools d q m i w s])
next
  case (Suc n)
  then have lt: "i < nat m" by simp
  obtain err w1 where g: "generate W w (build_prompt i (history s) d q) = (LlmRaise err, w1)"
    and rl: "is_rate_limit err" using gen by blast
  let ?s' = "(log_ev LogRateLimit (log_ev (LogIteration (Suc i) m) s))\<lparr>slept := slept s + 10\<rparr>"
  have st: "agent_step W tools d q m i w s = (Continue, w1, ?s')"
    using agent_step_raise [OF g] rl by (simp add: handle_llm_error_def)
  have "n = nat m - Suc i" using Suc.hyps(2) by simp
  from Suc.hyps(1) [OF this] obtain w'' s'' where
    "agent_loop W tools d q m (Suc i) w1 ?s' = (LoopStopped, w'', s'')"
    "exec_log s'' = exec_log ?s'" "history s'' = history ?s'" "slept s'' = slept ?s' + 10 * (nat m - Suc i)"
    by blast
  with lt st show ?case by (simp add: agent_loop.simps [of W tools d q m i w s])
qed

lemma demo_world_simps [simp]:
  "connect (demo_world g c) u = (Inr [click_tool], u)"
  "generate (demo_world g c) u p = (g p, u)"
  "call_tool (demo_world g c) u n a = (c, u)"
  by (simp_all add: demo_world_def)

lemma parse_click: "parse_response (py_strip ''TOOL_CALL: playwright_click | #buy'') = ToolCall ''playwright_click'' [''#buy'']"
  by code_simp

lemma foldl_for_range_done: "foldl (for_range_step W tools d q m) (Some e, w, s) xs = (Some e, w, s)"
  by (induction xs) (simp_all add: for_range_step_def)

lemma agent_loop_foldl:
  "agent_loop W tools d q m i w s =
     (case foldl (for_range_step W tools d q m) (None, w, s) [i..<nat m] of
        (None, w', s') \<Rightarrow> (LoopStopped, w', s')
      | (Some e, w', s') \<Rightarrow> (e, w', s'))"
proof (induction W tools d q m i w s rule: agent_loop.induct)
  case (1 W tools d q m i w s)
  show ?case
  proof (cases "i < nat m")
    case False
    then show ?thesis by (simp add: agent_loop.simps [of W tools d q m i w s])
  next
    case True
    then have r: "[i..<nat m] = i # [Suc i..<nat m]" by (simp add: upt_rec)
    obtain out w1 s1 where st: "agent_step W tools d q m i w s = (out, w1, s1)"
      by (cases "agent_step W tools d q m i w s")
    show ?thesis
    proof (cases out)
      case Continue
      with "1.IH" [OF True st [symmetric] Continue refl] True st r show ?thesis
        by (simp add: agent_loop.simps [of W tools d q m i w s] for_range_step_def [of W tools d q m "(None, w, s)" i])
    qed (use True st r in \<open>simp_all add: agent_loop.simps [of W tools d q m i w s] for_range_step_def [of W tools d q m "(None, w, s)" i]
           foldl_for_range_done\<close>)
  qed
qed

lemma set_last_entry_mem:
  "x \<in> set (exec_log (set_last_entry f s)) \<Longrightarrow> x \<in> set (exec_log s) \<or> (\<exists>e\<in>set (exec_log s). x = f e)"
  by (cases "exec_log s" rule: rev_cases) auto

lemma entry_bounded_updates [simp]:
  "entry_bounded e \<Longrightarrow> entry_bounded (e\<lparr>entry_status := Some StError, entry_error := Some (take 100 msg)\<rparr>)"
  "entry_bounded e \<Longrightarrow> length r \<le> 80 \<Longrightarrow> entry_bounded (e\<lparr>entry_status := Some StFailed, entry_result := Some r\<rparr>)"
  "entry_bounded e \<Longrightarrow> length r \<le> 200 \<Longrightarrow> entry_bounded (e\<lparr>entry_status := Some StSuccess, entry_result := Some r\<rparr>)"
  "entry_bounded (new_entry k text)"
  by (auto simp: entry_bounded_def new_entry_def split: option.splits)

lemma record_tool_error_bounded:
  "x \<in> set (exec_log (record_tool_error n msg s)) \<Longrightarrow> \<forall>e\<in>set (exec_log s). entry_bounded e \<Longrightarrow> entry_bounded x"
  by (auto simp: record_tool_error_def dest!: set_last_entry_mem)

lemma dispatch_tool_bounded:
  assumes "\<forall>e\<in>set (exec_log s). entry_bounded e" "dispatch_tool W t n ps w s = (w', s')"
  shows "\<forall>e\<in>set (exec_log s'). entry_bounded e"
  using assms
  by (auto simp: dispatch_tool_def Let_def
      split: sum.splits prod.splits call_outcome.splits if_splits dest!: set_last_entry_mem record_tool_error_bounded)

lemma agent_step_bounded:
  assumes "\<forall>e\<in>set (exec_log s). entry_bounded e" "agent_step W tools d q m i w s = (out, w', s')"
  shows "\<forall>e\<in>set (exec_log s'). entry_bounded e"
  using assms
  by (auto simp: agent_step_def handle_llm_error_def handle_decision_def Let_def
      split: prod.splits llm_outcome.splits option.splits if_splits decision.splits
      dest!: dispatch_tool_bounded [rotated])

subsection \<open>Properties of the loop\<close>

text \<open>C1. Whatever the model and the provider do, a run that returns keeps within its
  budget: there are never more history entries than recorded replies, the seconds
  slept on rate limits plus ten per recorded reply never exceed ten per budgeted
  iteration (so the rate-limit waits are bounded by the budget), and the reported
  iteration count never exceeds the budget.\<close>

theorem run_agent_bounds:
  assumes "run_agent W q (Some m) w = (Inr r, w', s)"
  shows "length (res_history r) \<le> length (res_exec_log r)
    \<and> slept s + 10 * length (res_exec_log r) \<le> 10 * nat m
    \<and> iterations r \<le> max m 0"
proof -
  obtain tools w1 e s2 where lp: "agent_loop W tools (create_tool_descriptions tools) q m 0 w1 (start_state (length tools) q) = (e, w', s2)"
    and r: "res_history r = history s2" "res_exec_log r = exec_log s2" "slept s = slept s2"
    and ans: "\<And>ans k. e = LoopAnswer ans k \<Longrightarrow> r = \<lparr>success = True, result = ans, iterations = int k,
                     res_history = history s2, res_exec_log = exec_log s2\<rparr>"
    and stop: "e = LoopStopped \<Longrightarrow> r = \<lparr>success = False, result = MAX_ITER_MESSAGE, iterations = m,
                     res_history = history s2, res_exec_log = exec_log s2\<rparr>"
    using run_agent_InrE [OF assms] by metis
  have "loop_inv (nat m) s2" using agent_loop_inv [OF loop_inv_start_state lp] by simp
  moreover have "iterations r \<le> max m 0"
  proof (cases e)
    case (LoopAnswer a k)
    with agent_loop_answer [OF lp [unfolded LoopAnswer]] ans show ?thesis by auto
  next
    case LoopStopped
    with stop show ?thesis by simp
  qed
  ultimately show ?thesis using r by (simp add: loop_inv_def)
qed

theorem run_agent_bounds_witness:
  "\<exists>r w' s. run_agent (demo_world answer_second (CallReturned (ContentValue ''clicked''))) ''goal'' (Some 3) () = (Inr r, w', s)
     \<and> success r \<and> length (res_history r) \<le> length (res_exec_log r)
     \<and> slept s + 10 * length (res_exec_log r) \<le> 10 * nat 3 \<and> iterations r \<le> max 3 0"
proof -
  let ?run = "run_agent (demo_world answer_second (CallReturned (ContentValue ''clicked''))) ''goal'' (Some 3) ()"
  have c: "\<not> isl (fst ?run) \<and> success (projr (fst ?run))" by code_simp
  obtain a w' s where eq0: "?run = (a, w', s)" by (cases ?run rule: prod_cases3)
  with c obtain r where eq: "?run = (Inr r, w', s)" and "success r" by (cases a) auto
  with run_agent_bounds [OF eq] show ?thesis by blast
qed

text \<open>C18. A run whose model never gives a final answer (and never fails) ends after
  exactly the budgeted number of iterations, reports failure with the standard message,
  and has one execution-log entry per iteration.\<close>

theorem run_agent_exhaustion:
  assumes "connect W w = (Inr tools, w1)"
    and "\<forall>v p. \<exists>raw v'. generate W v p = (LlmText (Some raw), v') \<and> (\<forall>ans. parse_response (py_strip raw) \<noteq> FinalAnswer ans)"
  shows "\<exists>r w' s. run_agent W q (Some m) w = (Inr r, w', s) \<and> \<not> success r
    \<and> result r = MAX_ITER_MESSAGE \<and> iterations r = m \<and> length (res_exec_log r) = nat m"
proof -
  obtain w' s' where "agent_loop W tools (create_tool_descriptions tools) q m 0 w1 (start_state (length tools) q) = (LoopStopped, w', s')"
    and "length (exec_log s') = nat m"
    using agent_loop_no_answer [OF assms(2), of tools "create_tool_descriptions tools" q m 0 w1 "start_state (length tools) q"] by auto
  with assms(1) show ?thesis by (simp add: run_agent_Some)
qed

theorem run_agent_exhaustion_witness:
  "\<exists>r w' s. run_agent (demo_world (\<lambda>p. LlmText (Some ''TOOL_CALL: playwright_click | #buy'')) (CallReturned (ContentValue ''clicked''))) ''goal'' (Some 2) () = (Inr r, w', s) \<and> \<not> success r
    \<and> result r = MAX_ITER_MESSAGE \<and> iterations r = 2 \<and> length (res_exec_log r) = nat 2"
  by (rule run_agent_exhaustion) (auto simp: parse_click)

text \<open>C7. A rate-limited model call uses up its iteration: the source's
  \<open>continue\<close> inside \<open>for i in range(max_iter)\<close> moves on to the next \<open>i\<close>.  A
  model that is always rate-limited makes the run fail after the budget with an empty
  execution log and ten seconds slept per iteration, instead of waiting forever.\<close>

theorem run_agent_rate_limited:
  assumes "connect W w = (Inr tools, w1)"
    and "\<forall>v p. \<exists>err v'. generate W v p = (LlmRaise err, v') \<and> is_rate_limit err"
  shows "\<exists>w' s. run_agent W q (Some m) w =
      (Inr \<lparr>success = False, result = MAX_ITER_MESSAGE, iterations = m, res_history = [], res_exec_log = []\<rparr>, w', s)
    \<and> slept s = 10 * nat m"
proof -
  obtain w' s' where "agent_loop W tools (create_tool_descriptions tools) q m 0 w1 (start_state (length tools) q) = (LoopStopped, w', s')"
    and "exec_log s' = []" "history s' = []" "slept s' = 10 * nat m"
    using agent_loop_rate_limited [OF assms(2), of tools "create_tool_descriptions tools" q m 0 w1 "start_state (length tools) q"] by auto
  with assms(1) show ?thesis by (simp add: run_agent_Some)
qed

theorem run_agent_rate_limited_witness:
  "\<exists>w' s. run_agent (demo_world (\<lambda>p. LlmRaise ''429 RESOURCE_EXHAUSTED'') (CallReturned (ContentValue ''x''))) ''goal'' (Some 2) () =
      (Inr \<lparr>success = False, result = MAX_ITER_MESSAGE, iterations = 2, res_history = [], res_exec_log = []\<rparr>, w', s)
    \<and> slept s = 10 * nat 2"
proof -
  have "is_rate_limit ''429 RESOURCE_EXHAUSTED''" by code_simp
  then show ?thesis by (intro run_agent_rate_limited) auto
qed

text \<open>C8. Any other failure of the model call ends the loop at once (\<open>break\<close>), but
  the run still reports the budget-exhausted message and the full budget as its
  iteration count; the error text reaches only the log.\<close>

theorem run_agent_fatal_error:
  assumes "connect W w = (Inr tools, w1)" "generate W w1 (FirstPrompt q) = (LlmRaise err, w2)"
    and "\<not> is_rate_limit err" "0 < m"
  shows "\<exists>s. run_agent W q (Some m) w =
      (Inr \<lparr>success = False, result = MAX_ITER_MESSAGE, iterations = m, res_history = [], res_exec_log = []\<rparr>, w2, s)
    \<and> LogLlmError (take 100 err) \<in> set (logs s)"
proof -
  let ?s0 = "start_state (length tools) q"
  have "agent_step W tools (create_tool_descriptions tools) q m 0 w1 ?s0 =
      (Break, w2, log_ev (LogLlmError (take 100 err)) (log_ev (LogIteration 1 m) ?s0))"
    using agent_step_raise [of W w1 0 ?s0 "create_tool_descriptions tools" q err w2] assms(2,3)
    by (simp add: build_prompt_def handle_llm_error_def)
  with assms(4) have "agent_loop W tools (create_tool_descriptions tools) q m 0 w1 ?s0 =
      (LoopStopped, w2, log_ev (LogLlmError (take 100 err)) (log_ev (LogIteration 1 m) ?s0))"
    by (simp add: agent_loop.simps [of W tools _ q m 0 w1 ?s0])
  with assms(1) show ?thesis by (simp add: run_agent_Some)
qed

theorem run_agent_fatal_error_witness:
  "\<exists>s. run_agent (demo_world (\<lambda>p. LlmRaise ''500 internal'') (CallReturned (ContentValue ''x''))) ''goal'' (Some 2) () =
      (Inr \<lparr>success = False, result = MAX_ITER_MESSAGE, iterations = 2, res_history = [], res_exec_log = []\<rparr>, (), s)
    \<and> LogLlmError (take 100 ''500 internal'') \<in> set (logs s)"
proof -
  have "\<not> is_rate_limit ''500 internal''" by code_simp
  then show ?thesis by (intro run_agent_fatal_error) auto
qed

text \<open>C26. A tool result whose text contains \<open>timeout\<close> in any case is recorded as a
  failed step (a history entry marked \<open>!! ... FAILED\<close> and an execution-log status
  \<open>failed\<close>), and the loop goes on to the next iteration.\<close>

theorem agent_step_timeout_continues:
  assumes "generate W w (build_prompt i (history s) d q) = (LlmText (Some raw), w1)"
    and "parse_response (py_strip raw) = ToolCall name params"
    and "find_tool tools name = Some t"
    and "coerce_args (schema_properties (input_schema t)) params = Inr args"
    and "call_tool W w1 name args = (CallReturned r, w2)"
    and "py_in ''timeout'' (py_lower (result_text r))"
  shows "\<exists>s'. agent_step W tools d q m i w s = (Continue, w2, s')
    \<and> history s' = history s @ [''!! '' @ name @ '' FAILED: '' @ take 80 (result_text r)]
    \<and> exec_log s' = exec_log s @ [(new_entry (Suc i) (py_strip raw))
         \<lparr>entry_status := Some StFailed, entry_result := Some (take 80 (result_text r))\<rparr>]"
proof -
  have "tool_failed (result_text r)" using assms(6) by (simp add: tool_failed_def Let_def)
  then show ?thesis
    using assms(3-5) agent_step_text [OF assms(1)]
    by (simp add: assms(2) handle_decision_def dispatch_tool_def Let_def min_def)
qed

theorem agent_step_timeout_continues_witness:
  "\<exists>s'. agent_step (demo_world (\<lambda>p. LlmText (Some ''TOOL_CALL: playwright_click | #buy'')) (CallReturned (ContentValue ''Timeout 30000ms exceeded'')))
      [click_tool] (create_tool_descriptions [click_tool]) ''goal'' 3 0 () (start_state 1 ''goal'') = (Continue, (), s')
    \<and> history s' = history (start_state 1 ''goal'') @ [''!! '' @ ''playwright_click'' @ '' FAILED: '' @ take 80 (result_text (ContentValue ''Timeout 30000ms exceeded''))]
    \<and> exec_log s' = exec_log (start_state 1 ''goal'') @ [(new_entry (Suc 0) (py_strip ''TOOL_CALL: playwright_click | #buy''))
         \<lparr>entry_status := Some StFailed, entry_result := Some (take 80 (result_text (ContentValue ''Timeout 30000ms exceeded'')))\<rparr>]"
proof (rule agent_step_timeout_continues)
  show "find_tool [click_tool] ''playwright_click'' = Some click_tool" by code_simp
  show "coerce_args (schema_properties (input_schema click_tool)) [''#buy''] = Inr [(''selector'', PyStr ''#buy'')]" by code_simp
  show "py_in ''timeout'' (py_lower (result_text (ContentValue ''Timeout 30000ms exceeded'')))" by code_simp
qed (auto simp: parse_click)

text \<open>C3. A run that reports success ends with the execution-log entry of the reply
  that gave the answer: that reply parses to the reported answer, and the reported
  iteration count is its iteration number, within the budget.\<close>

theorem run_agent_success:
  assumes "run_agent W q (Some m) w = (Inr r, w', s)" "success r"
  shows "\<exists>pre text k. res_exec_log r = pre @ [new_entry k text] \<and> parse_response text = FinalAnswer (result r)
    \<and> iterations r = int k \<and> 0 < k \<and> k \<le> nat m"
proof -
  obtain tools w1 e s2 where lp: "agent_loop W tools (create_tool_descriptions tools) q m 0 w1 (start_state (length tools) q) = (e, w', s2)"
    and r: "res_exec_log r = exec_log s2"
    and ans: "\<And>ans k. e = LoopAnswer ans k \<Longrightarrow> r = \<lparr>success = True, result = ans, iterations = int k,
                     res_history = history s2, res_exec_log = exec_log s2\<rparr>"
    and stop: "e = LoopStopped \<Longrightarrow> r = \<lparr>success = False, result = MAX_ITER_MESSAGE, iterations = m,
                     res_history = history s2, res_exec_log = exec_log s2\<rparr>"
    using run_agent_InrE [OF assms(1)] by metis
  obtain a k where e: "e = LoopAnswer a k" using assms(2) stop by (cases e) auto
  from agent_loop_answer [OF lp [unfolded e]] ans [OF e] show ?thesis by auto
qed

theorem run_agent_success_witness:
  "\<exists>r w' s. run_agent (demo_world answer_second (CallReturned (ContentValue ''clicked''))) ''goal'' (Some 3) () = (Inr r, w', s)
     \<and> success r \<and> (\<exists>pre text k. res_exec_log r = pre @ [new_entry k text] \<and> parse_response text = FinalAnswer (result r)
    \<and> iterations r = int k \<and> 0 < k \<and> k \<le> nat 3)"
proof -
  let ?run = "run_agent (demo_world answer_second (CallReturned (ContentValue ''clicked''))) ''goal'' (Some 3) ()"
  have c: "\<not> isl (fst ?run) \<and> success (projr (fst ?run))" by code_simp
  obtain a w' s where eq0: "?run = (a, w', s)" by (cases ?run rule: prod_cases3)
  with c obtain r where eq: "?run = (Inr r, w', s)" and "success r" by (cases a) auto
  with run_agent_success [OF eq] show ?thesis by blast
qed

text \<open>Only the last three history entries reach the model: once there are at
  least three recent entries, older ones do not change the prompt.\<close>

theorem build_prompt_window:
  assumes "0 < i" "3 \<le> length recent"
  shows "build_prompt i (older @ recent) d q = build_prompt i recent d q"
  using assms by (simp add: build_prompt_def py_last_n_def)

theorem build_prompt_window_witness:
  "build_prompt 1 ([''old''] @ [''a'', ''b'', ''c'']) ''tools'' ''goal'' = build_prompt 1 [''a'', ''b'', ''c''] ''tools'' ''goal''"
  by (rule build_prompt_window) simp_all

text \<open>The recursive loop is Python's \<open>for\<close> loop: \<open>agent_loop\<close> from iteration 0
  equals the left fold of one iteration over \<open>range(max_iter)\<close>, where \<open>continue\<close>
  goes on, \<open>break\<close> stops without an answer and a final answer returns with its
  iteration number.\<close>

theorem agent_loop_equiv_for:
  "agent_loop W tools d q m 0 w s = agent_loop_for W tools d q m w s"
  by (simp add: agent_loop_foldl agent_loop_for_def)

text \<open>C10. Every execution-log entry a run returns keeps its text within the source's
  truncations: a result within 200 characters (80 for a failed step) and an error
  within 100, whatever the tools return.\<close>

theorem run_agent_entries_bounded:
  assumes "run_agent W q (Some m) w = (Inr r, w', s)"
  shows "\<forall>e\<in>set (res_exec_log r).
    (\<forall>x. entry_result e = Some x \<longrightarrow> length x \<le> 200 \<and> (entry_status e = Some StFailed \<longrightarrow> length x \<le> 80))
    \<and> (\<forall>x. entry_error e = Some x \<longrightarrow> length x \<le> 100)"
proof -
  obtain tools w1 e s2 where lp: "agent_loop W tools (create_tool_descriptions tools) q m 0 w1 (start_state (length tools) q) = (e, w', s2)"
    and r: "res_exec_log r = exec_log s2"
    using run_agent_InrE [OF assms] by metis
  have "\<forall>x\<in>set (exec_log s2). entry_bounded x"
    using agent_loop_invariant [where P = "\<lambda>_ s. \<forall>x\<in>set (exec_log s). entry_bounded x", OF agent_step_bounded _ _ lp]
    by simp
  then show ?thesis by (auto simp: r entry_bounded_def split: option.splits)
qed

theorem run_agent_entries_bounded_witness:
  "\<exists>r w' s. run_agent (demo_world (\<lambda>p. LlmText (Some ''TOOL_CALL: playwright_click | #buy'')) (CallReturned (ContentValue (replicate 210 CHR ''e'')))) ''goal'' (Some 2) () = (Inr r, w', s)
    \<and> (\<forall>e\<in>set (res_exec_log r).
    (\<forall>x. entry_result e = Some x \<longrightarrow> length x \<le> 200 \<and> (entry_status e = Some StFailed \<longrightarrow> length x \<le> 80))
    \<and> (\<forall>x. entry_error e = Some x \<longrightarrow> length x \<le> 100))"
proof -
  let ?run = "run_agent (demo_world (\<lambda>p. LlmText (Some ''TOOL_CALL: playwright_click | #buy'')) (CallReturned (ContentValue (replicate 210 CHR ''e'')))) ''goal'' (Some 2) ()"
  have c: "\<not> isl (fst ?run)" by code_simp
  obtain a w' s where eq0: "?run = (a, w', s)" by (cases ?run rule: prod_cases3)
  with c obtain r where eq: "?run = (Inr r, w', s)" by (cases a) auto
  with run_agent_entries_bounded [OF eq] show ?thesis by blast
qed

end
