(* ===== verification/Task_Manager.thy ===== *)
theory Task_Manager
  imports Agent_Loop "HOL-Library.AList"
begin

text \<open>
  The task registry of \<open>src/main.py\<close>: the module-level dictionary \<open>tasks\<close> (line 26),
  the request handlers that read and change it (\<open>create_automation_task\<close>,
  \<open>get_task_status\<close>, \<open>list_tasks\<close>, \<open>health_check\<close>, \<open>delete_task\<close>) and the
  background job \<open>run_automation_task\<close> (lines 61--90), split at the points where it
  writes the registry.  The dictionary is an association list with distinct keys in
  insertion order (\<open>AList.update\<close> changes a key in place and appends a new one, as a
  Python dictionary does).  A task record keeps the dictionary's keys as fields; the
  timestamps \<open>datetime.now().isoformat()\<close> are abstract, one \<open>nat\<close> per clock read, and
  a log entry's message is the \<open>log_event\<close> of the call that made it.  A
  \<open>KeyError\<close> raised by the job is \<open>None\<close>.

  The server is a state of the registry, the background jobs not yet finished and
  the identifiers issued so far, with one step function over the events that touch
  the registry.  Every handler runs without an \<open>await\<close>, so each one is a single
  event; the job's events are its start, each log call, and its end.  The reachable
  states allow every interleaving of these events, which includes the schedules the
  event loop can produce.
\<close>

subsection \<open>Task records\<close>

type_synonym timestamp = nat

text \<open>The JSON field \<open>max_iterations\<close>: absent, \<open>null\<close>, or an integer.\<close>

datatype json_int = Absent | Null | IntVal int

text \<open>An entry of \<open>tasks[task_id]["logs"]\<close> (lines 67--71).\<close>

record log_entry =
  lg_timestamp :: timestamp
  lg_level :: log_level
  lg_message :: log_event

text \<open>The dictionary of lines 119--131, with the keys of \<open>TaskResult\<close> (lines 48--59).\<close>

record task_rec =
  task_id :: pystr
  task_goal :: pystr
  task_status :: pystr
  task_result :: "pystr option"
  task_error :: "pystr option"
  started_at :: "timestamp option"
  completed_at :: "timestamp option"
  iterations_used :: "int option"
  task_history :: "pystr list option"
  task_exec_log :: "exec_entry list option"
  task_logs :: "log_entry list"

type_synonym registry = "(pystr \<times> task_rec) list"

text \<open>\<open>HTTPException(status_code, detail)\<close>, and the 422 answer of request validation.\<close>

datatype http_error = HTTPException int pystr

definition TASK_NOT_FOUND :: http_error where
  "TASK_NOT_FOUND = HTTPException 404 ''Task not found''"

text \<open>\<open>TaskResponse\<close> (lines 43--46): task id, status, message.\<close>

record task_response =
  resp_task_id :: pystr
  resp_status :: pystr
  resp_message :: pystr

text \<open>A background job: queued with the arguments of \<open>add_task\<close> (line 134), or started.\<close>

datatype job = Queued pystr "int option" | Started

subsection \<open>Request handlers\<close>

text \<open>Line 41: \<open>Optional[int] = Field(15, ge=5, le=30)\<close>.  An absent field takes the
  default; \<open>null\<close> is accepted as \<open>None\<close> (the bounds apply to integers only).\<close>

definition validate_max_iterations :: "json_int \<Rightarrow> http_error + int option" where
  "validate_max_iterations v =
     (case v of
        Absent \<Rightarrow> Inr (Some 15)
      | Null \<Rightarrow> Inr None
      | IntVal n \<Rightarrow>
          (if n < 5 then Inl (HTTPException 422 ''Input should be greater than or equal to 5'')
           else if 30 < n then Inl (HTTPException 422 ''Input should be less than or equal to 30'')
           else Inr (Some n)))"

text \<open>Lines 119--131.\<close>

definition new_task :: "pystr \<Rightarrow> pystr \<Rightarrow> task_rec" where
  "new_task tid goal = \<lparr>task_id = tid, task_goal = goal, task_status = ''pending'',
     task_result = None, task_error = None, started_at = None, completed_at = None,
     iterations_used = None, task_history = None, task_exec_log = None, task_logs = []\<rparr>"

text \<open>Lines 115--136: the fresh identifier \<open>str(uuid.uuid4())\<close> is an argument; the
  result is the new registry, the job handed to \<open>background_tasks\<close>, and the answer.\<close>

definition create_automation_task ::
  "registry \<Rightarrow> pystr \<Rightarrow> pystr \<Rightarrow> json_int \<Rightarrow> http_error + registry \<times> job \<times> task_response" where
  "create_automation_task reg tid goal mi =
     (case validate_max_iterations mi of
        Inl err \<Rightarrow> Inl err
      | Inr m \<Rightarrow> Inr (AList.update tid (new_task tid goal) reg, Queued goal m,
          \<lparr>resp_task_id = tid, resp_status = ''pending'',
           resp_message = ''Task submitted successfully. Check status at /task/'' @ tid\<rparr>))"

text \<open>Lines 138--145.\<close>

definition get_task_status :: "registry \<Rightarrow> pystr \<Rightarrow> http_error + task_rec" where
  "get_task_status reg tid = (case map_of reg tid of None \<Rightarrow> Inl TASK_NOT_FOUND | Some t \<Rightarrow> Inr t)"

text \<open>Lines 148--160: \<open>if status:\<close> filters only on a non-empty string; the slice
  \<open>[:limit]\<close> and \<open>min(len, limit)\<close> are taken on the signed \<open>limit\<close>.\<close>

definition list_tasks :: "registry \<Rightarrow> int \<Rightarrow> pystr option \<Rightarrow> task_rec list \<times> int \<times> int" where
  "list_tasks reg limit status =
     (let all = map snd reg;
          filtered = (case status of Some st \<Rightarrow> if st \<noteq> [] then filter (\<lambda>t. task_status t = st) all else all
                                   | None \<Rightarrow> all)
      in (py_take limit filtered, int (length filtered), min (int (length filtered)) limit))"

text \<open>Lines 163--177; the environment's \<open>GEMINI_API_KEY\<close> is an argument.\<close>

record health =
  h_status :: pystr
  gemini_configured :: bool
  tasks_count :: nat
  tasks_by_status :: "(pystr \<times> nat) list"

definition TASK_STATUSES :: "pystr list" where
  "TASK_STATUSES = [''pending'', ''running'', ''completed'', ''failed'']"

definition count_status :: "registry \<Rightarrow> pystr \<Rightarrow> nat" where
  "count_status reg st = length (filter (\<lambda>t. task_status t = st) (map snd reg))"

definition health_check :: "pystr option \<Rightarrow> registry \<Rightarrow> health" where
  "health_check key reg = \<lparr>h_status = ''healthy'', gemini_configured = (key \<noteq> None \<and> key \<noteq> Some []),
     tasks_count = length reg, tasks_by_status = map (\<lambda>st. (st, count_status reg st)) TASK_STATUSES\<rparr>"

text \<open>Lines 179--186.\<close>

definition delete_task :: "registry \<Rightarrow> pystr \<Rightarrow> http_error + registry" where
  "delete_task reg tid = (if map_of reg tid = None then Inl TASK_NOT_FOUND else Inr (AList.delete tid reg))"

text \<open>Lines 93--112: the constant API information of \<open>GET /\<close>; the nested
  dictionaries are association lists in their literal order.\<close>

record api_info =
  api_name :: pystr
  api_version :: pystr
  api_status :: pystr
  api_endpoints :: "(pystr \<times> pystr) list"
  api_example :: "(pystr \<times> pystr) list"

definition root :: api_info where
  "root =
     \<lparr>api_name = ''Playwright Browser Automation API'', api_version = ''1.0.0'', api_status = ''running'',
      api_endpoints =
        [(''POST /automate'', ''Submit automation task''),
         (''GET /task/{task_id}'', ''Get task status/result''),
         (''GET /tasks'', ''List all tasks''),
         (''DELETE /task/{task_id}'', ''Delete a task''),
         (''GET /health'', ''Health check''),
         (''GET /docs'', ''API documentation (Swagger UI)''),
         (''GET /redoc'', ''API documentation (ReDoc)'')],
      api_example =
        [(''curl'', ''curl -X POST http://localhost:8000/automate -H '' @ DQ @ ''Content-Type: application/json'' @ DQ @
           '' -d '' @ SQ @ ''{'' @ DQ @ ''goal'' @ DQ @ '': '' @ DQ @ ''Go to Amazon and find laptop prices'' @ DQ @ ''}'' @ SQ)]\<rparr>"

subsection \<open>The background job\<close>

text \<open>\<open>tasks[task_id][k] = v\<close> for a record that must exist: \<open>None\<close> is the
  \<open>KeyError\<close> of a deleted task.\<close>

definition update_task :: "pystr \<Rightarrow> (task_rec \<Rightarrow> task_rec) \<Rightarrow> registry \<Rightarrow> registry option" where
  "update_task tid f reg = (case map_of reg tid of None \<Rightarrow> None | Some t \<Rightarrow> Some (AList.update tid (f t) reg))"

text \<open>Lines 62 and 74--75: reset the logs, mark the task running, stamp its start.\<close>

definition begin_task :: "pystr \<Rightarrow> timestamp \<Rightarrow> registry \<Rightarrow> registry option" where
  "begin_task tid now reg =
     update_task tid (\<lambda>t. t\<lparr>task_logs := [], task_status := ''running'', started_at := Some now\<rparr>) reg"

text \<open>Lines 64--71, \<open>log_callback\<close>: the key \<open>logs\<close> is always present, so the
  test of line 65 never adds it.\<close>

definition log_callback :: "pystr \<Rightarrow> timestamp \<Rightarrow> log_event \<Rightarrow> registry \<Rightarrow> registry option" where
  "log_callback tid now ev reg =
     update_task tid (\<lambda>t. t\<lparr>task_logs := task_logs t @
        [\<lparr>lg_timestamp = now, lg_level = event_level ev, lg_message = ev\<rparr>]\<rparr>) reg"

text \<open>Lines 80--85: the dictionary \<open>run_agent\<close> returned.\<close>

definition finish_task :: "pystr \<Rightarrow> timestamp \<Rightarrow> agent_result \<Rightarrow> registry \<Rightarrow> registry option" where
  "finish_task tid now r reg =
     update_task tid (\<lambda>t. t\<lparr>task_status := (if success r then ''completed'' else ''failed''),
        task_result := Some (result r), iterations_used := Some (iterations r),
        task_history := Some (res_history r), task_exec_log := Some (res_exec_log r),
        completed_at := Some now\<rparr>) reg"

text \<open>Lines 87--90: \<open>run_agent\<close> raised.\<close>

definition fail_task :: "pystr \<Rightarrow> timestamp \<Rightarrow> pystr \<Rightarrow> registry \<Rightarrow> registry option" where
  "fail_task tid now err reg =
     update_task tid (\<lambda>t. t\<lparr>task_status := ''failed'', task_error := Some err, completed_at := Some now\<rparr>) reg"

text \<open>The log calls of one run, in order, through \<open>log_callback\<close>; the \<open>i\<close>-th clock
  read stamps the entry.\<close>

fun log_all :: "pystr \<Rightarrow> (nat \<Rightarrow> timestamp) \<Rightarrow> nat \<Rightarrow> log_event list \<Rightarrow> registry \<Rightarrow> registry option" where
  "log_all tid clk i [] reg = Some reg"
| "log_all tid clk i (ev # evs) reg =
     (case log_callback tid (clk i) ev reg of None \<Rightarrow> None | Some reg' \<Rightarrow> log_all tid clk (Suc i) evs reg')"

text \<open>Lines 61--90 run alone: start, the agent with every log call it makes, and the
  end by its result or its exception.  Clock read \<open>0\<close> is \<open>started_at\<close>, reads
  \<open>1..n\<close> stamp the \<open>n\<close> log entries, read \<open>n + 1\<close> is \<open>completed_at\<close>.\<close>

definition run_automation_task ::
  "'w world \<Rightarrow> pystr \<Rightarrow> pystr \<Rightarrow> int option \<Rightarrow> 'w \<Rightarrow> (nat \<Rightarrow> timestamp) \<Rightarrow> registry
     \<Rightarrow> registry option \<times> 'w" where
  "run_automation_task W tid goal m w clk reg =
     (case begin_task tid (clk 0) reg of
        None \<Rightarrow> (None, w)
      | Some reg1 \<Rightarrow>
          (case run_agent W goal m w of
             (out, w', st) \<Rightarrow>
               (case log_all tid clk 1 (logs st) reg1 of
                  None \<Rightarrow> (None, w')
                | Some reg2 \<Rightarrow>
                    (case out of
                       Inr r \<Rightarrow> (finish_task tid (clk (Suc (length (logs st)))) r reg2, w')
                     | Inl e \<Rightarrow> (fail_task tid (clk (Suc (length (logs st)))) e reg2, w')))))"

subsection \<open>The server\<close>

record server =
  srv_tasks :: registry
  srv_jobs :: "(pystr \<times> job) list"
  issued :: "pystr list"

definition init_server :: server where
  "init_server = \<lparr>srv_tasks = [], srv_jobs = [], issued = []\<rparr>"

text \<open>The events: a submission with a fresh identifier, the job's start, one log call,
  its normal end with the agent's result or its end by an exception, a deletion.
  Reads (\<open>get_task_status\<close>, \<open>list_tasks\<close>, \<open>health_check\<close>) change nothing.\<close>

datatype server_event =
    Submit pystr pystr json_int
  | Begin pystr timestamp
  | Log pystr timestamp log_event
  | Finish pystr timestamp agent_result
  | Crash pystr timestamp pystr
  | Delete pystr

fun event_task :: "server_event \<Rightarrow> pystr" where
  "event_task (Submit tid _ _) = tid"
| "event_task (Begin tid _) = tid"
| "event_task (Log tid _ _) = tid"
| "event_task (Finish tid _ _) = tid"
| "event_task (Crash tid _ _) = tid"
| "event_task (Delete tid) = tid"

text \<open>A job step that writes the registry: the job goes on (\<open>keep\<close>) or ends; a
  \<open>KeyError\<close> ends it and leaves the registry as it is.\<close>

definition job_write :: "pystr \<Rightarrow> registry option \<Rightarrow> job option \<Rightarrow> server \<Rightarrow> server" where
  "job_write tid r next s =
     (case r of
        None \<Rightarrow> s\<lparr>srv_jobs := AList.delete tid (srv_jobs s)\<rparr>
      | Some reg \<Rightarrow> s\<lparr>srv_tasks := reg,
          srv_jobs := (case next of None \<Rightarrow> AList.delete tid (srv_jobs s)
                                  | Some j \<Rightarrow> AList.update tid j (srv_jobs s))\<rparr>)"

text \<open>\<open>None\<close>: the event cannot happen in this state (an identifier \<open>uuid4\<close> does not
  repeat; a job's events follow its phase).\<close>

fun server_step :: "server \<Rightarrow> server_event \<Rightarrow> server option" where
  "server_step s (Submit tid goal mi) =
     (if tid \<in> set (issued s) then None
      else case create_automation_task (srv_tasks s) tid goal mi of
             Inl _ \<Rightarrow> Some s
           | Inr (reg, j, _) \<Rightarrow> Some \<lparr>srv_tasks = reg, srv_jobs = srv_jobs s @ [(tid, j)],
                                      issued = tid # issued s\<rparr>)"
| "server_step s (Begin tid now) =
     (case map_of (srv_jobs s) tid of
        Some (Queued _ _) \<Rightarrow> Some (job_write tid (begin_task tid now (srv_tasks s)) (Some Started) s)
      | _ \<Rightarrow> None)"
| "server_step s (Log tid now ev) =
     (if map_of (srv_jobs s) tid = Some Started
      then Some (job_write tid (log_callback tid now ev (srv_tasks s)) (Some Started) s) else None)"
| "server_step s (Finish tid now r) =
     (if map_of (srv_jobs s) tid = Some Started
      then Some (job_write tid (finish_task tid now r (srv_tasks s)) None s) else None)"
| "server_step s (Crash tid now err) =
     (if map_of (srv_jobs s) tid = Some Started
      then Some (job_write tid (fail_task tid now err (srv_tasks s)) None s) else None)"
| "server_step s (Delete tid) =
     (case delete_task (srv_tasks s) tid of Inl _ \<Rightarrow> Some s | Inr reg \<Rightarrow> Some (s\<lparr>srv_tasks := reg\<rparr>))"

text \<open>A sequence of events run one after the other; \<open>None\<close> when one cannot happen.\<close>

fun run_events :: "server \<Rightarrow> server_event list \<Rightarrow> server option" where
  "run_events s [] = Some s"
| "run_events s (e # es) = (case server_step s e of None \<Rightarrow> None | Some s' \<Rightarrow> run_events s' es)"

text \<open>The server events of the log calls of \<open>log_all\<close>, and the entries they add.\<close>

fun log_events :: "pystr \<Rightarrow> (nat \<Rightarrow> timestamp) \<Rightarrow> nat \<Rightarrow> log_event list \<Rightarrow> server_event list" where
  "log_events tid clk i [] = []"
| "log_events tid clk i (ev # evs) = Log tid (clk i) ev # log_events tid clk (Suc i) evs"

fun stamp_logs :: "(nat \<Rightarrow> timestamp) \<Rightarrow> nat \<Rightarrow> log_event list \<Rightarrow> log_entry list" where
  "stamp_logs clk i [] = []"
| "stamp_logs clk i (ev # evs) =
     \<lparr>lg_timestamp = clk i, lg_level = event_level ev, lg_message = ev\<rparr> # stamp_logs clk (Suc i) evs"

text \<open>The event that ends a job, from what \<open>run_agent\<close> gave.\<close>

fun end_event :: "pystr \<Rightarrow> timestamp \<Rightarrow> pystr + agent_result \<Rightarrow> server_event" where
  "end_event tid now (Inr r) = Finish tid now r"
| "end_event tid now (Inl e) = Crash tid now e"

inductive reachable :: "server \<Rightarrow> bool" where
  init: "reachable init_server"
| step: "reachable s \<Longrightarrow> server_step s e = Some s' \<Longrightarrow> reachable s'"

subsection \<open>An example run\<close>

text \<open>Four submissions: \<open>t1\<close> runs to a successful end, \<open>t2\<close> is running, \<open>t3\<close>
  (submitted with \<open>null\<close>) is pending, \<open>t4\<close> is deleted before it starts.\<close>

definition demo_trace :: "server_event list" where
  "demo_trace =
     [Submit ''t1'' ''Find the price'' Absent, Begin ''t1'' 1, Log ''t1'' 2 LogStarting,
      Finish ''t1'' 3 \<lparr>success = True, result = ''42'', iterations = 2, res_history = [''playwright_navigate succeeded''],
                       res_exec_log = [new_entry 1 ''TOOL_CALL: playwright_navigate | https://example.com'']\<rparr>,
      Submit ''t2'' ''Search'' (IntVal 5), Begin ''t2'' 4, Log ''t2'' 5 LogStarting,
      Submit ''t3'' ''Open'' Null, Submit ''t4'' ''Gone'' Absent, Delete ''t4'']"

definition demo_server :: server where
  "demo_server = the (run_events init_server demo_trace)"

text \<open>A record in each of the four states: which fields are set.\<close>

definition task_wf :: "task_rec \<Rightarrow> bool" where
  "task_wf t \<longleftrightarrow>
     (task_status t = ''pending'' \<and> task_result t = None \<and> task_error t = None \<and> started_at t = None
        \<and> completed_at t = None \<and> iterations_used t = None \<and> task_history t = None
        \<and> task_exec_log t = None \<and> task_logs t = [])
   \<or> (task_status t = ''running'' \<and> task_result t = None \<and> task_error t = None \<and> started_at t \<noteq> None
        \<and> completed_at t = None \<and> iterations_used t = None \<and> task_history t = None \<and> task_exec_log t = None)
   \<or> (task_status t \<in> {''completed'', ''failed''} \<and> task_result t \<noteq> None \<and> task_error t = None
        \<and> started_at t \<noteq> None \<and> completed_at t \<noteq> None \<and> iterations_used t \<noteq> None
        \<and> task_history t \<noteq> None \<and> task_exec_log t \<noteq> None)
   \<or> (task_status t = ''failed'' \<and> task_result t = None \<and> task_error t \<noteq> None \<and> started_at t \<noteq> None
        \<and> completed_at t \<noteq> None \<and> iterations_used t = None \<and> task_history t = None \<and> task_exec_log t = None)"

text \<open>The state a live job's record is in.\<close>

fun job_status :: "job \<Rightarrow> pystr" where
  "job_status (Queued _ _) = ''pending''"
| "job_status Started = ''running''"

text \<open>The work a live job has left before it ends: start and end, or end.\<close>

fun job_cost :: "job \<Rightarrow> nat" where
  "job_cost (Queued _ _) = 2"
| "job_cost Started = 1"

definition job_weight :: "server \<Rightarrow> nat" where
  "job_weight s = sum_list (map (job_cost \<circ> snd) (srv_jobs s))"

text \<open>The server invariant: keys distinct and equal to the record's \<open>task_id\<close>; every
  record well formed; every key issued; a pending record has its queued job and a
  running one its started job, and a live job's record (if not deleted) is in the
  matching state.\<close>

definition server_inv :: "server \<Rightarrow> bool" where
  "server_inv s \<longleftrightarrow>
     distinct (map fst (srv_tasks s)) \<and> distinct (map fst (srv_jobs s))
     \<and> (\<forall>k t. map_of (srv_tasks s) k = Some t \<longrightarrow>
          task_id t = k \<and> task_wf t \<and> k \<in> set (issued s)
          \<and> (task_status t \<in> {''pending'', ''running''} \<longrightarrow> map_of (srv_jobs s) k \<noteq> None))
     \<and> (\<forall>k j. map_of (srv_jobs s) k = Some j \<longrightarrow> k \<in> set (issued s)
          \<and> (\<forall>t. map_of (srv_tasks s) k = Some t \<longrightarrow>
                 task_status t = job_status j))"

subsection \<open>Registry lemmas\<close>

text \<open>Lookups are kept as \<open>map_of\<close> equations rather than list membership.\<close>

declare map_of_eq_Some_iff [simp del] Some_eq_map_of_iff [simp del]


lemma update_task_SomeE:
  assumes "update_task tid f reg = Some reg'"
  obtains t where "map_of reg tid = Some t" "reg' = AList.update tid (f t) reg"
  using assms by (auto simp: update_task_def split: option.splits)

lemma update_task_None: "map_of reg tid = None \<Longrightarrow> update_task tid f reg = None"
  by (simp add: update_task_def)

lemma map_of_update_task:
  "update_task tid f reg = Some reg' \<Longrightarrow> map_of reg' = (map_of reg)(tid \<mapsto> f (the (map_of reg tid)))"
  by (auto elim: update_task_SomeE simp: update_conv')

lemma distinct_update_task:
  "update_task tid f reg = Some reg' \<Longrightarrow> distinct (map fst reg) \<Longrightarrow> distinct (map fst reg')"
  by (auto elim!: update_task_SomeE simp: distinct_update)

lemma server_inv_job_write_None:
  assumes "server_inv s" "map_of (srv_tasks s) tid = None"
  shows "server_inv (s\<lparr>srv_jobs := AList.delete tid (srv_jobs s)\<rparr>)"
  using assms by (auto simp: server_inv_def delete_conv' distinct_delete)

lemma task_wf_status: "task_wf t \<Longrightarrow> task_status t \<in> set TASK_STATUSES"
  by (auto simp: task_wf_def TASK_STATUSES_def)

lemma server_inv_submit:
  assumes "server_inv s" "tid \<notin> set (issued s)" "create_automation_task (srv_tasks s) tid goal mi = Inr (reg, j, r)"
  shows "server_inv \<lparr>srv_tasks = reg, srv_jobs = srv_jobs s @ [(tid, j)], issued = tid # issued s\<rparr>"
proof -
  have nt: "map_of (srv_tasks s) tid = None" and nj: "map_of (srv_jobs s) tid = None"
    using assms(1,2) by (auto simp: server_inv_def intro: ccontr)
  have reg: "reg = AList.update tid (new_task tid goal) (srv_tasks s)" and j: "job_status j = ''pending''"
    using assms(3) by (auto simp: create_automation_task_def split: sum.splits)
  have nj': "tid \<notin> set (map fst (srv_jobs s))" using nj by (simp add: map_of_eq_None_iff)
  have "task_wf (new_task tid goal)" "task_status (new_task tid goal) = ''pending''"
    "task_id (new_task tid goal) = tid"
    by (simp_all add: new_task_def task_wf_def)
  with assms(1) nt nj nj' j show ?thesis unfolding reg
    by (auto simp: server_inv_def update_conv' distinct_update map_of_append split: if_splits option.splits)
qed

lemma server_inv_job_write_Some:
  assumes inv: "server_inv s" and jb: "map_of (srv_jobs s) tid = Some j0"
    and upd: "update_task tid f (srv_tasks s) = Some reg" and t: "map_of (srv_tasks s) tid = Some t"
    and fid: "task_id (f t) = task_id t" and wf: "task_wf (f t)"
    and nxt: "case nxt of None \<Rightarrow> task_status (f t) \<notin> {''pending'', ''running''}
                        | Some j \<Rightarrow> task_status (f t) = job_status j"
  shows "server_inv (job_write tid (Some reg) nxt s)"
proof -
  have reg: "reg = AList.update tid (f t) (srv_tasks s)" using upd t by (auto elim: update_task_SomeE)
  have iss: "tid \<in> set (issued s)" using inv jb by (auto simp: server_inv_def)
  show ?thesis
  proof (cases nxt)
    case None
    with inv iss fid wf nxt t show ?thesis unfolding reg
      by (auto simp: server_inv_def job_write_def update_conv' distinct_update delete_conv' distinct_delete)
  next
    case (Some j)
    with inv iss fid wf nxt t show ?thesis unfolding reg
      by (auto simp: server_inv_def job_write_def update_conv' distinct_update)
  qed
qed

lemma server_inv_job_write_update:
  assumes inv: "server_inv s" and jb: "map_of (srv_jobs s) tid = Some j0"
    and t: "map_of (srv_tasks s) tid = Some t"
    and fid: "task_id (f t) = task_id t" and wf: "task_wf (f t)"
    and nxt: "case nxt of None \<Rightarrow> task_status (f t) \<notin> {''pending'', ''running''}
                        | Some j \<Rightarrow> task_status (f t) = job_status j"
  shows "server_inv (job_write tid (update_task tid f (srv_tasks s)) nxt s)"
proof -
  have u: "update_task tid f (srv_tasks s) = Some (AList.update tid (f t) (srv_tasks s))"
    using t by (simp add: update_task_def)
  from server_inv_job_write_Some [OF inv jb u t fid wf nxt] u show ?thesis by simp
qed

lemma server_inv_job_status:
  "server_inv s \<Longrightarrow> map_of (srv_jobs s) tid = Some j \<Longrightarrow> map_of (srv_tasks s) tid = Some t
    \<Longrightarrow> task_status t = job_status j \<and> task_wf t \<and> task_id t = tid"
  by (auto simp: server_inv_def)

lemma server_inv_step:
  assumes "server_inv s" "server_step s e = Some s'"
  shows "server_inv s'"
proof (cases e)
  case (Submit tid goal mi)
  with assms server_inv_submit show ?thesis
    by (auto split: if_splits sum.splits)
next
  case (Begin tid now)
  then obtain g m where jb: "map_of (srv_jobs s) tid = Some (Queued g m)"
    and s': "s' = job_write tid (begin_task tid now (srv_tasks s)) (Some Started) s"
    using assms(2) by (auto split: option.splits job.splits)
  show ?thesis
  proof (cases "map_of (srv_tasks s) tid")
    case None
    with assms(1) s' show ?thesis
      by (simp add: begin_task_def update_task_None job_write_def server_inv_job_write_None)
  next
    case (Some t)
    with server_inv_job_status [OF assms(1) jb] have "task_wf t" "task_status t = ''pending''" by auto
    then have "task_wf (t\<lparr>task_logs := [], task_status := ''running'', started_at := Some now\<rparr>)"
      by (simp add: task_wf_def)
    with Some show ?thesis unfolding s' begin_task_def
      by (intro server_inv_job_write_update [OF assms(1) jb]) simp_all
  qed
next
  case (Log tid now ev)
  then have jb: "map_of (srv_jobs s) tid = Some Started"
    and s': "s' = job_write tid (log_callback tid now ev (srv_tasks s)) (Some Started) s"
    using assms(2) by (auto split: if_splits)
  show ?thesis
  proof (cases "map_of (srv_tasks s) tid")
    case None
    with assms(1) s' show ?thesis
      by (simp add: log_callback_def update_task_None job_write_def server_inv_job_write_None)
  next
    case (Some t)
    with server_inv_job_status [OF assms(1) jb] have wf: "task_wf t" and st: "task_status t = ''running''" by auto
    then have "task_wf (t\<lparr>task_logs := task_logs t @ [x]\<rparr>)" for x
      by (simp add: task_wf_def)
    with Some st show ?thesis unfolding s' log_callback_def
      by (intro server_inv_job_write_update [OF assms(1) jb]) simp_all
  qed
next
  case (Finish tid now r)
  then have jb: "map_of (srv_jobs s) tid = Some Started"
    and s': "s' = job_write tid (finish_task tid now r (srv_tasks s)) None s"
    using assms(2) by (auto split: if_splits)
  show ?thesis
  proof (cases "map_of (srv_tasks s) tid")
    case None
    with assms(1) s' show ?thesis
      by (simp add: finish_task_def update_task_None job_write_def server_inv_job_write_None)
  next
    case (Some t)
    with server_inv_job_status [OF assms(1) jb] have "task_wf t" "task_status t = ''running''" by auto
    then have "task_wf (t\<lparr>task_status := (if success r then ''completed'' else ''failed''),
        task_result := Some (result r), iterations_used := Some (iterations r),
        task_history := Some (res_history r), task_exec_log := Some (res_exec_log r),
        completed_at := Some now\<rparr>)"
      by (simp add: task_wf_def)
    with Some show ?thesis unfolding s' finish_task_def
      by (intro server_inv_job_write_update [OF assms(1) jb]) simp_all
  qed
next
  case (Crash tid now err)
  then have jb: "map_of (srv_jobs s) tid = Some Started"
    and s': "s' = job_write tid (fail_task tid now err (srv_tasks s)) None s"
    using assms(2) by (auto split: if_splits)
  show ?thesis
  proof (cases "map_of (srv_tasks s) tid")
    case None
    with assms(1) s' show ?thesis
      by (simp add: fail_task_def update_task_None job_write_def server_inv_job_write_None)
  next
    case (Some t)
    with server_inv_job_status [OF assms(1) jb] have "task_wf t" "task_status t = ''running''" by auto
    then have "task_wf (t\<lparr>task_status := ''failed'', task_error := Some err, completed_at := Some now\<rparr>)"
      by (simp add: task_wf_def)
    with Some show ?thesis unfolding s' fail_task_def
      by (intro server_inv_job_write_update [OF assms(1) jb]) simp_all
  qed
next
  case (Delete tid)
  with assms show ?thesis
    by (auto simp: delete_task_def server_inv_def delete_conv' distinct_delete split: if_splits)
qed

lemma reachable_server_inv: "reachable s \<Longrightarrow> server_inv s"
  by (induction rule: reachable.induct) (simp add: server_inv_def init_server_def, blast intro: server_inv_step)

lemma server_step_frame:
  assumes "server_step s e = Some s'" "k \<noteq> event_task e"
  shows "map_of (srv_tasks s') k = map_of (srv_tasks s) k"
  using assms
  by (cases e) (auto simp: job_write_def create_automation_task_def delete_task_def update_conv'
      delete_conv' begin_task_def log_callback_def finish_task_def fail_task_def update_task_def
      split: if_splits option.splits sum.splits job.splits)

lemma job_write_keeps_missing:
  "map_of (srv_tasks s) k = None \<Longrightarrow> map_of (srv_tasks (job_write k (update_task k f (srv_tasks s)) nxt s)) k = None"
  by (simp add: job_write_def update_task_def)

lemma server_step_missing:
  assumes "server_step s e = Some s'" "k \<in> set (issued s)" "map_of (srv_tasks s) k = None"
  shows "map_of (srv_tasks s') k = None"
proof (cases "k = event_task e")
  case True
  with assms show ?thesis
    by (cases e) (auto simp: delete_task_def begin_task_def log_callback_def finish_task_def fail_task_def
        job_write_keeps_missing split: if_splits option.splits job.splits)
next
  case False
  with server_step_frame [OF assms(1)] assms(3) show ?thesis by simp
qed

lemma server_inv_no_job:
  assumes "server_inv s" "map_of (srv_tasks s) k = Some t" "task_status t \<notin> {''pending'', ''running''}"
  shows "map_of (srv_jobs s) k = None"
proof (rule ccontr)
  assume "map_of (srv_jobs s) k \<noteq> None"
  then obtain j where "map_of (srv_jobs s) k = Some j" by auto
  with assms have "task_status t = job_status j" by (auto simp: server_inv_def)
  with assms(3) show False by (cases j) auto
qed

lemma task_wf_pending_logs: "task_wf t \<Longrightarrow> task_status t = ''pending'' \<Longrightarrow> task_logs t = []"
  by (auto simp: task_wf_def)

lemma sum_count_status:
  assumes "\<forall>t\<in>set ts. f t \<in> set L" "distinct L"
  shows "sum_list (map (\<lambda>st. length (filter (\<lambda>t. f t = st) ts)) L) = length ts"
  using assms
proof (induction ts)
  case Nil
  then show ?case by (simp add: sum_list_eq_0_iff)
next
  case (Cons t ts)
  have "sum_list (map (\<lambda>st. length (filter (\<lambda>x. f x = st) (t # ts))) L)
      = sum_list (map (\<lambda>st. (if f t = st then 1 else 0) + length (filter (\<lambda>x. f x = st) ts)) L)"
    by (rule arg_cong [where f = sum_list], rule map_cong) auto
  also have "\<dots> = sum_list (map (\<lambda>st. if f t = st then 1 else 0) L)
      + sum_list (map (\<lambda>st. length (filter (\<lambda>x. f x = st) ts)) L)"
    by (simp add: sum_list_addf)
  also have "sum_list (map (\<lambda>st. if f t = st then 1 else 0) L) = (1::nat)"
    using Cons.prems by (simp add: sum_list_distinct_conv_sum_set sum.If_cases Int_def)
  finally show ?case using Cons by simp
qed

lemma weight_delete:
  "distinct (map fst al) \<Longrightarrow> map_of al k = Some j \<Longrightarrow>
     sum_list (map (job_cost \<circ> snd) (AList.delete k al)) + job_cost j = sum_list (map (job_cost \<circ> snd) al)"
  by (induction al) (auto split: if_splits)

lemma weight_update:
  "distinct (map fst al) \<Longrightarrow> map_of al k = Some j \<Longrightarrow>
     sum_list (map (job_cost \<circ> snd) (AList.update k j' al)) + job_cost j
       = sum_list (map (job_cost \<circ> snd) al) + job_cost j'"
  by (induction al) (auto split: if_splits)

lemma server_step_progress:
  assumes "server_inv s" "srv_jobs s \<noteq> []"
  shows "\<exists>e s'. server_step s e = Some s' \<and> job_weight s' < job_weight s"
proof -
  obtain k j rest where js: "srv_jobs s = (k, j) # rest" using assms(2) by (cases "srv_jobs s") auto
  then have jb: "map_of (srv_jobs s) k = Some j" by simp
  have d: "distinct (map fst (srv_jobs s))" using assms(1) by (simp add: server_inv_def)
  show ?thesis
  proof (cases j)
    case (Queued g m)
    have "job_weight (job_write k (begin_task k 0 (srv_tasks s)) (Some Started) s) < job_weight s"
      using weight_delete [OF d jb] weight_update [OF d jb, of Started] Queued
      by (simp add: job_write_def job_weight_def split: option.splits)
    with jb Queued show ?thesis by (intro exI [of _ "Begin k 0"]) auto
  next
    case Started
    have "job_weight (job_write k (fail_task k 0 ''cancelled'' (srv_tasks s)) None s) < job_weight s"
      using weight_delete [OF d jb] Started by (simp add: job_write_def job_weight_def split: option.splits)
    with jb Started show ?thesis by (intro exI [of _ "Crash k 0 ''cancelled''"]) auto
  qed
qed

lemma run_events_drain:
  "server_inv s \<Longrightarrow> \<exists>es s'. run_events s es = Some s' \<and> server_inv s' \<and> srv_jobs s' = []"
proof (induction "job_weight s" arbitrary: s rule: less_induct)
  case less
  show ?case
  proof (cases "srv_jobs s = []")
    case True
    with less.prems show ?thesis by (intro exI [of _ "[]"]) auto
  next
    case False
    then obtain e s1 where st: "server_step s e = Some s1" and lt: "job_weight s1 < job_weight s"
      using server_step_progress [OF less.prems] by blast
    obtain es s' where "run_events s1 es = Some s'" "server_inv s'" "srv_jobs s' = []"
      using less.hyps [OF lt server_inv_step [OF less.prems st]] by blast
    with st show ?thesis by (intro exI [of _ "e # es"]) auto
  qed
qed

lemma reachable_run_events: "reachable s \<Longrightarrow> run_events s es = Some s' \<Longrightarrow> reachable s'"
  by (induction s es rule: run_events.induct) (auto intro: reachable.step split: option.splits)

lemma run_events_append:
  "run_events s (xs @ ys) = (case run_events s xs of None \<Rightarrow> None | Some s' \<Rightarrow> run_events s' ys)"
  by (induction s xs rule: run_events.induct) (auto split: option.splits)

lemma log_all_Some:
  "map_of reg tid = Some t \<Longrightarrow>
     log_all tid clk i evs reg = Some (AList.update tid (t\<lparr>task_logs := task_logs t @ stamp_logs clk i evs\<rparr>) reg)"
proof (induction evs arbitrary: i reg t)
  case Nil
  then show ?case by (simp add: update_triv)
next
  case (Cons ev evs)
  let ?t1 = "t\<lparr>task_logs := task_logs t @ [\<lparr>lg_timestamp = clk i, lg_level = event_level ev, lg_message = ev\<rparr>]\<rparr>"
  have lc: "log_callback tid (clk i) ev reg = Some (AList.update tid ?t1 reg)"
    using Cons.prems by (simp add: log_callback_def update_task_def)
  have "map_of (AList.update tid ?t1 reg) tid = Some ?t1" by (simp add: update_conv')
  from Cons.IH [OF this] lc show ?case by simp
qed

lemma log_events_run:
  assumes "map_of (srv_jobs s) tid = Some Started" "map_of (srv_tasks s) tid = Some t"
  shows "run_events s (log_events tid clk i evs) =
    Some (s\<lparr>srv_tasks := AList.update tid (t\<lparr>task_logs := task_logs t @ stamp_logs clk i evs\<rparr>) (srv_tasks s)\<rparr>)"
  using assms
proof (induction evs arbitrary: i s t)
  case Nil
  then show ?case by (simp add: update_triv)
next
  case (Cons ev evs)
  let ?t1 = "t\<lparr>task_logs := task_logs t @ [\<lparr>lg_timestamp = clk i, lg_level = event_level ev, lg_message = ev\<rparr>]\<rparr>"
  let ?s1 = "s\<lparr>srv_tasks := AList.update tid ?t1 (srv_tasks s)\<rparr>"
  have "server_step s (Log tid (clk i) ev) = Some ?s1"
    using Cons.prems by (simp add: log_callback_def update_task_def job_write_def update_triv)
  moreover have "map_of (srv_jobs ?s1) tid = Some Started" "map_of (srv_tasks ?s1) tid = Some ?t1"
    using Cons.prems by (simp_all add: update_conv')
  ultimately show ?case using Cons.IH by simp
qed

lemma begin_task_Some:
  "map_of reg tid = Some t \<Longrightarrow> begin_task tid now reg =
     Some (AList.update tid (t\<lparr>task_logs := [], task_status := ''running'', started_at := Some now\<rparr>) reg)"
  by (simp add: begin_task_def update_task_def)

lemma stamp_logs_messages [simp]: "map lg_message (stamp_logs clk i evs) = evs"
  by (induction evs arbitrary: i) simp_all

lemma run_automation_task_Some:
  assumes "map_of reg tid = Some t" "run_agent W goal m w = (out, w', st)"
  shows "\<exists>t'. run_automation_task W tid goal m w clk reg = (Some (AList.update tid t' reg), w')
    \<and> task_id t' = task_id t \<and> task_goal t' = task_goal t
    \<and> task_logs t' = stamp_logs clk 1 (logs st) \<and> started_at t' = Some (clk 0)
    \<and> completed_at t' = Some (clk (Suc (length (logs st))))
    \<and> (case out of
         Inr r \<Rightarrow> task_status t' = (if success r then ''completed'' else ''failed'')
           \<and> task_result t' = Some (result r) \<and> iterations_used t' = Some (iterations r)
           \<and> task_history t' = Some (res_history r) \<and> task_exec_log t' = Some (res_exec_log r)
           \<and> task_error t' = task_error t
       | Inl e \<Rightarrow> task_status t' = ''failed'' \<and> task_error t' = Some e \<and> task_result t' = task_result t
           \<and> iterations_used t' = iterations_used t \<and> task_history t' = task_history t
           \<and> task_exec_log t' = task_exec_log t)"
proof -
  let ?t1 = "t\<lparr>task_logs := [], task_status := ''running'', started_at := Some (clk 0)\<rparr>"
  have "map_of (AList.update tid ?t1 reg) tid = Some ?t1" by (simp add: update_conv')
  from log_all_Some [OF this, of clk 1 "logs st"] assms show ?thesis
    by (cases out) (auto simp: run_automation_task_def begin_task_Some finish_task_def fail_task_def
        update_task_def update_conv')
qed

lemma job_run_events:
  assumes jb: "map_of (srv_jobs s) tid = Some (Queued goal m)" and tk: "map_of (srv_tasks s) tid = Some t"
    and run: "run_automation_task W tid goal m w clk (srv_tasks s) = (Some reg', w')"
  shows "\<exists>es. run_events s es = Some (s\<lparr>srv_tasks := reg', srv_jobs := AList.delete tid (srv_jobs s)\<rparr>)"
proof -
  obtain out w'' st where ra: "run_agent W goal m w = (out, w'', st)" by (cases "run_agent W goal m w") auto
  let ?t1 = "t\<lparr>task_logs := [], task_status := ''running'', started_at := Some (clk 0)\<rparr>"
  let ?t2 = "?t1\<lparr>task_logs := task_logs ?t1 @ stamp_logs clk 1 (logs st)\<rparr>"
  let ?s1 = "s\<lparr>srv_tasks := AList.update tid ?t1 (srv_tasks s), srv_jobs := AList.update tid Started (srv_jobs s)\<rparr>"
  let ?s2 = "?s1\<lparr>srv_tasks := AList.update tid ?t2 (srv_tasks ?s1)\<rparr>"
  let ?n = "clk (Suc (length (logs st)))"
  have b: "server_step s (Begin tid (clk 0)) = Some ?s1"
    using jb tk by (simp add: begin_task_Some job_write_def)
  have l: "run_events ?s1 (log_events tid clk 1 (logs st)) = Some ?s2"
    by (rule log_events_run) (simp_all add: update_conv')
  have "map_of (AList.update tid ?t1 (srv_tasks s)) tid = Some ?t1" by (simp add: update_conv')
  from log_all_Some [OF this, of clk 1 "logs st"]
  have la: "log_all tid clk 1 (logs st) (AList.update tid ?t1 (srv_tasks s)) = Some (srv_tasks ?s2)" by simp
  have w: "w'' = w'" and fin: "(case out of Inr r \<Rightarrow> finish_task tid ?n r (srv_tasks ?s2)
                                    | Inl e \<Rightarrow> fail_task tid ?n e (srv_tasks ?s2)) = Some reg'"
    using run ra la tk by (auto simp: run_automation_task_def begin_task_Some split: sum.splits)
  have jb2: "map_of (srv_jobs ?s2) tid = Some Started" by (simp add: update_conv')
  have e: "server_step ?s2 (end_event tid ?n out) = Some (s\<lparr>srv_tasks := reg', srv_jobs := AList.delete tid (srv_jobs s)\<rparr>)"
    using fin jb2 by (cases out) (simp_all add: job_write_def delete_update_same)
  show ?thesis
    using b l e by (intro exI [of _ "Begin tid (clk 0) # log_events tid clk 1 (logs st) @ [end_event tid ?n out]"])
      (simp add: run_events_append)
qed

lemma demo_server_run: "run_events init_server demo_trace = Some demo_server"
proof -
  have "run_events init_server demo_trace \<noteq> None" by code_simp
  then show ?thesis by (auto simp: demo_server_def)
qed

lemma reachable_demo_server: "reachable demo_server"
  by (rule reachable_run_events [OF reachable.init demo_server_run])

subsection \<open>Properties of the registry\<close>

text \<open>C2. Every record in the registry of a reachable server is stored under its own
  \<open>task_id\<close> and is in one of the four states with exactly the fields that state sets.\<close>

theorem reachable_task_wf:
  assumes "reachable s" "map_of (srv_tasks s) k = Some t"
  shows "task_id t = k \<and> task_wf t"
  using reachable_server_inv [OF assms(1)] assms(2) by (simp add: server_inv_def)

theorem reachable_task_wf_witness:
  "task_id (the (map_of (srv_tasks demo_server) ''t1'')) = ''t1'' \<and> task_wf (the (map_of (srv_tasks demo_server) ''t1''))"
proof -
  have "map_of (srv_tasks demo_server) ''t1'' = Some (the (map_of (srv_tasks demo_server) ''t1''))" by code_simp
  from reachable_task_wf [OF reachable_demo_server this] show ?thesis .
qed

text \<open>A task that is pending or running shows no result, history or execution log:
  \<open>run_automation_task\<close> writes them only when the agent returns, so a poll sees the
  log lines of a running task but none of its iterations.\<close>

theorem running_hides_progress:
  assumes "reachable s" "map_of (srv_tasks s) k = Some t" "task_status t \<in> {''pending'', ''running''}"
  shows "task_result t = None \<and> task_history t = None \<and> task_exec_log t = None \<and> iterations_used t = None"
proof -
  have "task_wf t" using reachable_server_inv [OF assms(1)] assms(2) by (simp add: server_inv_def)
  with assms(3) show ?thesis by (auto simp: task_wf_def)
qed

theorem running_hides_progress_witness:
  "task_result (the (map_of (srv_tasks demo_server) ''t2'')) = None
   \<and> task_history (the (map_of (srv_tasks demo_server) ''t2'')) = None
   \<and> task_exec_log (the (map_of (srv_tasks demo_server) ''t2'')) = None
   \<and> iterations_used (the (map_of (srv_tasks demo_server) ''t2'')) = None"
proof (rule running_hides_progress [OF reachable_demo_server])
  show "map_of (srv_tasks demo_server) ''t2'' = Some (the (map_of (srv_tasks demo_server) ''t2''))" by code_simp
  show "task_status (the (map_of (srv_tasks demo_server) ''t2'')) \<in> {''pending'', ''running''}" by code_simp
qed

text \<open>C5. A completed or failed record never changes again; only its deletion removes it.\<close>

theorem terminal_record_final:
  assumes "reachable s" "server_step s e = Some s'" "map_of (srv_tasks s) k = Some t"
    and "task_status t \<in> {''completed'', ''failed''}"
  shows "map_of (srv_tasks s') k = (if e = Delete k then None else Some t)"
proof (cases "k = event_task e")
  case False
  with server_step_frame [OF assms(2)] assms(3) show ?thesis by (cases e) auto
next
  case True
  have inv: "server_inv s" using reachable_server_inv [OF assms(1)] .
  then have nojob: "map_of (srv_jobs s) k = None"
    using server_inv_no_job [OF _ assms(3)] assms(4) by auto
  have iss: "k \<in> set (issued s)" using inv assms(3) by (simp add: server_inv_def)
  show ?thesis using True assms(2,3) nojob iss
    by (cases e) (auto simp: delete_task_def delete_conv')
qed

theorem terminal_record_final_witness:
  "map_of (srv_tasks (the (server_step demo_server (Delete ''t1'')))) ''t1''
     = (if Delete ''t1'' = Delete ''t1'' then None else Some (the (map_of (srv_tasks demo_server) ''t1'')))"
proof (rule terminal_record_final [OF reachable_demo_server])
  show "server_step demo_server (Delete ''t1'') = Some (the (server_step demo_server (Delete ''t1'')))"
    by code_simp
  show "map_of (srv_tasks demo_server) ''t1'' = Some (the (map_of (srv_tasks demo_server) ''t1''))" by code_simp
  show "task_status (the (map_of (srv_tasks demo_server) ''t1'')) \<in> {''completed'', ''failed''}" by code_simp
qed

text \<open>C6. A deleted task never comes back: no handler and no background job recreates
  a record whose key was issued and is gone (a job of a deleted task only raises
  \<open>KeyError\<close>).\<close>

theorem deleted_stays_deleted:
  assumes "reachable s" "k \<in> set (issued s)" "map_of (srv_tasks s) k = None"
    and "server_step s e = Some s'"
  shows "map_of (srv_tasks s') k = None \<and> k \<in> set (issued s')"
proof -
  have "k \<in> set (issued s')" using assms(2,4)
    by (cases e) (auto simp: job_write_def split: if_splits option.splits sum.splits job.splits)
  with server_step_missing [OF assms(4,2,3)] show ?thesis by simp
qed

theorem deleted_stays_deleted_witness:
  "map_of (srv_tasks (the (server_step demo_server (Begin ''t4'' 6)))) ''t4'' = None
   \<and> ''t4'' \<in> set (issued (the (server_step demo_server (Begin ''t4'' 6))))"
proof (rule deleted_stays_deleted [OF reachable_demo_server])
  show "''t4'' \<in> set (issued demo_server)" by code_simp
  show "map_of (srv_tasks demo_server) ''t4'' = None" by code_simp
  show "server_step demo_server (Begin ''t4'' 6) = Some (the (server_step demo_server (Begin ''t4'' 6)))" by code_simp
qed

text \<open>C20. Single writer: an event changes at most the record of the task it names.\<close>

theorem single_writer:
  assumes "server_step s e = Some s'" "k \<noteq> event_task e"
  shows "map_of (srv_tasks s') k = map_of (srv_tasks s) k"
  using server_step_frame [OF assms] .

theorem single_writer_witness:
  "map_of (srv_tasks (the (server_step demo_server (Crash ''t2'' 6 ''boom'')))) ''t3'' = map_of (srv_tasks demo_server) ''t3''"
proof (rule single_writer)
  show "server_step demo_server (Crash ''t2'' 6 ''boom'') = Some (the (server_step demo_server (Crash ''t2'' 6 ''boom'')))"
    by code_simp
qed simp

text \<open>C21. The log of a record only grows: whatever the event, the record's entries
  before it are a prefix of its entries after it (the reset at the job's start meets
  a pending record, whose log is empty).\<close>

theorem logs_only_grow:
  assumes "reachable s" "server_step s e = Some s'"
    and "map_of (srv_tasks s) k = Some t" "map_of (srv_tasks s') k = Some t'"
  shows "prefix (task_logs t) (task_logs t')"
proof (cases "k = event_task e")
  case False
  with server_step_frame [OF assms(2)] assms(3,4) show ?thesis by simp
next
  case True
  have inv: "server_inv s" using reachable_server_inv [OF assms(1)] .
  have iss: "k \<in> set (issued s)" using inv assms(3) by (simp add: server_inv_def)
  show ?thesis
  proof (cases e)
    case (Begin tid now)
    with assms(2) True obtain g m where "map_of (srv_jobs s) k = Some (Queued g m)"
      by (auto split: option.splits job.splits)
    with inv assms(3) have "task_status t = ''pending''" "task_wf t" by (auto simp: server_inv_def)
    then show ?thesis by (simp add: task_wf_pending_logs)
  qed (use True iss assms(2-4) in \<open>auto simp: job_write_def create_automation_task_def delete_task_def
         log_callback_def finish_task_def fail_task_def update_task_def update_conv' delete_conv'
         split: if_splits option.splits sum.splits\<close>)
qed

theorem logs_only_grow_witness:
  "prefix (task_logs (the (map_of (srv_tasks demo_server) ''t2'')))
     (task_logs (the (map_of (srv_tasks (the (server_step demo_server (Log ''t2'' 6 (LogGoal ''Search''))))) ''t2'')))"
proof (rule logs_only_grow [OF reachable_demo_server])
  show "server_step demo_server (Log ''t2'' 6 (LogGoal ''Search'')) = Some (the (server_step demo_server (Log ''t2'' 6 (LogGoal ''Search''))))"
    by code_simp
  show "map_of (srv_tasks demo_server) ''t2'' = Some (the (map_of (srv_tasks demo_server) ''t2''))" by code_simp
  show "map_of (srv_tasks (the (server_step demo_server (Log ''t2'' 6 (LogGoal ''Search''))))) ''t2''
    = Some (the (map_of (srv_tasks (the (server_step demo_server (Log ''t2'' 6 (LogGoal ''Search''))))) ''t2''))" by code_simp
qed

lemma running_job_started:
  assumes "server_inv s" "map_of (srv_tasks s) k = Some t" "task_status t = ''running''"
  shows "map_of (srv_jobs s) k = Some Started \<and> k \<in> set (issued s)"
proof -
  have iss: "k \<in> set (issued s)" and ex: "map_of (srv_jobs s) k \<noteq> None"
    using assms by (auto simp: server_inv_def)
  then obtain j where j: "map_of (srv_jobs s) k = Some j" by blast
  with assms(1,2) have "task_status t = job_status j" by (auto simp: server_inv_def)
  with assms(3) have "j = Started" by (cases j) simp_all
  with j iss show ?thesis by simp
qed

text \<open>C28. While a task runs, a poll sees only its logs change: every event that leaves
  a running record running keeps its status, goal, start time and every other field,
  and only appends to its logs; the iterations, history and result appear only when
  the job ends.\<close>

theorem running_record_only_logs:
  assumes "reachable s" "server_step s e = Some s'"
    and "map_of (srv_tasks s) k = Some t" "task_status t = ''running''"
    and "map_of (srv_tasks s') k = Some t'" "task_status t' = ''running''"
  shows "\<exists>new. t' = t\<lparr>task_logs := task_logs t @ new\<rparr>"
proof (cases "k = event_task e")
  case False
  with server_step_frame [OF assms(2)] assms(3,5) have "t' = t" by simp
  then show ?thesis by (intro exI [of _ "[]"]) simp
next
  case True
  have inv: "server_inv s" using reachable_server_inv [OF assms(1)] .
  have job: "map_of (srv_jobs s) k = Some Started" and iss: "k \<in> set (issued s)"
    using running_job_started [OF inv assms(3,4)] by simp_all
  show ?thesis
  proof (cases e)
    case (Log tid now ev)
    with True job assms(2,3,5)
    have "t' = t\<lparr>task_logs := task_logs t @ [\<lparr>lg_timestamp = now, lg_level = event_level ev, lg_message = ev\<rparr>]\<rparr>"
      by (auto simp: job_write_def log_callback_def update_task_def update_conv' split: option.splits)
    then show ?thesis by blast
  qed (use True iss job assms(2-6) in \<open>auto simp: job_write_def create_automation_task_def delete_task_def
         finish_task_def fail_task_def update_task_def update_conv' delete_conv'
         split: if_splits option.splits sum.splits job.splits\<close>)
qed

theorem running_record_only_logs_witness:
  "\<exists>new. the (map_of (srv_tasks (the (server_step demo_server (Log ''t2'' 6 (LogGoal ''Search''))))) ''t2'')
     = (the (map_of (srv_tasks demo_server) ''t2''))\<lparr>task_logs := task_logs (the (map_of (srv_tasks demo_server) ''t2'')) @ new\<rparr>"
proof (rule running_record_only_logs [OF reachable_demo_server])
  show "server_step demo_server (Log ''t2'' 6 (LogGoal ''Search'')) = Some (the (server_step demo_server (Log ''t2'' 6 (LogGoal ''Search''))))"
    by code_simp
  show "map_of (srv_tasks demo_server) ''t2'' = Some (the (map_of (srv_tasks demo_server) ''t2''))" by code_simp
  show "task_status (the (map_of (srv_tasks demo_server) ''t2'')) = ''running''" by code_simp
  show "map_of (srv_tasks (the (server_step demo_server (Log ''t2'' 6 (LogGoal ''Search''))))) ''t2''
    = Some (the (map_of (srv_tasks (the (server_step demo_server (Log ''t2'' 6 (LogGoal ''Search''))))) ''t2''))" by code_simp
  show "task_status (the (map_of (srv_tasks (the (server_step demo_server (Log ''t2'' 6 (LogGoal ''Search''))))) ''t2'')) = ''running''"
    by code_simp
qed

text \<open>C31. The health report's counts by status add up to the number of tasks: every
  record's status is one of the four it counts.\<close>

theorem health_counts_total:
  assumes "reachable s"
  shows "sum_list (map snd (tasks_by_status (health_check key (srv_tasks s))))
    = tasks_count (health_check key (srv_tasks s))"
proof -
  have "\<forall>t\<in>set (map snd (srv_tasks s)). task_status t \<in> set TASK_STATUSES"
  proof
    fix t assume "t \<in> set (map snd (srv_tasks s))"
    then obtain k where "(k, t) \<in> set (srv_tasks s)" by auto
    moreover have "distinct (map fst (srv_tasks s))"
      using reachable_server_inv [OF assms] by (simp add: server_inv_def)
    ultimately have "map_of (srv_tasks s) k = Some t" by simp
    then have "task_wf t"
      using reachable_server_inv [OF assms] by (simp add: server_inv_def)
    then show "task_status t \<in> set TASK_STATUSES" by (rule task_wf_status)
  qed
  moreover have "distinct TASK_STATUSES" by (simp add: TASK_STATUSES_def)
  ultimately show ?thesis
    using sum_count_status [of "map snd (srv_tasks s)" task_status TASK_STATUSES]
    by (simp add: health_check_def count_status_def comp_def)
qed

theorem health_counts_total_witness:
  "sum_list (map snd (tasks_by_status (health_check (Some ''key'') (srv_tasks demo_server))))
    = tasks_count (health_check (Some ''key'') (srv_tasks demo_server))"
  by (rule health_counts_total [OF reachable_demo_server])

text \<open>C32. Listing with a non-empty status and a non-negative limit returns at most
  \<open>limit\<close> tasks, all in that status; \<open>total\<close> is the number of tasks in that status
  and \<open>showing\<close> the number returned.\<close>

theorem list_tasks_filter:
  assumes "st \<noteq> []" "0 \<le> limit" "list_tasks reg limit (Some st) = (ts, n_total, n_showing)"
  shows "(\<forall>t\<in>set ts. task_status t = st) \<and> n_total = int (count_status reg st)
    \<and> n_showing = int (length ts) \<and> length ts \<le> nat limit"
  using assms by (auto simp: list_tasks_def Let_def py_take_def count_status_def min_def dest: in_set_takeD)

theorem list_tasks_filter_witness:
  "list_all (\<lambda>t. task_status t = ''running'') (fst (list_tasks (srv_tasks demo_server) 10 (Some ''running'')))
   \<and> fst (snd (list_tasks (srv_tasks demo_server) 10 (Some ''running''))) = int (count_status (srv_tasks demo_server) ''running'')
   \<and> snd (snd (list_tasks (srv_tasks demo_server) 10 (Some ''running''))) = int (length (fst (list_tasks (srv_tasks demo_server) 10 (Some ''running''))))
   \<and> length (fst (list_tasks (srv_tasks demo_server) 10 (Some ''running''))) \<le> nat 10"
proof -
  have "(\<forall>t\<in>set (fst (list_tasks (srv_tasks demo_server) 10 (Some ''running''))). task_status t = ''running'')
   \<and> fst (snd (list_tasks (srv_tasks demo_server) 10 (Some ''running''))) = int (count_status (srv_tasks demo_server) ''running'')
   \<and> snd (snd (list_tasks (srv_tasks demo_server) 10 (Some ''running''))) = int (length (fst (list_tasks (srv_tasks demo_server) 10 (Some ''running''))))
   \<and> length (fst (list_tasks (srv_tasks demo_server) 10 (Some ''running''))) \<le> nat 10"
    by (rule list_tasks_filter) simp_all
  then show ?thesis by (simp add: list_all_iff)
qed

text \<open>C33. A negative limit is not rejected: the slice \<open>[:limit]\<close> drops the last
  \<open>-limit\<close> tasks and \<open>showing\<close> reports the negative limit itself.\<close>

theorem list_tasks_negative_limit:
  assumes "limit < 0" "list_tasks reg limit None = (ts, n_total, n_showing)"
  shows "n_showing = limit \<and> ts = take (nat (int (length reg) + limit)) (map snd reg)
    \<and> n_total = int (length reg)"
  using assms by (auto simp: list_tasks_def Let_def py_take_def)

theorem list_tasks_negative_limit_witness:
  "snd (snd (list_tasks (srv_tasks demo_server) (-1) None)) = -1
   \<and> fst (list_tasks (srv_tasks demo_server) (-1) None) = take (nat (int (length (srv_tasks demo_server)) + -1)) (map snd (srv_tasks demo_server))
   \<and> fst (snd (list_tasks (srv_tasks demo_server) (-1) None)) = int (length (srv_tasks demo_server))"
  by (rule list_tasks_negative_limit) simp_all

text \<open>A submission is rejected (422) exactly when \<open>max_iterations\<close> is an integer
  outside 5..30; then no record is created.  An explicit \<open>null\<close> is accepted and
  queues the job with no budget.\<close>

theorem create_validation:
  "(\<exists>e. create_automation_task reg tid goal mi = Inl e) \<longleftrightarrow> (\<exists>n. mi = IntVal n \<and> (n < 5 \<or> 30 < n))"
  by (auto simp: create_automation_task_def validate_max_iterations_def split: json_int.splits sum.splits)

theorem create_validation_witness:
  "(\<exists>e. create_automation_task [] ''t9'' ''goal'' (IntVal 31) = Inl e) \<and> \<not> (\<exists>e. create_automation_task [] ''t9'' ''goal'' Null = Inl e)"
  using create_validation [of "[]" "''t9''" "''goal''" "IntVal 31"] create_validation [of "[]" "''t9''" "''goal''" Null]
  by simp

text \<open>A submission that passes validation creates a pending record with every
  result field empty, which a poll returns, and answers with status \<open>pending\<close>.\<close>

theorem submit_then_get:
  assumes "create_automation_task reg tid goal mi = Inr (reg', j, resp)"
  shows "get_task_status reg' tid = Inr (new_task tid goal) \<and> resp_status resp = ''pending''
    \<and> resp_task_id resp = tid \<and> task_status (new_task tid goal) = ''pending''"
  using assms by (auto simp: create_automation_task_def get_task_status_def update_conv' new_task_def
      split: sum.splits)

theorem submit_then_get_witness:
  "get_task_status (fst (projr (create_automation_task [] ''t9'' ''goal'' Absent))) ''t9'' = Inr (new_task ''t9'' ''goal'')
   \<and> resp_status (snd (snd (projr (create_automation_task [] ''t9'' ''goal'' Absent)))) = ''pending''
   \<and> resp_task_id (snd (snd (projr (create_automation_task [] ''t9'' ''goal'' Absent)))) = ''t9''
   \<and> task_status (new_task ''t9'' ''goal'') = ''pending''"
proof (rule submit_then_get)
  show "create_automation_task [] ''t9'' ''goal'' Absent =
      Inr (fst (projr (create_automation_task [] ''t9'' ''goal'' Absent)),
           fst (snd (projr (create_automation_task [] ''t9'' ''goal'' Absent))),
           snd (snd (projr (create_automation_task [] ''t9'' ''goal'' Absent))))"
    by code_simp
qed

text \<open>After a deletion a poll of the task answers 404 and every other task reads
  as before.\<close>

theorem delete_then_not_found:
  "delete_task reg tid = Inr reg' \<Longrightarrow>
     get_task_status reg' tid = Inl TASK_NOT_FOUND \<and> (\<forall>k. k \<noteq> tid \<longrightarrow> get_task_status reg' k = get_task_status reg k)"
  by (auto simp: delete_task_def get_task_status_def delete_conv' split: if_splits)

theorem delete_then_not_found_witness:
  "get_task_status (projr (delete_task (srv_tasks demo_server) ''t1'')) ''t1'' = Inl TASK_NOT_FOUND
   \<and> get_task_status (projr (delete_task (srv_tasks demo_server) ''t1'')) ''t2''
        = get_task_status (srv_tasks demo_server) ''t2''"
proof -
  have "delete_task (srv_tasks demo_server) ''t1'' = Inr (projr (delete_task (srv_tasks demo_server) ''t1''))" by code_simp
  from delete_then_not_found [OF this] show ?thesis by simp
qed

text \<open>C19. No task is stuck: from every reachable state, the live background jobs can
  run to their end, after which no job is left and every record is completed or
  failed.\<close>

theorem tasks_can_finish:
  assumes "reachable s"
  shows "\<exists>es s'. run_events s es = Some s' \<and> reachable s' \<and> srv_jobs s' = []
    \<and> (\<forall>k t. map_of (srv_tasks s') k = Some t \<longrightarrow> task_status t \<in> {''completed'', ''failed''})"
proof -
  obtain es s' where r: "run_events s es = Some s'" and inv: "server_inv s'" and nj: "srv_jobs s' = []"
    using run_events_drain [OF reachable_server_inv [OF assms]] by blast
  have "task_status t \<in> {''completed'', ''failed''}" if "map_of (srv_tasks s') k = Some t" for k t
    using inv nj that task_wf_status [of t] by (auto simp: server_inv_def TASK_STATUSES_def)
  with r nj reachable_run_events [OF assms r] show ?thesis by blast
qed

theorem tasks_can_finish_witness:
  "\<exists>es s'. run_events demo_server es = Some s' \<and> reachable s' \<and> srv_jobs s' = []
    \<and> (\<forall>k t. map_of (srv_tasks s') k = Some t \<longrightarrow> task_status t \<in> {''completed'', ''failed''})"
  by (rule tasks_can_finish [OF reachable_demo_server])

end
