(* ===== verification/Http_App.thy ===== *)
theory Http_App
  imports Task_Manager
begin

text \<open>
  The FastAPI application of \<open>src/main.py\<close> as configuration data: its metadata
  (lines 11--15), its CORS middleware (lines 17--23), its route table (the decorators
  of lines 93--179, each naming the handler of \<open>Task_Manager\<close> it runs) and the
  address \<open>uvicorn\<close> serves it on (lines 188--190).  The lemma checks the info of
  \<open>GET /\<close> against them: the name, the version and the listed endpoints are those of
  the application.
\<close>

record app_meta =
  app_title :: pystr
  app_description :: pystr
  app_version :: pystr

text \<open>Lines 11--15.\<close>

definition app :: app_meta where
  "app = \<lparr>app_title = ''Playwright Browser Automation API'',
          app_description = ''AI-powered browser automation using Gemini + Playwright MCP'',
          app_version = ''1.0.0''\<rparr>"

record cors_config =
  allow_origins :: "pystr list"
  allow_credentials :: bool
  allow_methods :: "pystr list"
  allow_headers :: "pystr list"

text \<open>Lines 17--23.\<close>

definition cors :: cors_config where
  "cors = \<lparr>allow_origins = [''*''], allow_credentials = True, allow_methods = [''*''], allow_headers = [''*'']\<rparr>"

datatype http_method = GET | POST | DELETE

fun method_name :: "http_method \<Rightarrow> pystr" where
  "method_name GET = ''GET''"
| "method_name POST = ''POST''"
| "method_name DELETE = ''DELETE''"

text \<open>Lines 93--179: the route decorators in declaration order, with the handler each
  one registers.\<close>

definition app_routes :: "(http_method \<times> pystr \<times> pystr) list" where
  "app_routes =
     [(GET, ''/'', ''root''),
      (POST, ''/automate'', ''create_automation_task''),
      (GET, ''/task/{task_id}'', ''get_task_status''),
      (GET, ''/tasks'', ''list_tasks''),
      (GET, ''/health'', ''health_check''),
      (DELETE, ''/task/{task_id}'', ''delete_task'')]"

text \<open>Lines 188--190: \<open>uvicorn.run(app, host=..., port=...)\<close>.\<close>

definition serve_address :: "pystr \<times> nat" where
  "serve_address = (''0.0.0.0'', 8000)"

text \<open>How the root info names a route: method, a space, the path.\<close>

fun route_label :: "http_method \<times> pystr \<times> pystr \<Rightarrow> pystr" where
  "route_label (m, p, _) = method_name m @ '' '' @ p"

text \<open>The info of \<open>GET /\<close> describes the application it is served by: its name
  and version are the application's title and version, and its endpoint list names
  each route of the application other than \<open>/\<close> itself exactly once, together with the
  two documentation pages FastAPI adds, and nothing else (in an order of its own:
  \<open>DELETE\<close> comes before \<open>/health\<close>).\<close>

theorem root_describes_app:
  "api_name root = app_title app \<and> api_version root = app_version app
   \<and> distinct (map fst (api_endpoints root))
   \<and> set (map fst (api_endpoints root)) =
       set (map route_label (filter (\<lambda>(m, p, h). p \<noteq> ''/'') app_routes)) \<union> {''GET /docs'', ''GET /redoc''}"
  by code_simp

end
