(* ===== verification/Prompt_Examples.thy ===== *)
theory Prompt_Examples
  imports Response_Parser Catalog
begin

text \<open>
  The reply examples that \<open>SYSTEM_PROMPT_MANUAL\<close> (\<open>src/prompt.py\<close>) shows the
  model, as data, and what \<open>parse_response\<close> makes of each when the model returns it
  verbatim.  Double and single quotes of the examples are written as \<open>DQ\<close> and \<open>SQ\<close> of the prelude.
\<close>

text \<open>Lines 175--180: the block \<open>EXAMPLES:\<close> after \<open>RESPONSE FORMAT\<close>, one reply per line.\<close>

definition PROMPT_FORMAT_EXAMPLES :: "pystr list" where
  "PROMPT_FORMAT_EXAMPLES =
     [''TOOL_CALL: playwright_navigate | https://amazon.com'',
      ''TOOL_CALL: playwright_fill | input[id='' @ DQ @ ''twotabsearchtextbox'' @ DQ @ ''] | laptop'',
      ''TOOL_CALL: playwright_click | input[id='' @ DQ @ ''nav-search-submit-button'' @ DQ @ '']'',
      ''TOOL_CALL: playwright_evaluate | window.scrollBy(0, 500)'',
      ''TOOL_CALL: playwright_evaluate | document.querySelector('' @ SQ @ ''.a-price-whole'' @ SQ @ '')?.textContent'',
      ''FINAL_ANSWER: The price is $899.00'']"

text \<open>Lines 280--285: the \<open>WORKFLOW EXAMPLE\<close>, whose replies carry a \<open>Step n:\<close> prefix.\<close>

definition WORKFLOW_EXAMPLE :: "pystr list" where
  "WORKFLOW_EXAMPLE =
     [''Step 1: TOOL_CALL: playwright_navigate | https://amazon.com'',
      ''Step 2: TOOL_CALL: playwright_fill | input[id='' @ DQ @ ''twotabsearchtextbox'' @ DQ @ ''] | MacBook'',
      ''Step 3: TOOL_CALL: playwright_click | input[id='' @ DQ @ ''nav-search-submit-button'' @ DQ @ '']'',
      ''Step 4: TOOL_CALL: playwright_evaluate | window.scrollBy(0, 500)'',
      ''Step 5: TOOL_CALL: playwright_evaluate | document.querySelector('' @ SQ @ ''.a-price-whole'' @ SQ @ '')?.textContent'',
      ''Step 6: FINAL_ANSWER: The price is $1,299.00'']"

text \<open>Lines 150--160: the fixed tool list of the prompt, in the digest's line format
  except for the description appended to \<open>playwright_evaluate\<close>.\<close>

definition PROMPT_TOOL_LIST :: "pystr list" where
  "PROMPT_TOOL_LIST =
     [BULLET @ '' playwright_navigate(url)'',
      BULLET @ '' playwright_evaluate(script) - JavaScript execution'',
      BULLET @ '' playwright_click(selector)'',
      BULLET @ '' playwright_fill(selector, value)'',
      BULLET @ '' playwright_press_key(key)'',
      BULLET @ '' playwright_screenshot(name)'',
      BULLET @ '' playwright_select(selector, value)'',
      BULLET @ '' playwright_hover(selector)'',
      BULLET @ '' playwright_get_visible_text(none)'',
      BULLET @ '' playwright_go_back(none)'',
      BULLET @ '' playwright_go_forward(none)'']"

text \<open>Every reply of the prompt's format examples parses as the prompt means it:
  the tool and its values, the JavaScript of \<open>playwright_evaluate\<close> as one value, and
  the final answer.\<close>

theorem prompt_examples_parse:
  "map (parse_response \<circ> py_strip) PROMPT_FORMAT_EXAMPLES =
     [ToolCall ''playwright_navigate'' [''https://amazon.com''],
      ToolCall ''playwright_fill'' [''input[id='' @ DQ @ ''twotabsearchtextbox'' @ DQ @ '']'', ''laptop''],
      ToolCall ''playwright_click'' [''input[id='' @ DQ @ ''nav-search-submit-button'' @ DQ @ '']''],
      ToolCall ''playwright_evaluate'' [''window.scrollBy(0, 500)''],
      ToolCall ''playwright_evaluate'' [''document.querySelector('' @ SQ @ ''.a-price-whole'' @ SQ @ '')?.textContent''],
      FinalAnswer ''The price is $899.00'']"
  by code_simp

text \<open>A model that copies the workflow example verbatim gets nothing done: each
  tool call is rejected (its line does not start with the marker), and the answer keeps
  the \<open>Step 6:\<close> prefix.\<close>

theorem workflow_example_misparses:
  "map (parse_response \<circ> py_strip) WORKFLOW_EXAMPLE =
     [NoValidToolCall, NoValidToolCall, NoValidToolCall, NoValidToolCall, NoValidToolCall,
      FinalAnswer ''Step 6:  The price is $1,299.00'']"
  by code_simp

text \<open>Read as digest lines, the fixed list gives every tool with its parameters,
  except \<open>playwright_evaluate\<close>, whose line does not end in its parameter list.\<close>

lemma prompt_tool_list_read:
  "map parse_digest_line PROMPT_TOOL_LIST =
     [Some (''playwright_navigate'', [''url'']), None, Some (''playwright_click'', [''selector'']),
      Some (''playwright_fill'', [''selector'', ''value'']), Some (''playwright_press_key'', [''key'']),
      Some (''playwright_screenshot'', [''name'']), Some (''playwright_select'', [''selector'', ''value'']),
      Some (''playwright_hover'', [''selector'']), Some (''playwright_get_visible_text'', []),
      Some (''playwright_go_back'', []), Some (''playwright_go_forward'', [])]"
  by code_simp

end
