(* ===== verification/Prompt_Manual.thy ===== *)
theory Prompt_Manual
  imports Prompt_Examples Agent_Loop
begin

text \<open>
  The instruction text \<open>SYSTEM_PROMPT_MANUAL\<close> of \<open>src/prompt.py\<close> (lines 144--289)
  as the list of its lines, one definition per section of the text, and the prompt
  strings that \<open>run_agent\<close> builds from it (\<open>src/agent.py\<close> lines 84--101).  The
  replies the manual shows the model reuse the constants of \<open>Prompt_Examples\<close>.
  Single and double quotes are \<open>SQ\<close> and \<open>DQ\<close>; a symbol beyond Latin-1 (the box
  rules, arrows and check marks) is the list of its UTF-8 bytes, the form in which the
  prompt is sent: no code of the program reads the manual back, so the encoding is
  not observed by it.
\<close>

subsection \<open>Symbols\<close>

text \<open>U+2550, the box-drawing double horizontal of the section rules.\<close>

definition BOX_DOUBLE :: pystr where
  "BOX_DOUBLE = [CHR 0xE2, CHR 0x95, CHR 0x90]"

text \<open>U+2192 and U+2190.\<close>

definition RIGHT_ARROW :: pystr where
  "RIGHT_ARROW = [CHR 0xE2, CHR 0x86, CHR 0x92]"

definition LEFT_ARROW :: pystr where
  "LEFT_ARROW = [CHR 0xE2, CHR 0x86, CHR 0x90]"

text \<open>U+2713, U+2705 and U+274C.\<close>

definition CHECK_MARK :: pystr where
  "CHECK_MARK = [CHR 0xE2, CHR 0x9C, CHR 0x93]"

definition CHECK_BUTTON :: pystr where
  "CHECK_BUTTON = [CHR 0xE2, CHR 0x9C, CHR 0x85]"

definition CROSS_MARK :: pystr where
  "CROSS_MARK = [CHR 0xE2, CHR 0x9D, CHR 0x8C]"

text \<open>The rule above and below each section title: 59 box characters.\<close>

definition RULE_LINE :: pystr where
  "RULE_LINE = concat (replicate 59 BOX_DOUBLE)"

subsection \<open>The sections of the manual\<close>

text \<open>Lines 144--145.\<close>

definition MANUAL_INTRO :: "pystr list" where
  "MANUAL_INTRO =
     [''You are a web automation agent executing ONE tool call at a time.'',
      []]"

text \<open>Lines 146--161.\<close>

definition MANUAL_TOOLS :: "pystr list" where
  "MANUAL_TOOLS =
     [RULE_LINE,
      ''AVAILABLE TOOLS'',
      RULE_LINE,
      []] @
     PROMPT_TOOL_LIST @
     [[]]"

text \<open>Lines 162--181.\<close>

definition MANUAL_FORMAT :: "pystr list" where
  "MANUAL_FORMAT =
     [RULE_LINE,
      ''RESPONSE FORMAT (CRITICAL)'',
      RULE_LINE,
      [],
      ''Return EXACTLY ONE of these formats:'',
      [],
      ''TOOL_CALL: tool_name | param1 | param2 | param3'',
      [],
      ''or when task complete:'',
      [],
      ''FINAL_ANSWER: your answer'',
      [],
      ''EXAMPLES:''] @
     PROMPT_FORMAT_EXAMPLES @
     [[]]"

text \<open>Lines 182--192.\<close>

definition MANUAL_RULES :: "pystr list" where
  "MANUAL_RULES =
     [RULE_LINE,
      ''CRITICAL RULES'',
      RULE_LINE,
      [],
      ''1. Return EXACTLY ONE tool call per response'',
      ''2. NO explanations, NO thinking out loud, NO multiple tool calls'',
      ''3. Just the format: TOOL_CALL: tool_name | param1 | param2'',
      ''4. For playwright_evaluate, keep entire JavaScript as ONE parameter (don'' @ SQ @ ''t split on || or other operators)'',
      ''5. When you get valid data, immediately return FINAL_ANSWER'',
      ''6. Use previous action results to decide next step'',
      []]"

text \<open>Lines 193--205.\<close>

definition MANUAL_SITES :: "pystr list" where
  "MANUAL_SITES =
     [RULE_LINE,
      ''SITE-SPECIFIC KNOWLEDGE'',
      RULE_LINE,
      [],
      ''Google:'',
      ''- Search box: textarea[name='' @ DQ @ ''q'' @ DQ @ ''] (NOT input)'',
      ''- Fill and submit: (function(){ const box = document.querySelector('' @ SQ @ ''textarea[name='' @ DQ @ ''q'' @ DQ @ '']'' @ SQ @ ''); if(box) { box.value='' @ SQ @ ''query'' @ SQ @ ''; box.form.submit(); return '' @ SQ @ ''Done'' @ SQ @ ''; } })()'',
      [],
      ''Amazon:'',
      ''- Search box: input[id='' @ DQ @ ''twotabsearchtextbox'' @ DQ @ '']'',
      ''- Search button: input[id='' @ DQ @ ''nav-search-submit-button'' @ DQ @ '']'',
      ''- Price: document.querySelector('' @ SQ @ ''.a-price-whole'' @ SQ @ '')?.textContent'',
      []]"

text \<open>Lines 206--229.\<close>

definition MANUAL_SCROLLING :: "pystr list" where
  "MANUAL_SCROLLING =
     [RULE_LINE,
      ''SCROLLING (CRITICAL - USE ONLY THESE PATTERNS)'',
      RULE_LINE,
      [],
      CHECK_BUTTON @ '' WORKS - Simple synchronous scroll:'',
      ''TOOL_CALL: playwright_evaluate | window.scrollBy(0, 800); '' @ SQ @ ''Scrolled'' @ SQ,
      [],
      CHECK_BUTTON @ '' WORKS - Scroll to bottom:'',
      ''TOOL_CALL: playwright_evaluate | window.scrollTo(0, document.body.scrollHeight); '' @ SQ @ ''Scrolled to bottom'' @ SQ,
      [],
      CHECK_BUTTON @ '' WORKS - Multiple scrolls (call multiple times, NOT in a loop):'',
      ''Iteration 1: TOOL_CALL: playwright_evaluate | window.scrollBy(0, 600); '' @ SQ @ ''Scroll 1'' @ SQ,
      ''Iteration 2: TOOL_CALL: playwright_evaluate | window.scrollBy(0, 600); '' @ SQ @ ''Scroll 2'' @ SQ,
      ''Iteration 3: TOOL_CALL: playwright_evaluate | window.scrollBy(0, 600); '' @ SQ @ ''Scroll 3'' @ SQ,
      [],
      CROSS_MARK @ '' DOES NOT WORK - Async IIFE:'',
      ''TOOL_CALL: playwright_evaluate | (async () => { ... await ... })()  '' @ LEFT_ARROW @ '' FAILS'',
      [],
      CROSS_MARK @ '' DOES NOT WORK - For loops with await:'',
      ''TOOL_CALL: playwright_evaluate | for(let i=0; i<3; i++) { ... await ... }  '' @ LEFT_ARROW @ '' FAILS'',
      [],
      ''RULE: Always use simple, synchronous JavaScript. No async, no await, no promises.'',
      ''If you need multiple scrolls, call the tool multiple times.'',
      []]"

text \<open>Lines 230--245.\<close>

definition MANUAL_EXTRACTION :: "pystr list" where
  "MANUAL_EXTRACTION =
     [RULE_LINE,
      ''DATA EXTRACTION'',
      RULE_LINE,
      [],
      ''Single element:'',
      ''TOOL_CALL: playwright_evaluate | document.querySelector('' @ SQ @ ''h1'' @ SQ @ '')?.textContent'',
      [],
      ''Multiple elements:'',
      ''TOOL_CALL: playwright_evaluate | Array.from(document.querySelectorAll('' @ SQ @ ''.product'' @ SQ @ '')).slice(0,5).map(p => p.textContent)'',
      [],
      ''Prices:'',
      ''TOOL_CALL: playwright_evaluate | document.querySelector('' @ SQ @ ''[class*='' @ DQ @ ''price'' @ DQ @ '']'' @ SQ @ '')?.textContent'',
      [],
      ''Complex extraction:'',
      ''TOOL_CALL: playwright_evaluate | Array.from(document.querySelectorAll('' @ SQ @ ''.item'' @ SQ @ '')).map(i => ({name: i.querySelector('' @ SQ @ ''h3'' @ SQ @ '')?.textContent, price: i.querySelector('' @ SQ @ ''.price'' @ SQ @ '')?.textContent}))'',
      []]"

text \<open>Lines 246--259.\<close>

definition MANUAL_RECOVERY :: "pystr list" where
  "MANUAL_RECOVERY =
     [RULE_LINE,
      ''ERROR RECOVERY (CRITICAL)'',
      RULE_LINE,
      [],
      ''If a tool call FAILS (you see '' @ DQ @ ''FAILED'' @ DQ @ '' or '' @ DQ @ ''error'' @ DQ @ '' in the result):'',
      ''1. DO NOT retry the exact same command'',
      ''2. Try a different approach:'',
      ''   - If scroll failed '' @ RIGHT_ARROW @ '' try simpler scroll or skip scrolling'',
      ''   - If selector failed '' @ RIGHT_ARROW @ '' try different selector or use playwright_evaluate to find it'',
      ''   - If extraction failed '' @ RIGHT_ARROW @ '' try different selector or scroll first'',
      [],
      ''NEVER repeat the same failed command more than once.'',
      ''If it fails twice, move on to alternative approach or return FINAL_ANSWER with what you have.'',
      []]"

text \<open>Lines 260--275.\<close>

definition MANUAL_DECISIONS :: "pystr list" where
  "MANUAL_DECISIONS =
     [RULE_LINE,
      ''DECISION MAKING'',
      RULE_LINE,
      [],
      CHECK_MARK @ '' When playwright_evaluate returns valid data (not null/undefined):'',
      ''  '' @ RIGHT_ARROW @ '' Return FINAL_ANSWER immediately with the extracted data'',
      [],
      CHECK_MARK @ '' When action succeeds (navigate, click, fill):'',
      ''  '' @ RIGHT_ARROW @ '' Proceed to next logical step'',
      [],
      CHECK_MARK @ '' When action fails (timeout, error):'',
      ''  '' @ RIGHT_ARROW @ '' Try alternative approach or inspect page first'',
      [],
      CHECK_MARK @ '' Don'' @ SQ @ ''t retry same extraction if it already worked'',
      CHECK_MARK @ '' Don'' @ SQ @ ''t keep calling tools if you have the answer'',
      []]"

text \<open>Lines 276--286.\<close>

definition MANUAL_WORKFLOW :: "pystr list" where
  "MANUAL_WORKFLOW =
     [RULE_LINE,
      ''WORKFLOW EXAMPLE'',
      RULE_LINE,
      []] @
     WORKFLOW_EXAMPLE @
     [[]]"

text \<open>Lines 287--289.\<close>

definition MANUAL_CLOSING :: "pystr list" where
  "MANUAL_CLOSING =
     [RULE_LINE,
      [],
      ''Now return ONLY your next tool call or final answer.'']"

text \<open>Lines 144--289: the sections in order; the string is the lines joined by
  newlines (the triple-quoted literal ends without one).\<close>

definition SYSTEM_PROMPT_MANUAL_LINES :: "pystr list" where
  "SYSTEM_PROMPT_MANUAL_LINES =
     MANUAL_INTRO @ MANUAL_TOOLS @ MANUAL_FORMAT @ MANUAL_RULES @ MANUAL_SITES @
     MANUAL_SCROLLING @ MANUAL_EXTRACTION @ MANUAL_RECOVERY @ MANUAL_DECISIONS @
     MANUAL_WORKFLOW @ MANUAL_CLOSING"

definition SYSTEM_PROMPT_MANUAL :: pystr where
  "SYSTEM_PROMPT_MANUAL = py_join ''\<newline>'' SYSTEM_PROMPT_MANUAL_LINES"

subsection \<open>The prompt strings\<close>

text \<open>The indentation of the f-string lines of \<open>run_agent\<close>.\<close>

definition indent :: "nat \<Rightarrow> pystr" where
  "indent n = replicate n (CHR '' '')"

text \<open>Lines 84--101: the two f-strings, with the manual, the goal, and from the second
  iteration on the tool digest and the recency window \<open>recent_history\<close>.\<close>

fun render_prompt :: "prompt \<Rightarrow> pystr" where
  "render_prompt (FirstPrompt query) =
     SYSTEM_PROMPT_MANUAL @ ''\<newline>'' @
     indent 34 @ ''GOAL: '' @ query @ ''\<newline>'' @
     indent 34 @ ''Return the FIRST tool call.'' @ ''\<newline>'' @
     indent 30"
| "render_prompt (NextPrompt tools_desc query recent_history) =
     SYSTEM_PROMPT_MANUAL @ ''\<newline>'' @ ''\<newline>'' @
     indent 32 @ ''COMPLETE_TOOLS_DESCRIPTION: '' @ tools_desc @ ''\<newline>'' @
     indent 32 @ ''GOAL: '' @ query @ ''\<newline>'' @ ''\<newline>'' @
     indent 32 @ ''ACTIONS COMPLETED:'' @ ''\<newline>'' @
     indent 32 @ recent_history @ ''\<newline>'' @ ''\<newline>'' @
     indent 32 @ ''IMPORTANT: Review the results above. If you successfully extracted the data you need (price, text, etc.), return FINAL_ANSWER immediately. Don'' @ SQ @ ''t keep retrying if you already have valid data.'' @ ''\<newline>'' @ ''\<newline>'' @
     indent 32 @ ''Return the NEXT tool call or FINAL_ANSWER.''"

subsection \<open>Reading the manual back\<close>

text \<open>How the model is meant to read a line of the tool list: the name after the
  bullet up to \<open>(\<close>, the parameters up to \<open>)\<close> split at commas, \<open>none\<close> for none.
  This is the reading the manual relies on, not code of the program.\<close>

definition tool_list_entry :: "pystr \<Rightarrow> pystr \<times> pystr list" where
  "tool_list_entry line =
     (let body = drop (length BULLET + 1) line;
          ps = before_first CHR '')'' (after_first CHR ''('' body)
      in (before_first CHR ''('' body, if ps = ''none'' then [] else map py_strip (py_split CHR '','' ps)))"

definition manual_params :: "pystr \<Rightarrow> pystr list option" where
  "manual_params name = map_of (map tool_list_entry PROMPT_TOOL_LIST) name"

subsection \<open>Lemmas\<close>

lemma manual_lines_no_newline: "\<forall>x\<in>set SYSTEM_PROMPT_MANUAL_LINES. NL \<notin> set x"
  by code_simp

lemma manual_first_tool_line:
  "find (\<lambda>l. py_startswith (py_strip l) TOOL_CALL_MARK) SYSTEM_PROMPT_MANUAL_LINES =
     Some ''TOOL_CALL: tool_name | param1 | param2 | param3''"
  by code_simp

lemma manual_nonempty_hd: "SYSTEM_PROMPT_MANUAL \<noteq> [] \<and> \<not> py_isspace (hd SYSTEM_PROMPT_MANUAL)"
proof -
  have "SYSTEM_PROMPT_MANUAL_LINES \<noteq> []" "hd SYSTEM_PROMPT_MANUAL_LINES = ''You are a web automation agent executing ONE tool call at a time.''"
    by (simp_all add: SYSTEM_PROMPT_MANUAL_LINES_def MANUAL_INTRO_def)
  then show ?thesis
    by (simp add: SYSTEM_PROMPT_MANUAL_def py_join_hd py_join_nonempty py_isspace_def)
qed

lemma manual_has_marker: "py_in TOOL_CALL_MARK SYSTEM_PROMPT_MANUAL"
proof -
  let ?t = "''TOOL_CALL: tool_name | param1 | param2 | param3''"
  have m: "?t \<in> set SYSTEM_PROMPT_MANUAL_LINES" by (rule find_Some_mem [OF manual_first_tool_line])
  have t: "py_in TOOL_CALL_MARK ?t" by (simp add: TOOL_CALL_MARK_def py_startswith_def)
  have "py_in TOOL_CALL_MARK (py_join [NL] SYSTEM_PROMPT_MANUAL_LINES) \<longleftrightarrow>
      (\<exists>x\<in>set SYSTEM_PROMPT_MANUAL_LINES. py_in TOOL_CALL_MARK x)"
    by (rule py_in_join) (simp_all add: TOOL_CALL_MARK_def)
  with m t show ?thesis unfolding SYSTEM_PROMPT_MANUAL_def by blast
qed

lemma render_prompt_shape:
  "\<exists>r. render_prompt p = SYSTEM_PROMPT_MANUAL @ NL # r \<and> (\<exists>c\<in>set r. \<not> py_isspace c)"
proof (cases p)
  case (FirstPrompt q)
  let ?r = "indent 34 @ ''GOAL: '' @ q @ ''\<newline>'' @ indent 34 @ ''Return the FIRST tool call.''
    @ ''\<newline>'' @ indent 30"
  have "render_prompt p = SYSTEM_PROMPT_MANUAL @ NL # ?r" by (simp only: FirstPrompt render_prompt.simps append.simps)
  moreover have "CHR ''G'' \<in> set ?r" by simp
  moreover have "\<not> py_isspace (CHR ''G'')" by (simp add: py_isspace_def)
  ultimately show ?thesis by blast
next
  case (NextPrompt d q h)
  let ?r = "indent 32 @ ''COMPLETE_TOOLS_DESCRIPTION: '' @ d @ ''\<newline>'' @ indent 32 @ ''GOAL: '' @ q @ ''\<newline>'' @
    ''\<newline>'' @ indent 32 @ ''ACTIONS COMPLETED:'' @ ''\<newline>'' @ indent 32 @ h @ ''\<newline>'' @ ''\<newline>'' @
    indent 32 @ ''IMPORTANT: Review the results above. If you successfully extracted the data you need (price, text, etc.), return FINAL_ANSWER immediately. Don'' @ SQ @ ''t keep retrying if you already have valid data.'' @ ''\<newline>'' @ ''\<newline>'' @
    indent 32 @ ''Return the NEXT tool call or FINAL_ANSWER.''"
  have "render_prompt p = SYSTEM_PROMPT_MANUAL @ NL # NL # ?r" by (simp only: NextPrompt render_prompt.simps append.simps)
  moreover have "CHR ''C'' \<in> set (NL # ?r)" by simp
  moreover have "\<not> py_isspace (CHR ''C'')" by (simp add: py_isspace_def)
  ultimately show ?thesis by blast
qed

lemma manual_lines_nonempty: "SYSTEM_PROMPT_MANUAL_LINES \<noteq> []"
  by (simp add: SYSTEM_PROMPT_MANUAL_LINES_def MANUAL_INTRO_def)

lemma template_split:
  "split_tool_call (py_strip ''TOOL_CALL: tool_name | param1 | param2 | param3'') =
     (''tool_name'', [''param1'', ''param2'', ''param3''])"
  by code_simp

text \<open>C17. A model reply that repeats any prompt of the loop from its start is read
  as a call of the placeholder tool \<open>tool_name\<close> with the values \<open>param1\<close>,
  \<open>param2\<close>, \<open>param3\<close>: the first line that starts with the marker is the format
  template of the manual, whatever the goal, digest or history.\<close>

theorem echoed_prompt_reads_template:
  "parse_response (py_strip (render_prompt p)) = ToolCall ''tool_name'' [''param1'', ''param2'', ''param3'']"
proof -
  obtain r where p: "render_prompt p = SYSTEM_PROMPT_MANUAL @ NL # r" and v: "\<exists>c\<in>set r. \<not> py_isspace c"
    using render_prompt_shape by blast
  let ?r = "py_rstrip r"
  have "py_lstrip (render_prompt p) = SYSTEM_PROMPT_MANUAL @ NL # r"
    unfolding p using manual_nonempty_hd by (intro py_lstrip_visible_hd) simp_all
  moreover have "py_rstrip ((SYSTEM_PROMPT_MANUAL @ [NL]) @ r) = (SYSTEM_PROMPT_MANUAL @ [NL]) @ ?r"
    using v by (rule py_rstrip_visible_tail)
  ultimately have s: "py_strip (render_prompt p) = SYSTEM_PROMPT_MANUAL @ NL # ?r"
    by (simp add: py_strip_def)
  have sp: "py_split NL (SYSTEM_PROMPT_MANUAL @ NL # ?r) = SYSTEM_PROMPT_MANUAL_LINES @ py_split NL ?r"
    unfolding SYSTEM_PROMPT_MANUAL_def
    using py_split_join_more [OF manual_lines_nonempty manual_lines_no_newline] by simp
  have f: "find_tool_call_line (SYSTEM_PROMPT_MANUAL @ NL # ?r) =
      Some (py_strip ''TOOL_CALL: tool_name | param1 | param2 | param3'')"
    by (simp add: find_tool_call_line_def sp find_append manual_first_tool_line)
  have i: "py_in TOOL_CALL_MARK (SYSTEM_PROMPT_MANUAL @ NL # ?r)"
    using manual_has_marker by (rule py_in_append_left)
  show ?thesis by (simp add: s parse_response_def f i template_split)
qed

text \<open>A negative example of the manual (line 222), copied by the model, is accepted
  as an evaluate call whose script carries the annotation.\<close>

lemma manual_failing_example_accepted:
  "''TOOL_CALL: playwright_evaluate | (async () => { ... await ... })()  '' @ LEFT_ARROW @ '' FAILS''
     \<in> set SYSTEM_PROMPT_MANUAL_LINES
   \<and> parse_response (py_strip (''TOOL_CALL: playwright_evaluate | (async () => { ... await ... })()  '' @ LEFT_ARROW @ '' FAILS'')) =
     ToolCall ''playwright_evaluate'' [''(async () => { ... await ... })()  '' @ LEFT_ARROW @ '' FAILS'']"
  by code_simp

text \<open>Every line of the manual that mentions the tool-call marker, read as a
  reply, is either a call of a tool of the manual's own tool list with as many values
  as the list gives it parameters, or the format template, or a line the parser
  rejects because it does not start with the marker (the \<open>Iteration n:\<close> examples and
  rule 3); none is read as a final answer or anything else.\<close>

theorem manual_examples_consistent:
  "list_all (\<lambda>l. case parse_response (py_strip l) of
       ToolCall n vs \<Rightarrow> n = ''tool_name'' \<or> map_option length (manual_params n) = Some (length vs)
     | NoValidToolCall \<Rightarrow> \<not> py_startswith (py_strip l) TOOL_CALL_MARK
     | _ \<Rightarrow> False)
     (filter (py_in TOOL_CALL_MARK) SYSTEM_PROMPT_MANUAL_LINES)"
  by code_simp

lemma render_first_goal: "sublist (''GOAL: '' @ q) (render_prompt (FirstPrompt q))"
proof -
  have "render_prompt (FirstPrompt q) = (SYSTEM_PROMPT_MANUAL @ NL # indent 34) @ (''GOAL: '' @ q) @
      (NL # indent 34 @ ''Return the FIRST tool call.'' @ NL # indent 30)"
    by simp
  then show ?thesis by (metis sublist_appendI)
qed

lemma render_next_parts:
  "sublist (''COMPLETE_TOOLS_DESCRIPTION: '' @ d) (render_prompt (NextPrompt d q w))
   \<and> sublist (''GOAL: '' @ q) (render_prompt (NextPrompt d q w))
   \<and> sublist w (render_prompt (NextPrompt d q w))"
proof -
  let ?imp = "''IMPORTANT: Review the results above. If you successfully extracted the data you need (price, text, etc.), return FINAL_ANSWER immediately. Don'' @ SQ @ ''t keep retrying if you already have valid data.''"
  let ?c = "(SYSTEM_PROMPT_MANUAL @ NL # NL # indent 32)"
  let ?g = "NL # indent 32"
  let ?a = "NL # NL # indent 32 @ ''ACTIONS COMPLETED:'' @ NL # indent 32"
  let ?e = "NL # NL # indent 32 @ ?imp @ NL # NL # indent 32 @ ''Return the NEXT tool call or FINAL_ANSWER.''"
  have "render_prompt (NextPrompt d q w) = ?c @ (''COMPLETE_TOOLS_DESCRIPTION: '' @ d) @ (?g @ ''GOAL: '' @ q @ ?a @ w @ ?e)"
    "render_prompt (NextPrompt d q w) = (?c @ ''COMPLETE_TOOLS_DESCRIPTION: '' @ d @ ?g) @ (''GOAL: '' @ q) @ (?a @ w @ ?e)"
    "render_prompt (NextPrompt d q w) = (?c @ ''COMPLETE_TOOLS_DESCRIPTION: '' @ d @ ?g @ ''GOAL: '' @ q @ ?a) @ w @ ?e"
    by simp_all
  then show ?thesis by (metis sublist_appendI)
qed

text \<open>C16. The prompt of iteration \<open>i\<close> starts with the manual and holds the goal;
  from the second iteration on it also holds the tool digest and each of the last three
  history entries.\<close>

theorem prompt_carries_window:
  "prefix SYSTEM_PROMPT_MANUAL (render_prompt (build_prompt i hist d q))
   \<and> sublist (''GOAL: '' @ q) (render_prompt (build_prompt i hist d q))
   \<and> (0 < i \<longrightarrow> sublist (''COMPLETE_TOOLS_DESCRIPTION: '' @ d) (render_prompt (build_prompt i hist d q))
        \<and> list_all (\<lambda>h. sublist h (render_prompt (build_prompt i hist d q))) (py_last_n 3 hist))"
proof (cases "i = 0")
  case True
  then have "build_prompt i hist d q = FirstPrompt q" by (simp add: build_prompt_def)
  then show ?thesis using True render_first_goal [of q] by simp
next
  case False
  let ?w = "py_join ''\<newline>'' (py_last_n 3 hist)"
  have b: "build_prompt i hist d q = NextPrompt d q ?w" using False by (simp add: build_prompt_def)
  have "\<forall>h\<in>set (py_last_n 3 hist). sublist h ?w" by (simp add: sublist_py_join_mem)
  with render_next_parts [of d q ?w]
  have "list_all (\<lambda>h. sublist h (render_prompt (NextPrompt d q ?w))) (py_last_n 3 hist)"
    by (auto simp: list_all_iff intro: sublist_order.order_trans)
  with False render_next_parts [of d q ?w] show ?thesis unfolding b by simp
qed

theorem prompt_carries_window_witness:
  "prefix SYSTEM_PROMPT_MANUAL (render_prompt (build_prompt 1 [''a'', ''b''] ''d'' ''q''))
   \<and> sublist (''GOAL: '' @ ''q'') (render_prompt (build_prompt 1 [''a'', ''b''] ''d'' ''q''))
   \<and> sublist (''COMPLETE_TOOLS_DESCRIPTION: '' @ ''d'') (render_prompt (build_prompt 1 [''a'', ''b''] ''d'' ''q''))
   \<and> list_all (\<lambda>h. sublist h (render_prompt (build_prompt 1 [''a'', ''b''] ''d'' ''q''))) (py_last_n 3 [''a'', ''b''])"
  using prompt_carries_window [of 1 "[''a'', ''b'']" "''d''" "''q''"] by simp

end
