(* ===== verification/Session_IO.thy ===== *)
theory Session_IO
  imports Agent_Loop
begin

text \<open>
  What \<open>run_agent\<close> (\<open>src/agent.py\<close> lines 32--261) does to the process around the
  agent loop: the redirection of \<open>sys.stderr\<close> into \<open>io.StringIO\<close> buffers, and the
  two MCP context managers it opens and closes; and the command-line entry \<open>main\<close>
  (lines 263--279).  The state is \<open>sys.stderr\<close>, the number of buffers created so far,
  the locals \<open>_old_stderr\<close>, \<open>stdio_ctx\<close>, \<open>session_ctx\<close>, and the contexts whose
  \<open>__aexit__\<close> was called, in order.  Where the body raises is an argument: the
  start (the first \<open>log\<close> call), one of the five statements that set up the session,
  the rest of the body, or no exception.  The exceptions \<open>__aexit__\<close> raises are
  swallowed (\<open>except: pass\<close>), so they change nothing here.  The theory also holds
  the process environment the module reads at import (lines 12--14), and the writes of
  \<open>sys.stderr\<close> by overlapping quiet runs of the server, step by step, with the
  theorem on where they leave it.
\<close>

datatype stream = Console | Buffer nat

datatype setup_stmt = StdioClient | StdioEnter | SessionNew | SessionEnter | Initialize

datatype exit_point = StartFails | SetupFails setup_stmt | BodyFails | BodyReturns

datatype ctx = StdioCtx | SessionCtx

record io_state =
  sys_stderr :: stream
  buffers :: nat
  old_stderr :: "stream option"
  stdio_ctx :: bool
  session_ctx :: bool
  exited :: "ctx list"

text \<open>Lines 61, 62, 64, 65, 66 in order.\<close>

fun stmt_index :: "setup_stmt \<Rightarrow> nat" where
  "stmt_index StdioClient = 0"
| "stmt_index StdioEnter = 1"
| "stmt_index SessionNew = 2"
| "stmt_index SessionEnter = 3"
| "stmt_index Initialize = 4"

text \<open>Whether a set-up statement runs to its end before the body stops at \<open>ep\<close>.\<close>

definition completes :: "setup_stmt \<Rightarrow> exit_point \<Rightarrow> bool" where
  "completes st ep =
     (case ep of StartFails \<Rightarrow> False | SetupFails f \<Rightarrow> stmt_index st < stmt_index f | _ \<Rightarrow> True)"

text \<open>\<open>sys.stderr = io.StringIO()\<close>: a fresh buffer.\<close>

definition new_buffer :: "io_state \<Rightarrow> io_state" where
  "new_buffer s = s\<lparr>sys_stderr := Buffer (buffers s), buffers := Suc (buffers s)\<rparr>"

text \<open>Lines 41--42 and 58--59: \<open>_old_stderr = sys.stderr; sys.stderr = io.StringIO()\<close>.\<close>

definition save_and_suppress :: "io_state \<Rightarrow> io_state" where
  "save_and_suppress s = new_buffer (s\<lparr>old_stderr := Some (sys_stderr s)\<rparr>)"

text \<open>Lines 69, 257, 261: \<open>sys.stderr = _old_stderr\<close> (always bound where it runs).\<close>

definition restore_stderr :: "io_state \<Rightarrow> io_state" where
  "restore_stderr s = (case old_stderr s of None \<Rightarrow> s | Some old \<Rightarrow> s\<lparr>sys_stderr := old\<rparr>)"

text \<open>Lines 56--69: the session set-up, up to where the body stops.\<close>

definition session_setup :: "bool \<Rightarrow> exit_point \<Rightarrow> io_state \<Rightarrow> io_state" where
  "session_setup verbose ep s =
     (let s1 = (if verbose then save_and_suppress s else s);
          s2 = (if completes StdioClient ep then s1\<lparr>stdio_ctx := True\<rparr> else s1);
          s3 = (if completes SessionNew ep then s2\<lparr>session_ctx := True\<rparr> else s2)
      in if verbose \<and> completes Initialize ep then restore_stderr s3 else s3)"

text \<open>Lines 245--257: the inner \<open>finally\<close>.\<close>

definition session_cleanup :: "bool \<Rightarrow> io_state \<Rightarrow> io_state" where
  "session_cleanup verbose s =
     (let s1 = (if \<not> verbose then new_buffer s else s);
          s2 = (if session_ctx s1 then s1\<lparr>exited := exited s1 @ [SessionCtx]\<rparr> else s1);
          s3 = (if stdio_ctx s2 then s2\<lparr>exited := exited s2 @ [StdioCtx]\<rparr> else s2)
      in if \<not> verbose then restore_stderr s3 else s3)"

text \<open>Lines 32--261 as seen by \<open>sys.stderr\<close> and the contexts; the locals start unbound
  (\<open>_old_stderr\<close>) or \<open>None\<close> (lines 53--54).\<close>

definition run_agent_io :: "bool \<Rightarrow> exit_point \<Rightarrow> io_state \<Rightarrow> io_state" where
  "run_agent_io verbose ep s =
     (let s0 = s\<lparr>old_stderr := None, stdio_ctx := False, session_ctx := False, exited := []\<rparr>;
          s1 = (if \<not> verbose then save_and_suppress s0 else s0);
          s2 = (if ep = StartFails then s1
                else session_cleanup verbose (session_setup verbose ep s1))
      in if \<not> verbose then restore_stderr s2 else s2)"

text \<open>Lines 264--273: \<open>main\<close> resets \<open>sys.stderr\<close>, runs the agent verbosely, and resets
  it again when the agent raised.\<close>

definition cli_io :: "exit_point \<Rightarrow> io_state \<Rightarrow> io_state" where
  "cli_io ep s =
     (let s1 = run_agent_io True ep (s\<lparr>sys_stderr := Console\<rparr>)
      in if ep = BodyReturns then s1 else s1\<lparr>sys_stderr := Console\<rparr>)"

subsection \<open>The process environment\<close>

text \<open>Lines 12--14: \<open>load_dotenv()\<close> adds the entries of the \<open>.env\<close> file that the
  process environment lacks (it does not override), and \<open>os.getenv\<close> reads the key
  from the merged environment; \<open>None\<close> when neither holds it.\<close>

definition load_dotenv :: "(pystr \<rightharpoonup> pystr) \<Rightarrow> (pystr \<rightharpoonup> pystr) \<Rightarrow> (pystr \<rightharpoonup> pystr)" where
  "load_dotenv dotenv environ = dotenv ++ environ"

definition api_key :: "(pystr \<rightharpoonup> pystr) \<Rightarrow> (pystr \<rightharpoonup> pystr) \<Rightarrow> pystr option" where
  "api_key dotenv environ = load_dotenv dotenv environ ''GEMINI_API_KEY''"

subsection \<open>The command line\<close>

definition DEFAULT_GOAL :: pystr where
  "DEFAULT_GOAL = ''Go to google.com and search for hello''"

text \<open>Line 267: \<open>input(...).strip() or DEFAULT\<close>.\<close>

definition cli_query :: "pystr \<Rightarrow> pystr" where
  "cli_query inp = (let q = py_strip inp in if q = [] then DEFAULT_GOAL else q)"

text \<open>\<open>str(e)\<close> of the \<open>EOFError\<close> that \<open>input()\<close> raises at the end of the input.\<close>

definition EOF_ERROR :: pystr where
  "EOF_ERROR = ''EOF when reading a line''"

text \<open>What \<open>main\<close> prints: every log message of the verbose run (line 35), then the
  result (line 269) or the error unless it mentions \<open>Shutdown\<close> (lines 272--273).
  The input line is \<open>None\<close> at the end of the input, where \<open>input()\<close> raises inside
  the \<open>try\<close> and no agent runs.  The \<open>try\<close> of lines 275--279 adds nothing: \<open>main\<close>
  catches every \<open>Exception\<close> itself.\<close>

datatype cli_line = LogLine log_event | FinalResult agent_result | ErrorLine pystr

definition cli_main :: "'w world \<Rightarrow> pystr option \<Rightarrow> 'w \<Rightarrow> cli_line list \<times> 'w" where
  "cli_main W inp w =
     (case inp of
        None \<Rightarrow> ([ErrorLine EOF_ERROR], w)
      | Some line \<Rightarrow>
          (case run_agent W (cli_query line) (Some 15) w of
             (out, w', st) \<Rightarrow>
               (map LogLine (logs st) @
                  (case out of
                     Inr r \<Rightarrow> [FinalResult r]
                   | Inl e \<Rightarrow> (if py_in ''Shutdown'' e then [] else [ErrorLine e])), w')))"

subsection \<open>Overlapping quiet runs\<close>

text \<open>The server runs every job's \<open>run_agent\<close> with \<open>verbose=False\<close> (\<open>src/main.py\<close>
  line 78) as tasks of one event loop, and \<open>sys.stderr\<close> is one global.  A quiet run
  writes it at lines 41--42 (save, then a fresh buffer), 247 (a fresh buffer) and
  257 and 261 (restore the saved stream); \<open>_old_stderr\<close> is local to the run.  Between
  line 42 and line 247 the run awaits (the session, the model, the tools), and between
  247 and 257 it awaits the \<open>__aexit__\<close> calls; a run that stops before its first await
  (the first log call raises, or \<open>stdio_client\<close> at line 61) does all its writes at
  once.  \<open>quiet_plan\<close> is the run's writes grouped into these atomic segments; a
  schedule lists, step by step, which run executes its next segment.\<close>

datatype io_op = SaveSuppress | NewBuffer | Restore

record sched_state =
  cur_stderr :: stream
  nbuf :: nat
  saved :: "nat \<Rightarrow> stream option"
  segs_done :: "nat \<Rightarrow> nat"

text \<open>One write of \<open>sys.stderr\<close> by run \<open>r\<close>: lines 41--42, line 247, lines 257/261.\<close>

fun exec_op :: "nat \<Rightarrow> sched_state \<Rightarrow> io_op \<Rightarrow> sched_state" where
  "exec_op r st SaveSuppress =
     st\<lparr>saved := (saved st)(r := Some (cur_stderr st)), cur_stderr := Buffer (nbuf st), nbuf := Suc (nbuf st)\<rparr>"
| "exec_op r st NewBuffer = st\<lparr>cur_stderr := Buffer (nbuf st), nbuf := Suc (nbuf st)\<rparr>"
| "exec_op r st Restore = (case saved st r of None \<Rightarrow> st | Some old \<Rightarrow> st\<lparr>cur_stderr := old\<rparr>)"

text \<open>The atomic segments of a quiet run, by where its body stops.\<close>

definition quiet_plan :: "exit_point \<Rightarrow> io_op list list" where
  "quiet_plan ep =
     (if ep = StartFails then [[SaveSuppress, Restore]]
      else if ep = SetupFails StdioClient then [[SaveSuppress, NewBuffer, Restore, Restore]]
      else [[SaveSuppress], [NewBuffer], [Restore, Restore]])"

text \<open>Run \<open>r\<close> executes its next segment; a finished run does nothing.\<close>

definition sched_step :: "(nat \<Rightarrow> io_op list list) \<Rightarrow> sched_state \<Rightarrow> nat \<Rightarrow> sched_state" where
  "sched_step plan st r =
     (let k = segs_done st r
      in if k < length (plan r)
         then (foldl (exec_op r) st (plan r ! k))\<lparr>segs_done := (segs_done st)(r := Suc k)\<rparr>
         else st)"

definition run_schedule :: "(nat \<Rightarrow> io_op list list) \<Rightarrow> nat list \<Rightarrow> sched_state \<Rightarrow> sched_state" where
  "run_schedule plan sch st = foldl (sched_step plan) st sch"

text \<open>A plan whose first operation saves, which saves nowhere else, and whose last
  operation restores.\<close>

definition wf_plan :: "io_op list list \<Rightarrow> bool" where
  "wf_plan p \<longleftrightarrow> p \<noteq> [] \<and> (\<forall>seg\<in>set p. seg \<noteq> []) \<and> hd (hd p) = SaveSuppress
     \<and> SaveSuppress \<notin> set (tl (hd p)) \<and> (\<forall>seg\<in>set (tl p). SaveSuppress \<notin> set seg)
     \<and> last (last p) = Restore"

text \<open>No run in progress, the console on \<open>sys.stderr\<close>.\<close>

definition idle_sched :: sched_state where
  "idle_sched = \<lparr>cur_stderr = Console, nbuf = 0, saved = (\<lambda>_. None), segs_done = (\<lambda>_. 0)\<rparr>"

subsection \<open>Lemmas\<close>

lemma io_simps [simp]:
  "sys_stderr (new_buffer s) = Buffer (buffers s)" "buffers (new_buffer s) = Suc (buffers s)"
  "old_stderr (new_buffer s) = old_stderr s" "exited (new_buffer s) = exited s"
  "stdio_ctx (new_buffer s) = stdio_ctx s" "session_ctx (new_buffer s) = session_ctx s"
  "old_stderr (save_and_suppress s) = Some (sys_stderr s)" "sys_stderr (save_and_suppress s) = Buffer (buffers s)"
  "buffers (save_and_suppress s) = Suc (buffers s)" "exited (save_and_suppress s) = exited s"
  "stdio_ctx (save_and_suppress s) = stdio_ctx s" "session_ctx (save_and_suppress s) = session_ctx s"
  by (simp_all add: new_buffer_def save_and_suppress_def)

lemma completes_simps [simp]:
  "completes st StartFails = False" "completes st BodyFails" "completes st BodyReturns"
  "completes st (SetupFails f) = (stmt_index st < stmt_index f)"
  by (simp_all add: completes_def)

lemma cli_query_blank: "\<forall>c\<in>set inp. py_isspace c \<Longrightarrow> cli_query inp = DEFAULT_GOAL"
proof -
  assume "\<forall>c\<in>set inp. py_isspace c"
  then have "py_lstrip inp = []" by (simp add: py_lstrip_def)
  then show ?thesis by (simp add: cli_query_def py_strip_def py_rstrip_def)
qed

lemma stmt_index_le: "stmt_index st \<le> 4"
  by (cases st) simp_all

text \<open>C11. Whatever the body does, every MCP context the run created is exited, the
  session before the stdio client, even one whose \<open>__aenter__\<close> failed; a verbose run
  (the command line, which runs one agent) whose session set-up raised leaves
  \<open>sys.stderr\<close> on the buffer of line 59, and the command line's \<open>main\<close> then puts the
  console back.\<close>

theorem run_agent_io_exits:
  "exited (run_agent_io verbose ep s) =
       (if completes SessionNew ep then [SessionCtx] else []) @ (if completes StdioClient ep then [StdioCtx] else [])
   \<and> sys_stderr (run_agent_io True ep s) =
       (if \<exists>st. ep = SetupFails st then Buffer (buffers s) else sys_stderr s)
   \<and> sys_stderr (cli_io ep s) = Console"
  using stmt_index_le [of "case ep of SetupFails f \<Rightarrow> f | _ \<Rightarrow> Initialize"]
  by (cases ep; cases verbose) (auto simp: run_agent_io_def session_setup_def session_cleanup_def restore_stderr_def cli_io_def Let_def split: setup_stmt.splits)

lemma wf_quiet_plan: "wf_plan (quiet_plan ep)"
  by (simp add: wf_plan_def quiet_plan_def)

lemma exec_op_segs [simp]: "segs_done (exec_op r st op) = segs_done st"
  by (cases op) (simp_all split: option.splits)

lemma foldl_exec_segs [simp]: "segs_done (foldl (exec_op r) st ops) = segs_done st"
  by (induction ops arbitrary: st) simp_all

lemma foldl_exec_saved_other:
  "r' \<noteq> r \<Longrightarrow> saved (foldl (exec_op r) st ops) r' = saved st r'"
proof (induction ops arbitrary: st)
  case (Cons op ops)
  then show ?case by (cases op) (simp_all split: option.splits)
qed simp

lemma foldl_exec_saved_nosave:
  "SaveSuppress \<notin> set ops \<Longrightarrow> saved (foldl (exec_op r) st ops) = saved st"
proof (induction ops arbitrary: st)
  case (Cons op ops)
  then show ?case by (cases op) (simp_all split: option.splits)
qed simp

lemma foldl_exec_saved_first:
  "SaveSuppress \<notin> set ops \<Longrightarrow> saved (foldl (exec_op r) st (SaveSuppress # ops)) r = Some (cur_stderr st)"
  using foldl_exec_saved_nosave [of ops r] by simp

lemma foldl_exec_restore_last:
  "saved (foldl (exec_op r) st ops) r = Some old \<Longrightarrow>
   cur_stderr (foldl (exec_op r) st (ops @ [Restore])) = old"
  by simp


lemma wf_plan_seg:
  assumes "wf_plan p" "k < length p"
  shows "saved (foldl (exec_op r) st (p ! k)) r = (if k = 0 then Some (cur_stderr st) else saved st r)"
proof (cases k)
  case 0
  from assms(1) obtain ops where "hd p = SaveSuppress # ops" "SaveSuppress \<notin> set ops" "p ! 0 = hd p"
    by (cases p; cases "hd p") (auto simp: wf_plan_def)
  with 0 show ?thesis using foldl_exec_saved_first [of ops r st] by simp
next
  case (Suc j)
  with assms have "p ! k \<in> set (tl p)" by (cases p) auto
  with assms(1) have "SaveSuppress \<notin> set (p ! k)" by (auto simp: wf_plan_def)
  with Suc show ?thesis by (simp add: foldl_exec_saved_nosave)
qed

lemma seg_restore_last:
  assumes "seg \<noteq> []" "last seg = Restore" "saved (foldl (exec_op r) st seg) r = Some old"
  shows "cur_stderr (foldl (exec_op r) st seg) = old"
proof -
  obtain ops where seg: "seg = ops @ [Restore]" using assms(1,2) by (metis append_butlast_last_id)
  have "saved (foldl (exec_op r) st ops) r = Some old" using assms(3) seg by (simp split: option.splits)
  then show ?thesis using seg by simp
qed

lemma run_schedule_snoc:
  "run_schedule plan (p @ [x]) st = sched_step plan (run_schedule plan p st) x"
  by (simp add: run_schedule_def)

lemma sched_step_segs:
  "segs_done (sched_step plan st x) =
     (if segs_done st x < length (plan x) then (segs_done st)(x := Suc (segs_done st x)) else segs_done st)"
  by (simp add: sched_step_def Let_def)

lemma count_prefix_bound:
  "\<forall>r\<in>set (p @ [x]). count_list (p @ [x]) r \<le> n r \<Longrightarrow> \<forall>r\<in>set p. count_list p r \<le> n r"
  by (metis Un_iff count_list_append le_add1 order_trans set_append)

lemma schedule_segs:
  assumes "segs_done st = (\<lambda>_. 0)" "\<forall>r\<in>set p. count_list p r \<le> length (plan r)"
  shows "segs_done (run_schedule plan p st) r = count_list p r"
  using assms(2)
proof (induction p arbitrary: r rule: rev_induct)
  case Nil
  then show ?case using assms(1) by (simp add: run_schedule_def)
next
  case (snoc x p)
  have ih: "segs_done (run_schedule plan p st) r' = count_list p r'" for r'
    using count_prefix_bound [OF snoc.prems] by (rule snoc.IH)
  have "count_list p x < length (plan x)" using snoc.prems by simp
  then show ?case by (simp add: run_schedule_snoc sched_step_segs ih)
qed

lemma schedule_saved:
  assumes "segs_done st = (\<lambda>_. 0)" "\<forall>r. wf_plan (plan r)"
    and "\<forall>r\<in>set p. count_list p r \<le> length (plan r)" "r \<in> set p"
  shows "saved (run_schedule plan p st) r =
           Some (cur_stderr (run_schedule plan (takeWhile (\<lambda>y. y \<noteq> r) p) st))"
  using assms(3,4)
proof (induction p arbitrary: r rule: rev_induct)
  case Nil
  then show ?case by simp
next
  case (snoc x p)
  let ?s = "run_schedule plan p st"
  have cnt: "\<forall>r\<in>set p. count_list p r \<le> length (plan r)"
    using count_prefix_bound [OF snoc.prems(1)] .
  have k: "segs_done ?s x = count_list p x" using schedule_segs [OF assms(1) cnt] .
  have lt: "count_list p x < length (plan x)" using snoc.prems(1) by auto
  have step: "run_schedule plan (p @ [x]) st =
      (foldl (exec_op x) ?s (plan x ! count_list p x))\<lparr>segs_done := (segs_done ?s)(x := Suc (count_list p x))\<rparr>"
    using k lt by (simp add: run_schedule_snoc sched_step_def Let_def)
  show ?case
  proof (cases "r = x")
    case False
    with snoc.prems(2) have r: "r \<in> set p" by simp
    with False have "takeWhile (\<lambda>y. y \<noteq> r) (p @ [x]) = takeWhile (\<lambda>y. y \<noteq> r) p" by simp
    with False r snoc.IH [OF cnt r] step show ?thesis by (simp add: foldl_exec_saved_other)
  next
    case True
    note seg = wf_plan_seg [OF spec [OF assms(2), of x] lt, of x ?s]
    show ?thesis
    proof (cases "x \<in> set p")
      case True
      then have "count_list p x \<noteq> 0" by (simp add: count_list_0_iff)
      moreover have "takeWhile (\<lambda>y. y \<noteq> x) (p @ [x]) = takeWhile (\<lambda>y. y \<noteq> x) p" using True by simp
      ultimately show ?thesis using \<open>r = x\<close> step seg snoc.IH [OF cnt True] by simp
    next
      case False
      then have "count_list p x = 0" by (simp add: count_list_0_iff)
      moreover have "takeWhile (\<lambda>y. y \<noteq> x) (p @ [x]) = p" using False by (subst takeWhile_append2) auto
      ultimately show ?thesis using \<open>r = x\<close> step seg by (simp add: run_schedule_def)
    qed
  qed
qed

text \<open>C12. Overlapping server runs: in every schedule of quiet runs from no run in
  progress in which each run finishes, the final \<open>sys.stderr\<close> is the stream that the
  run finishing last found at its start (line 41).  So the console survives only if
  that run started while no other run held \<open>sys.stderr\<close>; a run that starts while
  another is in progress and finishes after it leaves \<open>sys.stderr\<close> on the other's
  buffer, and every later run saves and restores that buffer.\<close>

theorem overlapping_runs_stderr:
  assumes "sch \<noteq> []" "list_all (\<lambda>r. count_list sch r = length (quiet_plan (eps r))) sch"
    and "segs_done st = (\<lambda>_. 0)"
  shows "cur_stderr (run_schedule (\<lambda>r. quiet_plan (eps r)) sch st) =
         cur_stderr (run_schedule (\<lambda>r. quiet_plan (eps r)) (takeWhile (\<lambda>y. y \<noteq> last sch) sch) st)"
proof -
  let ?plan = "\<lambda>r. quiet_plan (eps r)"
  obtain p x where sch: "sch = p @ [x]" using assms(1) by (metis append_butlast_last_id)
  have wf: "\<forall>r. wf_plan (?plan r)" by (simp add: wf_quiet_plan)
  have full: "\<forall>r\<in>set sch. count_list sch r \<le> length (?plan r)"
    using assms(2) by (simp add: list_all_iff)
  have cnt: "\<forall>r\<in>set p. count_list p r \<le> length (?plan r)"
    using count_prefix_bound [of p x "\<lambda>r. length (?plan r)"] full sch by simp
  let ?s = "run_schedule ?plan p st"
  have lastc: "Suc (count_list p x) = length (?plan x)"
    using assms(2) sch by (simp add: list_all_iff)
  then have lt: "count_list p x < length (?plan x)" by simp
  have k: "segs_done ?s x = count_list p x" using schedule_segs [OF assms(3) cnt] .
  let ?seg = "?plan x ! count_list p x"
  have step: "run_schedule ?plan sch st =
      (foldl (exec_op x) ?s ?seg)\<lparr>segs_done := (segs_done ?s)(x := Suc (count_list p x))\<rparr>"
    using k lt sch by (simp add: run_schedule_snoc sched_step_def Let_def)
  have wfx: "wf_plan (?plan x)" using wf by blast
  then have pne: "?plan x \<noteq> []" by (simp add: wf_plan_def)
  then have segl: "?seg = last (?plan x)" by (simp add: last_conv_nth flip: lastc)
  have ne: "?seg \<noteq> []" and re: "last ?seg = Restore"
    using wfx segl last_in_set [OF pne] by (auto simp: wf_plan_def)
  have sv: "saved (run_schedule ?plan sch st) x =
      Some (cur_stderr (run_schedule ?plan (takeWhile (\<lambda>y. y \<noteq> x) sch) st))"
    using schedule_saved [OF assms(3) wf full] sch by simp
  have "cur_stderr (foldl (exec_op x) ?s ?seg) = cur_stderr (run_schedule ?plan (takeWhile (\<lambda>y. y \<noteq> x) sch) st)"
    using seg_restore_last [OF ne re] sv step by simp
  then show ?thesis using step sch by simp
qed


theorem overlapping_runs_stderr_witness:
  "cur_stderr (run_schedule (\<lambda>r. quiet_plan BodyReturns) [0, 1, 0, 0, 1, 1] idle_sched) = Buffer 0"
  using overlapping_runs_stderr [of "[0, 1, 0, 0, 1, 1]" "\<lambda>r. BodyReturns" idle_sched]
  by (simp add: idle_sched_def run_schedule_def sched_step_def quiet_plan_def)

text \<open>A run alone writes \<open>sys.stderr\<close> as \<open>run_agent_io\<close> does.\<close>

lemma single_run_schedule:
  "cur_stderr (run_schedule (\<lambda>r. quiet_plan ep) (replicate (length (quiet_plan ep)) 0) idle_sched)
     = sys_stderr (run_agent_io False ep \<lparr>sys_stderr = Console, buffers = 0, old_stderr = None,
                     stdio_ctx = False, session_ctx = False, exited = []\<rparr>)"
  by (cases ep) (auto simp: idle_sched_def run_schedule_def sched_step_def quiet_plan_def
      run_agent_io_def session_setup_def session_cleanup_def restore_stderr_def Let_def
      numeral_eq_Suc split: setup_stmt.splits)

end
