(* ===== verification/Spec2Isabelle.thy ===== *)
theory Spec2Isabelle
  imports Http_App Legacy_Prompt Session_IO
begin

text \<open>
  \<^bold>\<open>A verification library for the browser-automation agent\<close>

  The program has two modules.  \<^verbatim>\<open>src/agent.py\<close> holds \<open>run_agent\<close>, a loop that
  asks a text model for the next step, parses its reply (a \<open>TOOL_CALL:\<close> line or a
  \<open>FINAL_ANSWER:\<close> line, the protocol \<^verbatim>\<open>src/prompt.py\<close> prescribes), looks the
  named tool up in the catalog the MCP server advertised, coerces the positional
  values to the tool's declared parameter types, calls the tool, classifies its
  result, and records history, an execution log and log lines.  \<^verbatim>\<open>src/main.py\<close>
  holds a registry of tasks behind HTTP handlers; each submission schedules a
  background job that runs \<open>run_agent\<close> and writes its outcome into the task record.

  \<^bold>\<open>Theories.\<close>
  \<^item> \<open>Py_Prelude\<close>: the Python string operations the code uses (\<open>strip\<close>,
    \<open>split\<close>, \<open>join\<close>, \<open>replace\<close>, \<open>lower\<close>, \<open>in\<close>, \<open>startswith\<close>, slicing) on
    \<open>string\<close>, with their algebra (split/join round trip, strip idempotence, substring
    facts).
  \<^item> \<open>Response_Parser\<close>: \<open>parse_response\<close> is the branch structure of \<open>run_agent\<close>
    lines 127--234 as a pure function from the stripped reply to a \<open>decision\<close>;
    \<open>render_tool_call\<close> is the reply format of the prompt.  Lemmas: the round trip
    of rendered calls, the special case of \<open>playwright_evaluate\<close>, the answer
    extraction, the precedence of the tool-call marker.
  \<^item> \<open>Catalog\<close>: the tool list (\<open>mcp_tool\<close> records with ordered schema
    properties), \<open>create_tool_descriptions\<close> (lines 17--30) and the lookup of line 157.
    \<open>parse_digest_line\<close> reads a digest line back; the round-trip lemma shows the
    digest loses nothing for tools whose names and parameters fit its line format.
  \<^item> \<open>Coercion\<close>: \<open>coerce_args\<close> (lines 163--180), with \<open>int()\<close>, \<open>float()\<close> and the
    boolean tokens of CPython modelled on decimal text, raising \<open>ValueError\<close> as
    \<open>Inl\<close> of its message.  Lemmas: positional binding (\<open>zip\<close> over the property order),
    first-error semantics, the integer round trip, and the typing lemma: every
    argument has the Python type (\<open>pyval_type\<close>) its schema type names
    (\<open>schema_pytype\<close>).
  \<^item> \<open>Agent_Loop\<close>: \<open>run_agent\<close> (lines 32--261) by explicit state passing.  The model
    and the MCP session are a record \<open>world\<close> of functions over an abstract state
    \<open>'w\<close> (\<open>connect\<close>, \<open>generate\<close>, \<open>call_tool\<close>), so every theorem holds for every
    behaviour of them.  \<open>agent_step\<close> is one iteration, \<open>agent_loop\<close> the
    \<open>for i in range(max_iter)\<close> loop, a \<open>function\<close> terminating by the measure
    \<open>max_iter - i\<close>: no fuel is needed because the loop is bounded by its budget.
    Lemmas: the loop invariant (history within the execution log, sleeps bounded by
    the budget, iteration numbers increasing), exhaustion, the rate-limit and fatal
    error paths, the failure classifier, the recency window of the prompt.  The
    loop is shown equal to a \<open>foldl\<close> over \<open>[0..<max_iter]\<close> with an early-exit
    accumulator (\<open>agent_loop_for\<close>), the shape of the Python \<open>for\<close> loop, and every
    log entry it returns is shown within the truncation bounds of lines 192--212
    (\<open>entry_bounded\<close>), whatever the tools return.
  \<^item> \<open>Task_Manager\<close>: the registry \<open>tasks\<close> as an association list in insertion
    order, the handlers \<open>create_automation_task\<close>, \<open>get_task_status\<close>,
    \<open>list_tasks\<close>, \<open>health_check\<close>, \<open>delete_task\<close>, the constant \<open>root\<close> info, and \<open>run_automation_task\<close> both
    split into its registry writes (\<open>begin_task\<close>, \<open>log_callback\<close>,
    \<open>finish_task\<close>, \<open>fail_task\<close>) and as a whole.  \<open>server_step\<close> runs one event of
    any handler or job; \<open>reachable\<close> is the inductive closure from the empty server,
    so every interleaving of concurrent requests and jobs is covered as far as the
    registry is concerned.  Lemmas: the server invariant (record well-formedness per
    status, one live job per pending or running record), terminal records never
    change, deleted tasks never return, single writer per task, logs only grow, a
    running record changes only by its logs, health counts, listing, and that every
    task can reach a terminal state.  \<open>validate_max_iterations\<close> reads a body whose
    \<open>max_iterations\<close> is absent, null or an integer; Pydantic's rejection or lax
    conversion of other JSON values and its check of the required \<open>goal\<close> are not
    modelled.
  \<^item> \<open>Session_IO\<close>: the process effects of \<open>run_agent\<close> around the loop (lines
    39--69 and 245--261): every write of \<open>sys.stderr\<close>, the locals \<open>_old_stderr\<close>,
    \<open>stdio_ctx\<close>, \<open>session_ctx\<close>, and the \<open>__aexit__\<close> calls, as a state record
    \<open>io_state\<close> transformed by \<open>run_agent_io\<close> for each point where the body can
    raise (\<open>exit_point\<close>); and the CLI \<open>main\<close> (lines 263--273) as \<open>cli_io\<close> and
    \<open>cli_main\<close>, the lines it prints over a run of \<open>run_agent\<close>.  A lemma shows
    which contexts are exited and in what order.  \<open>run_agent_io\<close> treats one run as a
    whole; since \<open>sys.stderr\<close> is global and the server's runs overlap at their
    awaits, the theory also splits a quiet run into its atomic segments
    (\<open>quiet_plan\<close>) and runs any interleaving of them (\<open>run_schedule\<close>): the final
    \<open>sys.stderr\<close> is the stream the run finishing last found at its start.
    The process environment of lines 12--14 (\<open>load_dotenv\<close>, \<open>api_key\<close>) is here too.
  \<^item> \<open>Prompt_Examples\<close>: the reply examples and the fixed tool list of
    \<open>SYSTEM_PROMPT_MANUAL\<close> as data, and how the parsers treat each of them.
  \<^item> \<open>Prompt_Manual\<close>: the whole of \<open>SYSTEM_PROMPT_MANUAL\<close> (\<^verbatim>\<open>src/prompt.py\<close>
    lines 144--289), one list of lines per section of the text, and \<open>render_prompt\<close>,
    the prompt string \<open>run_agent\<close> sends (lines 84--101) for the abstract \<open>prompt\<close> of
    \<open>Agent_Loop\<close>.  Lemmas: the prompt holds what the specification's prompt
    construction promises; every tool call the manual shows is read by the parser as
    the manual means it or rejected; a reply that echoes a prompt is read as the
    manual's format template, whatever the goal, digest and history.
  \<^item> \<open>Legacy_Prompt\<close>: the unused \<open>SYSTEM_PROMPT\<close> (\<^verbatim>\<open>src/prompt.py\<close> lines
    1--142) in the same form, and the lemma that it never states the reply protocol:
    no line of it, read as a reply, is one the parser accepts.
  \<^item> \<open>Http_App\<close>: the FastAPI application as data (\<^verbatim>\<open>src/main.py\<close> lines 11--23,
    93--179, 188--190): metadata, CORS set-up, route table, serve address; the lemma
    checks the info of \<open>GET /\<close> against them.
  \<^item> This theory: the properties that span the agent and the registry: a task
    submitted, run by its job and polled shows the agent's outcome; the digest's order
    of required parameters against the positional binding of the coercion.

  \<^bold>\<open>Correspondence.\<close>  Python strings are \<open>string\<close> (one \<open>char\<close> per code point
  below 256; the protocol is ASCII; the few symbols of the prompt text beyond Latin-1
  are their UTF-8 bytes, the form in which the prompt is sent).  Dictionaries with fixed keys are records; the
  registry dictionary is an association list.  An exception is the \<open>Inl\<close> of its
  \<open>str(e)\<close>; a \<open>KeyError\<close> of a deleted task is \<open>None\<close>.  Log lines are kept as
  the structured \<open>log_event\<close> of the call, not as formatted text; timestamps are
  abstract clock reads.

  \<^bold>\<open>Not modelled.\<close>  What the libraries do with the configuration the program
  gives them: the run-time behaviour of FastAPI's routing and documentation pages, of
  the Starlette CORS middleware and of \<open>uvicorn\<close> (the configuration itself is data
  of \<open>Http_App\<close>), the \<open>genai\<close> client (the model is the world's \<open>generate\<close>) and the
  \<open>asyncio\<close> scheduler (the interleavings of its tasks are covered by \<open>reachable\<close>
  for the registry and by \<open>run_schedule\<close> for \<open>sys.stderr\<close>);
  the imports; the content written to the \<open>StringIO\<close> buffers (only which stream is
  current is kept); the guard of \<^verbatim>\<open>src/agent.py\<close> lines 275--279, which catches
  nothing \<open>main\<close> lets through; the rounding of decimal text to binary floats, and the
  4300-digit limit of \<open>int()\<close>; the non-ASCII branches of \<open>repr\<close> and \<open>str.lower\<close>
  beyond Latin-1.  Nothing else of the program is left out.
\<close>

text \<open>A tool whose schema lists its properties in another order than its
  \<open>required\<close> list (the provider's JSON object order decides the former).\<close>

definition swapped_fill_tool :: mcp_tool where
  "swapped_fill_tool = \<lparr>tool_name = ''playwright_fill'',
     input_schema = \<lparr>schema_required = [''selector'', ''value''],
                     schema_properties = [(''value'', Some ''string''), (''selector'', Some ''string'')]\<rparr>\<rparr>"

subsection \<open>The agent inside the registry\<close>

text \<open>C9. When the job of a task runs alone and the agent returns, the task record
  holds exactly what the agent returned: the status from its success flag, its
  result, iteration count, history and execution log, every log call of the run in
  order, and the start and end times around them.\<close>

theorem run_automation_task_record:
  assumes "map_of reg tid = Some t" "run_agent W goal m w = (Inr r, w', st)"
  shows "\<exists>reg' t'. run_automation_task W tid goal m w clk reg = (Some reg', w') \<and> map_of reg' tid = Some t'
    \<and> task_status t' = (if success r then ''completed'' else ''failed'') \<and> task_result t' = Some (result r)
    \<and> iterations_used t' = Some (iterations r) \<and> task_history t' = Some (res_history r)
    \<and> task_exec_log t' = Some (res_exec_log r) \<and> map lg_message (task_logs t') = logs st
    \<and> started_at t' = Some (clk 0) \<and> completed_at t' = Some (clk (Suc (length (logs st))))"
  using run_automation_task_Some [OF assms, of clk] by (auto simp: update_conv')

theorem run_automation_task_record_witness:
  "\<exists>reg' t'. run_automation_task (demo_world answer_second (CallReturned (ContentValue ''clicked''))) ''t3'' ''Open'' (Some 3) () id (srv_tasks demo_server)
      = (Some reg', fst (snd (run_agent (demo_world answer_second (CallReturned (ContentValue ''clicked''))) ''Open'' (Some 3) ())))
    \<and> map_of reg' ''t3'' = Some t'
    \<and> task_status t' = (if success (projr (fst (run_agent (demo_world answer_second (CallReturned (ContentValue ''clicked''))) ''Open'' (Some 3) ()))) then ''completed'' else ''failed'')
    \<and> task_result t' = Some (result (projr (fst (run_agent (demo_world answer_second (CallReturned (ContentValue ''clicked''))) ''Open'' (Some 3) ()))))
    \<and> iterations_used t' = Some (iterations (projr (fst (run_agent (demo_world answer_second (CallReturned (ContentValue ''clicked''))) ''Open'' (Some 3) ()))))
    \<and> task_history t' = Some (res_history (projr (fst (run_agent (demo_world answer_second (CallReturned (ContentValue ''clicked''))) ''Open'' (Some 3) ()))))
    \<and> task_exec_log t' = Some (res_exec_log (projr (fst (run_agent (demo_world answer_second (CallReturned (ContentValue ''clicked''))) ''Open'' (Some 3) ()))))
    \<and> map lg_message (task_logs t') = logs (snd (snd (run_agent (demo_world answer_second (CallReturned (ContentValue ''clicked''))) ''Open'' (Some 3) ())))
    \<and> started_at t' = Some (id 0)
    \<and> completed_at t' = Some (id (Suc (length (logs (snd (snd (run_agent (demo_world answer_second (CallReturned (ContentValue ''clicked''))) ''Open'' (Some 3) ())))))))"
proof (rule run_automation_task_record)
  show "map_of (srv_tasks demo_server) ''t3'' = Some (the (map_of (srv_tasks demo_server) ''t3''))" by code_simp
  show "run_agent (demo_world answer_second (CallReturned (ContentValue ''clicked''))) ''Open'' (Some 3) () =
    (Inr (projr (fst (run_agent (demo_world answer_second (CallReturned (ContentValue ''clicked''))) ''Open'' (Some 3) ()))),
     fst (snd (run_agent (demo_world answer_second (CallReturned (ContentValue ''clicked''))) ''Open'' (Some 3) ())),
     snd (snd (run_agent (demo_world answer_second (CallReturned (ContentValue ''clicked''))) ''Open'' (Some 3) ())))"
    by code_simp
qed

text \<open>Refinement: running a queued job alone, from start to end, is one schedule
  of the server's events (its start, one event per log call, its end), so the state it
  leaves is reachable and every property of the registry holds of it.\<close>

theorem run_automation_task_schedule:
  assumes "reachable s" "map_of (srv_jobs s) tid = Some (Queued goal m)" "map_of (srv_tasks s) tid = Some t"
    and "run_automation_task W tid goal m w clk (srv_tasks s) = (Some reg', w')"
  shows "\<exists>es. run_events s es = Some (s\<lparr>srv_tasks := reg', srv_jobs := AList.delete tid (srv_jobs s)\<rparr>)
    \<and> reachable (s\<lparr>srv_tasks := reg', srv_jobs := AList.delete tid (srv_jobs s)\<rparr>)"
  using job_run_events [OF assms(2-4)] reachable_run_events [OF assms(1)] by blast

theorem run_automation_task_schedule_witness:
  "\<exists>es. run_events demo_server es =
      Some (demo_server\<lparr>srv_tasks := the (fst (run_automation_task (demo_world answer_second (CallReturned (ContentValue ''x''))) ''t3'' ''Open'' None () id (srv_tasks demo_server))),
                        srv_jobs := AList.delete ''t3'' (srv_jobs demo_server)\<rparr>)
    \<and> reachable (demo_server\<lparr>srv_tasks := the (fst (run_automation_task (demo_world answer_second (CallReturned (ContentValue ''x''))) ''t3'' ''Open'' None () id (srv_tasks demo_server))),
                        srv_jobs := AList.delete ''t3'' (srv_jobs demo_server)\<rparr>)"
proof (rule run_automation_task_schedule [OF reachable_demo_server])
  show "map_of (srv_jobs demo_server) ''t3'' = Some (Queued ''Open'' None)" by code_simp
  show "map_of (srv_tasks demo_server) ''t3'' = Some (the (map_of (srv_tasks demo_server) ''t3''))" by code_simp
  show "run_automation_task (demo_world answer_second (CallReturned (ContentValue ''x''))) ''t3'' ''Open'' None () id (srv_tasks demo_server)
    = (Some (the (fst (run_automation_task (demo_world answer_second (CallReturned (ContentValue ''x''))) ''t3'' ''Open'' None () id (srv_tasks demo_server)))), ())"
    by code_simp
qed

text \<open>C27. A submission with \<open>"max_iterations": null\<close> passes validation, and its
  task then fails with the \<open>TypeError\<close> of \<open>range(None)\<close> as its error once the
  MCP session is up: the budget the specification bounds to 5..30 can be absent.\<close>

theorem null_budget_task_fails:
  assumes "create_automation_task reg tid goal Null = Inr (reg1, j, resp)" "connect W w = (Inr tools, w1)"
  shows "j = Queued goal None \<and> (\<exists>reg' t'. run_automation_task W tid goal None w clk reg1 = (Some reg', w1)
    \<and> map_of reg' tid = Some t' \<and> task_status t' = ''failed'' \<and> task_error t' = Some NONE_RANGE_ERROR
    \<and> task_result t' = None)"
proof -
  have j: "j = Queued goal None" and reg1: "reg1 = AList.update tid (new_task tid goal) reg"
    using assms(1) by (auto simp: create_automation_task_def validate_max_iterations_def)
  have tk: "map_of reg1 tid = Some (new_task tid goal)" by (simp add: reg1 update_conv')
  have ra: "run_agent W goal None w = (Inl NONE_RANGE_ERROR, w1, start_state (length tools) goal)"
    using assms(2) by (simp add: run_agent_def)
  from run_automation_task_Some [OF tk ra, of clk] j show ?thesis
    by (auto simp: update_conv' new_task_def)
qed

theorem null_budget_task_fails_witness:
  "Queued ''goal'' None = Queued ''goal'' None \<and> (\<exists>reg' t'. run_automation_task (demo_world answer_second (CallReturned (ContentValue ''x''))) ''t9'' ''goal'' None () id
      (fst (projr (create_automation_task [] ''t9'' ''goal'' Null))) = (Some reg', ())
    \<and> map_of reg' ''t9'' = Some t' \<and> task_status t' = ''failed'' \<and> task_error t' = Some NONE_RANGE_ERROR
    \<and> task_result t' = None)"
proof (rule null_budget_task_fails)
  show "create_automation_task [] ''t9'' ''goal'' Null = Inr (fst (projr (create_automation_task [] ''t9'' ''goal'' Null)),
      Queued ''goal'' None, snd (snd (projr (create_automation_task [] ''t9'' ''goal'' Null))))"
    by code_simp
  show "connect (demo_world answer_second (CallReturned (ContentValue ''x''))) () = (Inr [click_tool], ())" by simp
qed

text \<open>C29. The digest tells the model the required parameters in the order of
  \<open>required\<close>, but values bind positionally in the order of \<open>properties\<close>: for every
  tool whose two orders differ and whose parameters are all passed as text, a model that
  writes one value per parameter in the digest's order has some value bound to a
  different parameter than the one the digest put in its place.\<close>

theorem digest_order_swaps_arguments:
  assumes "map fst (schema_properties (input_schema t)) = ps" "required_params t = rs"
    and "length rs = length ps" "rs \<noteq> ps"
    and "list_all (\<lambda>(n, ty). ty \<notin> {Some ''integer'', Some ''number'', Some ''boolean''})
           (schema_properties (input_schema t))"
    and "length vs = length rs"
  shows "\<exists>args i. coerce_args (schema_properties (input_schema t)) vs = Inr args \<and> i < length rs
           \<and> args ! i = (ps ! i, PyStr (vs ! i)) \<and> ps ! i \<noteq> rs ! i"
proof -
  obtain i where i: "i < length rs" "rs ! i \<noteq> ps ! i" using lists_differ_at [OF assms(3,4)] by blast
  have "coerce_args (schema_properties (input_schema t)) vs = Inr (zip ps (map PyStr vs))"
    using coerce_args_text [OF assms(5)] assms(1) by simp
  moreover have "zip ps (map PyStr vs) ! i = (ps ! i, PyStr (vs ! i))" using i assms(3,6) by simp
  ultimately show ?thesis using i by metis
qed

theorem digest_order_swaps_arguments_witness:
  "\<exists>args i. coerce_args (schema_properties (input_schema swapped_fill_tool)) [''#search'', ''laptop''] = Inr args
     \<and> i < length [''selector'', ''value'']
     \<and> args ! i = ([''value'', ''selector''] ! i, PyStr ([''#search'', ''laptop''] ! i))
     \<and> [''value'', ''selector''] ! i \<noteq> [''selector'', ''value''] ! i"
proof (rule digest_order_swaps_arguments)
  show "map fst (schema_properties (input_schema swapped_fill_tool)) = [''value'', ''selector'']"
    by (simp add: swapped_fill_tool_def)
  show "required_params swapped_fill_tool = [''selector'', ''value'']"
    by code_simp
  show "list_all (\<lambda>(n, ty). ty \<notin> {Some ''integer'', Some ''number'', Some ''boolean''})
      (schema_properties (input_schema swapped_fill_tool))"
    by (simp add: swapped_fill_tool_def)
qed simp_all

lemma swapped_fill_digest:
  "create_tool_descriptions [swapped_fill_tool] = BULLET @ '' playwright_fill(selector, value)''"
  by code_simp

text \<open>C14. End to end through the HTTP surface: a submission answers \<open>pending\<close> and a
  poll then shows the fresh record; once its job has run and the agent returned, a poll
  shows the same task, with its goal, the status from the agent's success flag, the
  agent's result, no error, and every log line of the run.\<close>

theorem submit_run_poll:
  assumes "create_automation_task reg tid goal mi = Inr (reg1, Queued goal m, resp)"
    and "run_agent W goal m w = (Inr r, w', st)"
  shows "resp_status resp = ''pending'' \<and> get_task_status reg1 tid = Inr (new_task tid goal)
    \<and> (\<exists>reg2 t. run_automation_task W tid goal m w clk reg1 = (Some reg2, w') \<and> get_task_status reg2 tid = Inr t
      \<and> task_id t = tid \<and> task_goal t = goal
      \<and> task_status t = (if success r then ''completed'' else ''failed'') \<and> task_result t = Some (result r)
      \<and> task_error t = None \<and> map lg_message (task_logs t) = logs st)"
proof -
  have reg1: "reg1 = AList.update tid (new_task tid goal) reg" and resp: "resp_status resp = ''pending''"
    using assms(1) by (auto simp: create_automation_task_def split: sum.splits)
  have tk: "map_of reg1 tid = Some (new_task tid goal)" by (simp add: reg1 update_conv')
  from run_automation_task_Some [OF tk assms(2), of clk] resp tk show ?thesis
    by (auto simp: get_task_status_def update_conv' new_task_def)
qed

theorem submit_run_poll_witness:
  "resp_status (snd (snd (projr (create_automation_task [] ''t9'' ''goal'' Absent)))) = ''pending''
   \<and> get_task_status (fst (projr (create_automation_task [] ''t9'' ''goal'' Absent))) ''t9'' = Inr (new_task ''t9'' ''goal'')
   \<and> (\<exists>reg2 t. run_automation_task (demo_world answer_second (CallReturned (ContentValue ''clicked''))) ''t9'' ''goal'' (Some 15) () id
          (fst (projr (create_automation_task [] ''t9'' ''goal'' Absent))) = (Some reg2, ())
      \<and> get_task_status reg2 ''t9'' = Inr t \<and> task_id t = ''t9'' \<and> task_goal t = ''goal''
      \<and> task_status t = (if success (projr (fst (run_agent (demo_world answer_second (CallReturned (ContentValue ''clicked''))) ''goal'' (Some 15) ()))) then ''completed'' else ''failed'')
      \<and> task_result t = Some (result (projr (fst (run_agent (demo_world answer_second (CallReturned (ContentValue ''clicked''))) ''goal'' (Some 15) ()))))
      \<and> task_error t = None
      \<and> map lg_message (task_logs t) = logs (snd (snd (run_agent (demo_world answer_second (CallReturned (ContentValue ''clicked''))) ''goal'' (Some 15) ()))))"
proof (rule submit_run_poll)
  show "create_automation_task [] ''t9'' ''goal'' Absent =
      Inr (fst (projr (create_automation_task [] ''t9'' ''goal'' Absent)), Queued ''goal'' (Some 15),
           snd (snd (projr (create_automation_task [] ''t9'' ''goal'' Absent))))"
    by code_simp
  show "run_agent (demo_world answer_second (CallReturned (ContentValue ''clicked''))) ''goal'' (Some 15) () =
    (Inr (projr (fst (run_agent (demo_world answer_second (CallReturned (ContentValue ''clicked''))) ''goal'' (Some 15) ()))),
     (), snd (snd (run_agent (demo_world answer_second (CallReturned (ContentValue ''clicked''))) ''goal'' (Some 15) ())))"
    by code_simp
qed

end
